(* ===== verification/Wapo_Prelude.thy ===== *)
theory Wapo_Prelude
  imports Main "HOL-Library.Word"
begin

text \<open>
  Shared vocabulary of the development: the machine integers of the Rust sources as words of
  their width, byte strings, Rust's \<open>Result\<close> with the combinators the code uses on it (the
  question-mark operator, \<open>ok_or\<close>, \<open>map\<close>), checked and saturating arithmetic, and the generic
  lemmas on words, options and lists that the component theories use through the collections
  declared here.
\<close>

unbundle bit_operations_syntax

named_theorems result_simps \<open>unfolding the Result combinators\<close>
named_theorems word_arith_simps \<open>saturating and checked word arithmetic, read as naturals\<close>

type_synonym u8 = "8 word"
type_synonym u16 = "16 word"
type_synonym u32 = "32 word"
type_synonym u64 = "64 word"
type_synonym u128 = "128 word"
type_synonym i32 = "32 word"
type_synonym i64 = "64 word"
type_synonym bytes = "u8 list"

section \<open>Result\<close>

datatype ('a, 'e) result = Ok 'a | Err 'e

text \<open>\<open>std::task::Poll\<close>; the constructor \<open>Pend\<close> leaves the name to the error code \<open>Pending\<close>.\<close>

datatype 'a poll = Pend | Ready 'a

definition and_then :: "('a, 'e) result \<Rightarrow> ('a \<Rightarrow> ('b, 'e) result) \<Rightarrow> ('b, 'e) result" where
  "and_then r f = (case r of Ok v \<Rightarrow> f v | Err e \<Rightarrow> Err e)"

definition ok_or :: "'a option \<Rightarrow> 'e \<Rightarrow> ('a, 'e) result" where
  "ok_or x e = (case x of Some v \<Rightarrow> Ok v | None \<Rightarrow> Err e)"

definition map_ok :: "('a \<Rightarrow> 'b) \<Rightarrow> ('a, 'e) result \<Rightarrow> ('b, 'e) result" where
  "map_ok f r = (case r of Ok v \<Rightarrow> Ok (f v) | Err e \<Rightarrow> Err e)"

definition or_err :: "('a, 'e) result \<Rightarrow> 'f \<Rightarrow> ('a, 'f) result" where
  "or_err r e = (case r of Ok v \<Rightarrow> Ok v | Err _ \<Rightarrow> Err e)"

fun is_ok :: "('a, 'e) result \<Rightarrow> bool" where
  "is_ok (Ok _) = True"
| "is_ok (Err _) = False"

section \<open>Machine arithmetic\<close>

definition saturating_add :: "'a::len word \<Rightarrow> 'a word \<Rightarrow> 'a word" where
  "saturating_add a b = (if unat a + unat b < 2 ^ LENGTH('a) then a + b else - 1)"

definition saturating_mul :: "'a::len word \<Rightarrow> 'a word \<Rightarrow> 'a word" where
  "saturating_mul a b = (if unat a * unat b < 2 ^ LENGTH('a) then a * b else - 1)"

definition checked_add :: "'a::len word \<Rightarrow> 'a word \<Rightarrow> 'a word option" where
  "checked_add a b = (if unat a + unat b < 2 ^ LENGTH('a) then Some (a + b) else None)"

section \<open>Lemmas\<close>

lemma and_then_simps [simp, result_simps]:
  "and_then (Ok v) f = f v"
  "and_then (Err e) f = Err e"
  by (simp_all add: and_then_def)

lemma ok_or_simps [simp, result_simps]:
  "ok_or (Some v) e = Ok v"
  "ok_or None e = Err e"
  by (simp_all add: ok_or_def)

lemma map_ok_simps [simp, result_simps]:
  "map_ok f (Ok v) = Ok (f v)"
  "map_ok f (Err e) = Err e"
  by (simp_all add: map_ok_def)

lemma or_err_simps [simp, result_simps]:
  "or_err (Ok v) e' = Ok v"
  "or_err (Err e) e' = Err e'"
  by (simp_all add: or_err_def)

lemma and_then_eq_Ok: "and_then r f = Ok v \<longleftrightarrow> (\<exists>x. r = Ok x \<and> f x = Ok v)"
  by (cases r) auto

lemma ok_or_eq_Ok: "ok_or x e = Ok v \<longleftrightarrow> x = Some v"
  by (cases x) auto

lemma map_ok_eq_Ok: "map_ok f r = Ok v \<longleftrightarrow> (\<exists>x. r = Ok x \<and> v = f x)"
  by (cases r) auto

lemmas result_iffs = and_then_eq_Ok ok_or_eq_Ok map_ok_eq_Ok

lemma unat_lt_2p [simp, intro]: "unat (a :: 'a::len word) < 2 ^ LENGTH('a)"
  by (rule unsigned_less)

lemma unat_max_word: "unat (- 1 :: 'a::len word) = 2 ^ LENGTH('a) - 1"
  by (simp add: unsigned_minus_1_eq_mask mask_eq_exp_minus_1)

lemma unat_le_max: "unat (a :: 'a::len word) \<le> 2 ^ LENGTH('a) - 1"
  using unat_lt_2p [of a] by linarith

lemma unat_saturating_add [word_arith_simps]:
  "unat (saturating_add a b) = min (unat a + unat b) (2 ^ LENGTH('a) - 1)"
  for a b :: "'a::len word"
  by (simp add: saturating_add_def unat_word_ariths unat_max_word)

lemma unat_saturating_mul [word_arith_simps]:
  "unat (saturating_mul a b) = min (unat a * unat b) (2 ^ LENGTH('a) - 1)"
  for a b :: "'a::len word"
  by (simp add: saturating_mul_def unat_word_ariths unat_max_word)

lemma checked_add_Some [word_arith_simps]:
  "checked_add a b = Some c \<longleftrightarrow> unat a + unat b < 2 ^ LENGTH('a) \<and> c = a + b"
  for a b :: "'a::len word"
  by (auto simp: checked_add_def)

lemma saturating_add_commute: "saturating_add a b = saturating_add b a"
  by (simp add: saturating_add_def add.commute)

lemma capped_add_assoc: "min (min (a + b) m + c) m = min (a + min (b + c) m) m"
  for a b c m :: nat
  by arith

lemma saturating_add_assoc:
  "saturating_add (saturating_add a b) c = saturating_add a (saturating_add b c)"
  unfolding word_unat_eq_iff unat_saturating_add by (rule capped_add_assoc)

lemma saturating_add_left_commute:
  "saturating_add a (saturating_add b c) = saturating_add b (saturating_add a c)"
  by (metis saturating_add_assoc saturating_add_commute)

lemmas saturating_add_ac =
  saturating_add_assoc saturating_add_commute saturating_add_left_commute

lemma saturating_add_zero [simp]: "saturating_add 0 a = a" "saturating_add a 0 = a"
  by (simp_all add: saturating_add_def)

lemma saturating_add_mono: "unat a \<le> unat (saturating_add a b)"
  for a b :: "'a::len word"
  using unat_le_max [of a] by (simp add: word_arith_simps)

lemma sint_i32_bounds: "- (2 ^ 31) \<le> sint (i :: i32)" "sint i < 2 ^ 31"
  using sint_ge [of i] sint_lt [of i] by simp_all

lemma mod_wrap: "- m \<le> k \<Longrightarrow> k < 0 \<Longrightarrow> k mod m = k + m" for k m :: int
  using mod_pos_pos_trivial [of "k + m" m] by simp

lemma uint_i32_cases: "uint (i :: i32) = (if sint i < 0 then sint i + 2 ^ 32 else sint i)"
  using sint_i32_bounds [of i]
  by (simp add: uint_sint [of i] take_bit_eq_mod mod_wrap)

lemma unat_complement: "unat (- 1 - i) = 2 ^ LENGTH('a) - 1 - unat i" for i :: "'a::len word"
  using unat_le_max [of i] by (simp add: unat_sub_if' unat_max_word)

lemma sint_i32_nonneg: "0 \<le> sint (i :: i32) \<longleftrightarrow> unat i < 2 ^ 31"
  using uint_i32_cases [of i] sint_i32_bounds [of i]
  by (auto simp: unat_eq_nat_uint nat_less_iff split: if_splits)

end
