(* ===== verification/Rust_Collections.thy ===== *)
theory Rust_Collections
  imports Wapo_Prelude "HOL-Library.AList"
begin

text \<open>
  The collections of the Rust standard library that the program keeps its state in. A
  \<open>BTreeMap\<close> is its list of entries in key order; a \<open>HashMap\<close> is the list of its entries in the
  order an iteration would visit them, which the program must not rely on, so theorems hold for
  every such order; a \<open>Vec<Option<T>>\<close> used as a table of slots is a list of options. The locale
  \<open>map_iface\<close> is what the clients of the two maps use of them.
\<close>

section \<open>Maps\<close>

type_synonym ('k, 'v) btree = "('k \<times> 'v) list"
type_synonym ('k, 'v) hashmap = "('k \<times> 'v) list"

definition btree_inv :: "('k::linorder, 'v) btree \<Rightarrow> bool" where
  "btree_inv m \<longleftrightarrow> sorted_wrt (<) (map fst m)"

fun btree_insert :: "'k::linorder \<Rightarrow> 'v \<Rightarrow> ('k, 'v) btree \<Rightarrow> ('k, 'v) btree" where
  "btree_insert k v [] = [(k, v)]"
| "btree_insert k v ((k', v') # m) =
     (if k < k' then (k, v) # (k', v') # m
      else if k = k' then (k, v) # m
      else (k', v') # btree_insert k v m)"

definition btree_remove :: "'k \<Rightarrow> ('k, 'v) btree \<Rightarrow> ('k, 'v) btree" where
  "btree_remove k m = filter (\<lambda>e. fst e \<noteq> k) m"

definition btree_pop_first :: "('k, 'v) btree \<Rightarrow> (('k \<times> 'v) \<times> ('k, 'v) btree) option" where
  "btree_pop_first m = (case m of [] \<Rightarrow> None | e # m' \<Rightarrow> Some (e, m'))"

definition btree_pop_last :: "('k, 'v) btree \<Rightarrow> (('k \<times> 'v) \<times> ('k, 'v) btree) option" where
  "btree_pop_last m = (if m = [] then None else Some (last m, butlast m))"

definition hash_inv :: "('k, 'v) hashmap \<Rightarrow> bool" where
  "hash_inv m \<longleftrightarrow> distinct (map fst m)"

definition hash_insert :: "'k \<Rightarrow> 'v \<Rightarrow> ('k, 'v) hashmap \<Rightarrow> ('k, 'v) hashmap" where
  "hash_insert k v m = AList.update k v m"

definition hash_remove :: "'k \<Rightarrow> ('k, 'v) hashmap \<Rightarrow> ('k, 'v) hashmap" where
  "hash_remove k m = AList.delete k m"

locale map_iface =
  fixes lookup :: "'m \<Rightarrow> 'k \<rightharpoonup> 'v"
    and insert :: "'k \<Rightarrow> 'v \<Rightarrow> 'm \<Rightarrow> 'm"
    and remove :: "'k \<Rightarrow> 'm \<Rightarrow> 'm"
    and empty :: 'm
    and inv :: "'m \<Rightarrow> bool"
  assumes lookup_empty: "lookup empty k = None"
    and lookup_insert: "lookup (insert k v m) k' = (if k' = k then Some v else lookup m k')"
    and lookup_remove: "lookup (remove k m) k' = (if k' = k then None else lookup m k')"
    and inv_empty: "inv empty"
    and inv_insert: "inv m \<Longrightarrow> inv (insert k v m)"
    and inv_remove: "inv m \<Longrightarrow> inv (remove k m)"
begin

lemma dom_insert: "dom (lookup (insert k v m)) = {k} \<union> dom (lookup m)"
  by (auto simp: lookup_insert split: if_splits)

lemma dom_remove: "dom (lookup (remove k m)) = dom (lookup m) - {k}"
  by (auto simp: lookup_remove split: if_splits)

lemma insert_keeps: "lookup m k' = Some v' \<Longrightarrow> k' \<noteq> k \<Longrightarrow> lookup (insert k v m) k' = Some v'"
  by (simp add: lookup_insert)

lemma ran_insert: "ran (lookup (insert k v m)) \<subseteq> {v} \<union> ran (lookup m)"
  by (auto simp: ran_def lookup_insert split: if_splits)

lemma ran_remove: "ran (lookup (remove k m)) \<subseteq> ran (lookup m)"
  by (auto simp: ran_def lookup_remove split: if_splits)

lemma remove_insert: "lookup (remove k (insert k v m)) = (lookup m)(k := None)"
  by (auto simp: lookup_insert lookup_remove)

end

section \<open>Slot tables\<close>

fun first_none :: "'a option list \<Rightarrow> nat option" where
  "first_none [] = None"
| "first_none (x # xs) = (if x = None then Some 0 else map_option Suc (first_none xs))"

definition slot_get :: "'a option list \<Rightarrow> nat \<Rightarrow> 'a option" where
  "slot_get t i = (if i < length t then t ! i else None)"

definition slot_free :: "nat \<Rightarrow> 'a option list \<Rightarrow> 'a option list" where
  "slot_free i t = (if i < length t then t[i := None] else t)"

definition slots_live :: "'a option list \<Rightarrow> nat set" where
  "slots_live t = {i. slot_get t i \<noteq> None}"

fun alloc_all ::
  "('a \<Rightarrow> 's \<Rightarrow> (nat \<times> 's) option) \<Rightarrow> 'a list \<Rightarrow> 's \<Rightarrow> (nat list \<times> 's) option" where
  "alloc_all alloc [] s = Some ([], s)"
| "alloc_all alloc (x # xs) s =
     (case alloc x s of
        None \<Rightarrow> None
      | Some (i, s') \<Rightarrow> map_option (\<lambda>(is, s''). (i # is, s'')) (alloc_all alloc xs s'))"

text \<open>
  The contract of an allocator of slots: it hands out a slot that was free and
  changes no other. \<open>slots\<close> reads the table off the allocator's state.
\<close>

locale slot_alloc =
  fixes alloc :: "'a \<Rightarrow> 's \<Rightarrow> (nat \<times> 's) option"
    and slots :: "'s \<Rightarrow> 'a option list"
    and ok :: "'s \<Rightarrow> bool"
  assumes alloc_fresh: "ok s \<Longrightarrow> alloc x s = Some (i, s') \<Longrightarrow> slot_get (slots s) i = None"
    and alloc_get: "ok s \<Longrightarrow> alloc x s = Some (i, s') \<Longrightarrow>
      slot_get (slots s') j = (if j = i then Some x else slot_get (slots s) j)"
    and alloc_ok: "ok s \<Longrightarrow> alloc x s = Some (i, s') \<Longrightarrow> ok s'"
begin

lemma alloc_live:
  "ok s \<Longrightarrow> alloc x s = Some (i, s') \<Longrightarrow> slots_live (slots s') = insert i (slots_live (slots s))"
  by (auto simp: slots_live_def alloc_get split: if_splits)

lemma alloc_keeps:
  "ok s \<Longrightarrow> alloc x s = Some (i, s') \<Longrightarrow> slot_get (slots s) j = Some y \<Longrightarrow>
   j \<noteq> i \<and> slot_get (slots s') j = Some y"
  using alloc_fresh alloc_get by fastforce

lemma alloc_all_sound:
  "ok s \<Longrightarrow> alloc_all alloc xs s = Some (is, s') \<Longrightarrow>
   ok s' \<and> distinct is \<and> length is = length xs \<and> set is \<inter> slots_live (slots s) = {} \<and>
   (\<forall>k < length xs. slot_get (slots s') (is ! k) = Some (xs ! k)) \<and>
   (\<forall>j. j \<notin> set is \<longrightarrow> slot_get (slots s') j = slot_get (slots s) j)"
proof (induction xs arbitrary: s "is")
  case (Cons x xs)
  from Cons.prems obtain i s1 is1 where a: "alloc x s = Some (i, s1)"
    and r: "alloc_all alloc xs s1 = Some (is1, s')" and "is": "is = i # is1"
    by (auto split: option.splits)
  from Cons.prems(1) a have ok1: "ok s1" by (rule alloc_ok)
  note ih = Cons.IH [OF ok1 r]
  from alloc_live [OF Cons.prems(1) a] ih have i: "i \<notin> set is1"
    and disj: "set is1 \<inter> slots_live (slots s) = {}" by auto
  from i ih alloc_get [OF Cons.prems(1) a, of i] have "slot_get (slots s') i = Some x" by simp
  moreover have "i \<notin> slots_live (slots s)"
    using alloc_fresh [OF Cons.prems(1) a] by (simp add: slots_live_def)
  ultimately show ?case
    using ih i disj alloc_get [OF Cons.prems(1) a] by (auto simp: "is" nth_Cons split: nat.splits)
qed simp

end

section \<open>Lemmas on the maps\<close>

lemma set_btree_insert: "set (btree_insert k v m) \<subseteq> {(k, v)} \<union> set m"
  by (induction k v m rule: btree_insert.induct) (auto split: if_splits)

lemma fst_set_btree_insert: "fst ` set (btree_insert k v m) = {k} \<union> fst ` set m"
  by (induction k v m rule: btree_insert.induct) (simp_all add: insert_commute)

lemma map_of_btree_insert: "map_of (btree_insert k v m) k' = (if k' = k then Some v else map_of m k')"
  by (induction m) auto

lemma btree_inv_insert: "btree_inv m \<Longrightarrow> btree_inv (btree_insert k v m)"
proof (induction m)
  case Nil
  then show ?case by (simp add: btree_inv_def)
next
  case (Cons e m)
  obtain k' v' where e: "e = (k', v')" by (cases e)
  from Cons.prems have low: "\<forall>x \<in> fst ` set m. k' < x" and m: "btree_inv m"
    by (auto simp: btree_inv_def e)
  have "\<forall>x \<in> fst ` set (btree_insert k v m). k' < x" if "k' < k"
    using low that by (auto simp: fst_set_btree_insert)
  with Cons.IH [OF m] low m show ?case
    by (auto simp: btree_inv_def e)
qed

lemma length_btree_insert_cases:
  "length (btree_insert k v m) = Suc (length m) \<or> length (btree_insert k v m) = length m"
  by (induction k v m rule: btree_insert.induct) auto

lemma length_btree_insert_le: "length (btree_insert k v m) \<le> Suc (length m)"
  using length_btree_insert_cases [of k v m] by auto

lemma map_of_btree_remove: "map_of (btree_remove k m) k' = (if k' = k then None else map_of m k')"
  by (induction m) (auto simp: btree_remove_def)

lemma btree_remove_insert: "btree_remove k (btree_insert k v m) = btree_remove k m"
  by (induction k v m rule: btree_insert.induct) (auto simp: btree_remove_def)

lemma btree_remove_subset: "set (btree_remove k m) \<subseteq> set m"
  by (auto simp: btree_remove_def)

lemma btree_inv_remove: "btree_inv m \<Longrightarrow> btree_inv (btree_remove k m)"
  by (simp add: btree_inv_def btree_remove_def sorted_wrt_filter sorted_wrt_map)

interpretation btree: map_iface map_of btree_insert btree_remove "[]" btree_inv
  by unfold_locales
    (simp_all add: map_of_btree_insert map_of_btree_remove btree_inv_insert btree_inv_remove,
      simp add: btree_inv_def)

interpretation hash: map_iface map_of hash_insert hash_remove "[]" hash_inv
  by unfold_locales
    (simp_all add: hash_insert_def hash_remove_def hash_inv_def update_conv' delete_conv'
      distinct_update distinct_delete)

lemma btree_distinct: "btree_inv m \<Longrightarrow> distinct (map fst m)"
  unfolding btree_inv_def by (metis strict_sorted_iff)

lemma btree_lookup_mem: "btree_inv m \<Longrightarrow> map_of m k = Some v \<longleftrightarrow> (k, v) \<in> set m"
  by (meson btree_distinct map_of_eq_Some_iff)

lemma hash_lookup_mem: "hash_inv m \<Longrightarrow> map_of m k = Some v \<longleftrightarrow> (k, v) \<in> set m"
  by (simp add: hash_inv_def)

lemma btree_inv_butlast: "btree_inv m \<Longrightarrow> btree_inv (butlast m)"
  by (simp add: btree_inv_def butlast_conv_take sorted_wrt_take take_map [symmetric])

lemma btree_insert_last:
  "(\<forall>x \<in> fst ` set m. x < k) \<Longrightarrow> btree_insert k v m = m @ [(k, v)]"
  by (induction m) auto


section \<open>Lemmas on slot tables\<close>

lemma first_none_SomeD:
  "first_none xs = Some i \<Longrightarrow> i < length xs \<and> xs ! i = None \<and> (\<forall>j < i. xs ! j \<noteq> None)"
proof (induction xs arbitrary: i)
  case (Cons x xs)
  show ?case
  proof (cases "x = None")
    case False
    with Cons.prems obtain i' where "first_none xs = Some i'" "i = Suc i'" by auto
    with Cons.IH [of i'] False show ?thesis by (auto simp: nth_Cons split: nat.splits)
  qed (use Cons.prems in auto)
qed simp

lemma first_none_None: "first_none xs = None \<longleftrightarrow> None \<notin> set xs"
  by (induction xs) auto

lemma slot_get_SomeD: "slot_get t i = Some x \<Longrightarrow> i < length t \<and> t ! i = Some x"
  by (simp add: slot_get_def split: if_splits)

lemma nth_update_lt: "j < length xs \<Longrightarrow> xs[i := x] ! j = (if j = i then x else xs ! j)"
  by (auto simp: nth_list_update)

lemma slot_get_free: "slot_get (slot_free i t) j = (if j = i then None else slot_get t j)"
  by (simp add: slot_get_def slot_free_def nth_list_update)

lemma slots_live_free: "slots_live (slot_free i t) = slots_live t - {i}"
  by (auto simp: slots_live_def slot_get_free split: if_splits)

lemma slot_get_update:
  "i < length t \<Longrightarrow> slot_get (t[i := x]) j = (if j = i then x else slot_get t j)"
  by (simp add: slot_get_def nth_list_update)

lemma slot_get_append:
  "slot_get (t @ [x]) j = (if j = length t then x else slot_get t j)"
  by (simp add: slot_get_def nth_append)

lemma slots_live_bound: "slots_live t \<subseteq> {..<length t}"
  by (auto simp: slots_live_def slot_get_def split: if_splits)

lemma slots_live_full: "None \<notin> set t \<longleftrightarrow> slots_live t = {..<length t}"
  by (auto simp: slots_live_def slot_get_def in_set_conv_nth split: if_splits)

end
