(* ===== verification/Meter_Metrics.thy ===== *)
theory Meter_Metrics
  imports Wapo_Prelude "HOL-Library.Multiset"
begin

text \<open>
  Usage accounting (\<open>wapo-host/src/runtime/metrics.rs\<close>): the counters of a running instance
  (\<open>Meter\<close>, wrapping atomic additions) and the summary an app accumulates over its instances
  (\<open>Metrics\<close>, saturating additions). Merging is shown to be an abelian semigroup through the
  library's locale, which makes every total independent of the order of the summands.
\<close>

section \<open>Durations and instants\<close>

text \<open>
  A \<open>Duration\<close> and an \<open>Instant\<close> are counted in nanoseconds. \<open>Duration::MAX\<close> is
  \<open>u64::MAX\<close> seconds and 999999999 nanoseconds, and \<open>Duration::saturating_add\<close> stops there.
\<close>

type_synonym duration = nat
type_synonym instant = nat

definition DURATION_MAX :: duration where
  "DURATION_MAX = 2 ^ 64 * 1000000000 - 1"

definition duration_saturating_add :: "duration \<Rightarrow> duration \<Rightarrow> duration" where
  "duration_saturating_add a b = min (a + b) DURATION_MAX"

definition elapsed :: "instant \<Rightarrow> instant \<Rightarrow> duration" where
  "elapsed now t = min (now - t) DURATION_MAX"

section \<open>Metrics\<close>

record Metrics =
  m_gas_consumed :: u64
  m_net_egress :: u64
  m_net_ingress :: u64
  m_storage_read :: u64
  m_storage_written :: u64
  m_storage_used :: u64
  m_memory_used :: u64
  m_starts :: u64
  m_tip :: u64
  m_duration :: duration

definition metrics_default :: Metrics where
  "metrics_default =
     \<lparr> m_gas_consumed = 0, m_net_egress = 0, m_net_ingress = 0, m_storage_read = 0,
       m_storage_written = 0, m_storage_used = 0, m_memory_used = 0, m_starts = 0, m_tip = 0,
       m_duration = 0 \<rparr>"

definition metrics_merge :: "Metrics \<Rightarrow> Metrics \<Rightarrow> Metrics" where
  "metrics_merge self other =
     \<lparr> m_gas_consumed = saturating_add (m_gas_consumed self) (m_gas_consumed other),
       m_net_egress = saturating_add (m_net_egress self) (m_net_egress other),
       m_net_ingress = saturating_add (m_net_ingress self) (m_net_ingress other),
       m_storage_read = saturating_add (m_storage_read self) (m_storage_read other),
       m_storage_written = saturating_add (m_storage_written self) (m_storage_written other),
       m_storage_used = 0,
       m_memory_used = saturating_add (m_memory_used self) (m_memory_used other),
       m_starts = saturating_add (m_starts self) (m_starts other),
       m_tip = saturating_add (m_tip self) (m_tip other),
       m_duration = duration_saturating_add (m_duration self) (m_duration other) \<rparr>"

text \<open>\<open>merged\<close> copies and merges; \<open>Add\<close> and \<open>AddAssign\<close> are \<open>merged\<close> and \<open>merge\<close>.\<close>

definition metrics_merged :: "Metrics \<Rightarrow> Metrics \<Rightarrow> Metrics" where
  "metrics_merged self other = (let result = self in metrics_merge result other)"

definition metrics_add :: "Metrics \<Rightarrow> Metrics \<Rightarrow> Metrics" where
  "metrics_add self other = metrics_merged self other"

definition metrics_add_assign :: "Metrics \<Rightarrow> Metrics \<Rightarrow> Metrics" where
  "metrics_add_assign self other = metrics_merge self other"

section \<open>Meter\<close>

record Meter =
  created_at :: instant
  gas_consumed :: u64
  memory_used :: u64
  net_egress :: u64
  net_ingress :: u64
  storage_read :: u64
  storage_written :: u64
  tip :: u64
  stopped :: bool

definition meter_default :: "instant \<Rightarrow> Meter" where
  "meter_default now =
     \<lparr> created_at = now, gas_consumed = 0, memory_used = 0, net_egress = 0, net_ingress = 0,
       storage_read = 0, storage_written = 0, tip = 0, stopped = False \<rparr>"

definition set_gas_comsumed :: "u64 \<Rightarrow> Meter \<Rightarrow> Meter" where
  "set_gas_comsumed gas m = m\<lparr>gas_consumed := gas\<rparr>"

definition record_gas :: "u64 \<Rightarrow> Meter \<Rightarrow> Meter" where
  "record_gas gas m = m\<lparr>gas_consumed := gas_consumed m + gas\<rparr>"

definition record_net_egress :: "u64 \<Rightarrow> Meter \<Rightarrow> Meter" where
  "record_net_egress n m = m\<lparr>net_egress := net_egress m + n\<rparr>"

definition record_net_ingress :: "u64 \<Rightarrow> Meter \<Rightarrow> Meter" where
  "record_net_ingress n m = m\<lparr>net_ingress := net_ingress m + n\<rparr>"

definition record_storage_read :: "u64 \<Rightarrow> Meter \<Rightarrow> Meter" where
  "record_storage_read n m = m\<lparr>storage_read := storage_read m + n\<rparr>"

definition record_storage_written :: "u64 \<Rightarrow> Meter \<Rightarrow> Meter" where
  "record_storage_written n m = m\<lparr>storage_written := storage_written m + n\<rparr>"

definition record_tcp_connect_start :: "Meter \<Rightarrow> Meter" where
  "record_tcp_connect_start m = record_net_egress 512 m"

definition record_tls_connect_start :: "Meter \<Rightarrow> Meter" where
  "record_tls_connect_start m = record_net_egress 4096 m"

definition record_tcp_connect_done :: "Meter \<Rightarrow> Meter" where
  "record_tcp_connect_done m = record_net_ingress 512 m"

definition record_tls_connect_done :: "Meter \<Rightarrow> Meter" where
  "record_tls_connect_done m = record_net_ingress 4096 m"

definition record_tcp_shutdown :: "Meter \<Rightarrow> Meter" where
  "record_tcp_shutdown m = record_net_egress 128 m"

definition add_tip :: "u64 \<Rightarrow> Meter \<Rightarrow> Meter" where
  "add_tip value m =
     (let previous = tip m; m' = m\<lparr>tip := tip m + value\<rparr>
      in if checked_add previous value = None then m'\<lparr>tip := - 1\<rparr> else m')"

definition meter_stop :: "Meter \<Rightarrow> Meter" where
  "meter_stop m = m\<lparr>stopped := True\<rparr>"

definition to_metrics :: "instant \<Rightarrow> Meter \<Rightarrow> Metrics" where
  "to_metrics now m =
     \<lparr> m_gas_consumed = gas_consumed m, m_net_egress = net_egress m,
       m_net_ingress = net_ingress m, m_storage_read = storage_read m,
       m_storage_written = storage_written m, m_storage_used = 0,
       m_memory_used = memory_used m, m_starts = 1, m_tip = tip m,
       m_duration = elapsed now (created_at m) \<rparr>"

text \<open>
  The gas of the WebAssembly code itself: \<open>sync_gas\<close> turns the fuel the store has used since it
  was last filled to \<open>u64::MAX\<close> into gas at 1024 fuel a unit, once more than 16 units are due, and
  refills it. The remainder of the division is dropped with the refill.
\<close>

definition sync_gas :: "u64 \<times> Meter \<Rightarrow> u64 \<times> Meter" where
  "sync_gas = (\<lambda>(rest_fuel, m).
     let consumed_fuel = - 1 - rest_fuel
     in if consumed_fuel > 1024 * 16
        then (let gas = consumed_fuel div 1024 in (- 1, record_gas gas m))
        else (rest_fuel, m))"

section \<open>Merging is an abelian semigroup\<close>

lemma duration_saturating_add_commute:
  "duration_saturating_add a b = duration_saturating_add b a"
  by (simp add: duration_saturating_add_def add.commute)

lemma duration_saturating_add_assoc:
  "duration_saturating_add (duration_saturating_add a b) c =
   duration_saturating_add a (duration_saturating_add b c)"
  unfolding duration_saturating_add_def by (rule capped_add_assoc)

interpretation metrics: abel_semigroup metrics_merge
proof
  show "metrics_merge (metrics_merge a b) c = metrics_merge a (metrics_merge b c)" for a b c
    by (simp add: metrics_merge_def saturating_add_assoc duration_saturating_add_assoc)
  show "metrics_merge a b = metrics_merge b a" for a b
    by (simp add: metrics_merge_def saturating_add_commute duration_saturating_add_commute)
qed

lemma metrics_add_eq_merge [simp]: "metrics_add = metrics_merge"
  by (intro ext) (simp add: metrics_add_def metrics_merged_def)

lemma metrics_add_assign_eq_merge [simp]: "metrics_add_assign = metrics_merge"
  by (intro ext) (simp add: metrics_add_assign_def)

lemma metrics_fold_shift:
  "foldl metrics_merge (metrics_merge h x) xs = metrics_merge x (foldl metrics_merge h xs)"
proof (induction xs arbitrary: h)
  case Nil
  show ?case by (simp add: metrics.commute)
next
  case (Cons y ys)
  have "metrics_merge (metrics_merge h x) y = metrics_merge (metrics_merge h y) x"
    by (simp add: metrics.assoc metrics.commute metrics.left_commute)
  with Cons.IH [of "metrics_merge h y"] show ?case by simp
qed

lemma metrics_fold_remove1:
  "x \<in> set xs \<Longrightarrow>
   foldl metrics_merge h xs = foldl metrics_merge (metrics_merge h x) (remove1 x xs)"
proof (induction xs arbitrary: h)
  case (Cons y ys)
  show ?case
  proof (cases "x = y")
    case False
    with Cons.prems have "x \<in> set ys" by simp
    from Cons.IH [OF this] False show ?thesis
      by (simp add: metrics.assoc metrics.commute metrics.left_commute)
  qed simp
qed simp


lemma metrics_fold_perm:
  "mset xs = mset ys \<Longrightarrow> foldl metrics_merge h xs = foldl metrics_merge h ys"
proof (induction xs arbitrary: ys h)
  case (Cons x xs)
  then have x: "x \<in> set ys" and "mset xs = mset (remove1 x ys)"
    by (metis list.set_intros(1) set_mset_mset, simp add: Cons.prems [symmetric])
  from Cons.IH [OF this(2)] metrics_fold_remove1 [OF x] show ?case by simp
qed simp

section \<open>Properties of the counters\<close>

text \<open>
  Totals never wrap: every counter of two merged metrics is the exact sum of the two counters,
  capped at the largest 64-bit value (and at the longest duration), except the unused
  \<open>storage_used\<close>, which is zero.
\<close>

lemma metrics_merge_saturates:
  "unat (m_gas_consumed (metrics_merge a b)) =
     min (unat (m_gas_consumed a) + unat (m_gas_consumed b)) (2 ^ 64 - 1) \<and>
   unat (m_net_egress (metrics_merge a b)) =
     min (unat (m_net_egress a) + unat (m_net_egress b)) (2 ^ 64 - 1) \<and>
   unat (m_net_ingress (metrics_merge a b)) =
     min (unat (m_net_ingress a) + unat (m_net_ingress b)) (2 ^ 64 - 1) \<and>
   unat (m_storage_read (metrics_merge a b)) =
     min (unat (m_storage_read a) + unat (m_storage_read b)) (2 ^ 64 - 1) \<and>
   unat (m_storage_written (metrics_merge a b)) =
     min (unat (m_storage_written a) + unat (m_storage_written b)) (2 ^ 64 - 1) \<and>
   unat (m_memory_used (metrics_merge a b)) =
     min (unat (m_memory_used a) + unat (m_memory_used b)) (2 ^ 64 - 1) \<and>
   unat (m_starts (metrics_merge a b)) =
     min (unat (m_starts a) + unat (m_starts b)) (2 ^ 64 - 1) \<and>
   unat (m_tip (metrics_merge a b)) = min (unat (m_tip a) + unat (m_tip b)) (2 ^ 64 - 1) \<and>
   m_duration (metrics_merge a b) = min (m_duration a + m_duration b) DURATION_MAX \<and>
   m_storage_used (metrics_merge a b) = 0"
  by (simp add: metrics_merge_def word_arith_simps duration_saturating_add_def)

text \<open>
  Tips saturate: although the atomic addition wraps, \<open>add_tip\<close> leaves the exact sum or
  \<open>u64::MAX\<close>, and touches no other counter.
\<close>

lemma add_tip_saturates:
  "add_tip v m = m\<lparr>tip := saturating_add (tip m) v\<rparr>"
  by (simp add: add_tip_def saturating_add_def checked_add_def Let_def)

text \<open>
  Synchronising gas never charges fuel that was not used and, each time it
  charges, drops less than one unit (1024 fuel): with \<open>used\<close> the fuel consumed since the last
  refill, either at most 16384 is outstanding and nothing changes, or the store is
  refilled and the meter grows by the whole units of \<open>used\<close>.
\<close>

lemma sync_gas_exact:
  fixes rest_fuel :: u64 and m :: Meter
  defines "used \<equiv> 2 ^ 64 - 1 - unat rest_fuel"
  shows "sync_gas (rest_fuel, m) =
    (if used \<le> 16384 then (rest_fuel, m)
     else (- 1, m\<lparr>gas_consumed := gas_consumed m + of_nat (used div 1024)\<rparr>))"
proof -
  have c: "unat (- 1 - rest_fuel) = used"
    unfolding used_def using unat_le_max [of rest_fuel]
    by (simp add: unat_sub_if' unat_max_word)
  have gt: "- 1 - rest_fuel > 16384 \<longleftrightarrow> \<not> used \<le> 16384"
    unfolding c [symmetric] by (simp add: word_less_nat_alt not_le)
  have "(- 1 - rest_fuel) div 1024 = of_nat (used div 1024)"
    unfolding c [symmetric] by (simp add: word_arith_nat_div)
  with gt show ?thesis
    by (simp add: sync_gas_def record_gas_def Let_def)
qed

end
