(* ===== verification/Ocall_Abi.thy ===== *)
theory Ocall_Abi
  imports Wapo_Prelude
begin

text \<open>
  The calling convention between a guest and the host (\<open>wapo-env\<close>): the error codes, the
  conversions of scalar arguments to 32-bit integers (\<open>I32Convertible\<close>), the argument stack that
  packs at most four of them (\<open>StackedArgs\<close>, \<open>Nargs\<close>), the packing of a \<open>Result\<close> into one 64-bit
  return value (\<open>RetEncode\<close>, \<open>RetDecode\<close>), and the guest stubs that undo it. The trait
  \<open>I32Convertible\<close> is the locale \<open>i32_convertible\<close>; every implementation of the trait is an
  interpretation of it.
\<close>

type_synonym IntPtr = i32
type_synonym IntRet = i64

section \<open>Error codes\<close>

text \<open>The variants \<open>Reserved19\<close> to \<open>Reserved255\<close> are \<open>Reserved n\<close> with their number.\<close>

datatype OcallError =
    OcallOk
  | UnknownCallNumber
  | InvalidAddress
  | InvalidParameter
  | InvalidEncoding
  | NoMemory
  | NotFound
  | UnsupportedOperation
  | IoError
  | ResourceLimited
  | Pending
  | EndOfFile
  | GasExhausted
  | Stifled
  | AlreadyExists
  | DataCorruption
  | Forbiden
  | ConditionError
  | Reserved u8

fun ocall_error_valid :: "OcallError \<Rightarrow> bool" where
  "ocall_error_valid (Reserved n) = (19 \<le> n)"
| "ocall_error_valid _ = True"

fun ocall_error_code :: "OcallError \<Rightarrow> u8" where
  "ocall_error_code OcallOk = 0"
| "ocall_error_code UnknownCallNumber = 1"
| "ocall_error_code InvalidAddress = 2"
| "ocall_error_code InvalidParameter = 3"
| "ocall_error_code InvalidEncoding = 4"
| "ocall_error_code NoMemory = 5"
| "ocall_error_code NotFound = 7"
| "ocall_error_code UnsupportedOperation = 8"
| "ocall_error_code IoError = 9"
| "ocall_error_code ResourceLimited = 10"
| "ocall_error_code Pending = 11"
| "ocall_error_code EndOfFile = 12"
| "ocall_error_code GasExhausted = 13"
| "ocall_error_code Stifled = 14"
| "ocall_error_code AlreadyExists = 15"
| "ocall_error_code DataCorruption = 16"
| "ocall_error_code Forbiden = 17"
| "ocall_error_code ConditionError = 18"
| "ocall_error_code (Reserved n) = n"

definition ocall_error_try_from :: "u8 \<Rightarrow> OcallError option" where
  "ocall_error_try_from c =
     (if c = 0 then Some OcallOk
      else if c = 1 then Some UnknownCallNumber
      else if c = 2 then Some InvalidAddress
      else if c = 3 then Some InvalidParameter
      else if c = 4 then Some InvalidEncoding
      else if c = 5 then Some NoMemory
      else if c = 6 then None
      else if c = 7 then Some NotFound
      else if c = 8 then Some UnsupportedOperation
      else if c = 9 then Some IoError
      else if c = 10 then Some ResourceLimited
      else if c = 11 then Some Pending
      else if c = 12 then Some EndOfFile
      else if c = 13 then Some GasExhausted
      else if c = 14 then Some Stifled
      else if c = 15 then Some AlreadyExists
      else if c = 16 then Some DataCorruption
      else if c = 17 then Some Forbiden
      else if c = 18 then Some ConditionError
      else Some (Reserved c))"

section \<open>Scalars as 32-bit integers\<close>

definition signed_to_i32 :: "'a::len word \<Rightarrow> i32" where
  "signed_to_i32 x = signed x"

definition signed_from_i32 :: "i32 \<Rightarrow> ('a::len word, OcallError) result" where
  "signed_from_i32 i =
     (let m = 2 ^ (LENGTH('a) - 1) - 1
      in if sint i > m \<or> sint i < - m - 1 then Err InvalidEncoding else Ok (ucast i))"

definition unsigned_to_i32 :: "'a::len word \<Rightarrow> i32" where
  "unsigned_to_i32 x = ucast x"

definition unsigned_from_i32 :: "i32 \<Rightarrow> ('a::len word, OcallError) result" where
  "unsigned_from_i32 i =
     (if uint i > 2 ^ LENGTH('a) - 1 then Err InvalidEncoding else Ok (ucast i))"

definition i32_to_i32 :: "i32 \<Rightarrow> i32" where
  "i32_to_i32 x = x"

definition i32_from_i32 :: "i32 \<Rightarrow> (i32, OcallError) result" where
  "i32_from_i32 i = Ok i"

definition bool_to_i32 :: "bool \<Rightarrow> i32" where
  "bool_to_i32 b = (if b then 1 else 0)"

definition bool_from_i32 :: "i32 \<Rightarrow> (bool, OcallError) result" where
  "bool_from_i32 i =
     (if i = 0 then Ok False else if i = 1 then Ok True else Err InvalidEncoding)"

definition error_to_i32 :: "OcallError \<Rightarrow> i32" where
  "error_to_i32 e = ucast (ocall_error_code e)"

definition error_from_i32 :: "i32 \<Rightarrow> (OcallError, OcallError) result" where
  "error_from_i32 i =
     and_then (unsigned_from_i32 i)
       (\<lambda>code :: u8. ok_or (ocall_error_try_from code) InvalidEncoding)"

definition unit_to_i32 :: "unit \<Rightarrow> i32" where
  "unit_to_i32 u = 0"

definition unit_from_i32 :: "i32 \<Rightarrow> (unit, OcallError) result" where
  "unit_from_i32 i = (if i = 0 then Ok () else Err InvalidEncoding)"

datatype Level = LevelError | LevelWarn | LevelInfo | LevelDebug | LevelTrace

fun level_to_i32 :: "Level \<Rightarrow> i32" where
  "level_to_i32 LevelError = 1"
| "level_to_i32 LevelWarn = 2"
| "level_to_i32 LevelInfo = 3"
| "level_to_i32 LevelDebug = 4"
| "level_to_i32 LevelTrace = 5"

definition level_from_i32 :: "i32 \<Rightarrow> (Level, OcallError) result" where
  "level_from_i32 i =
     (if i = 1 then Ok LevelError
      else if i = 2 then Ok LevelWarn
      else if i = 3 then Ok LevelInfo
      else if i = 4 then Ok LevelDebug
      else if i = 5 then Ok LevelTrace
      else Err InvalidEncoding)"

datatype InputChannel = ChQuery | ChHttpRequest

fun channel_to_i32 :: "InputChannel \<Rightarrow> i32" where
  "channel_to_i32 ChQuery = 3"
| "channel_to_i32 ChHttpRequest = 4"

definition channel_from_i32 :: "i32 \<Rightarrow> (InputChannel, OcallError) result" where
  "channel_from_i32 i =
     (if i = 3 then Ok ChQuery else if i = 4 then Ok ChHttpRequest else Err InvalidParameter)"

section \<open>The argument stack\<close>

text \<open>
  The type parameter of \<open>StackedArgs\<close> is built from \<open>()\<close>, \<open>IntPtr\<close> and pairs: \<open>nargs_ty\<close> is that
  type and \<open>nargs\<close> are its values.
\<close>

definition OCALL_N_ARGS :: nat where
  "OCALL_N_ARGS = 4"

datatype nargs_ty = TUnit | TInt | TPair nargs_ty nargs_ty

datatype nargs = NUnit | NInt IntPtr | NPair nargs nargs

fun nargs_type :: "nargs \<Rightarrow> nargs_ty" where
  "nargs_type NUnit = TUnit"
| "nargs_type (NInt _) = TInt"
| "nargs_type (NPair a b) = TPair (nargs_type a) (nargs_type b)"

fun N_ARGS :: "nargs_ty \<Rightarrow> nat" where
  "N_ARGS TUnit = 0"
| "N_ARGS TInt = 1"
| "N_ARGS (TPair a b) = N_ARGS a + N_ARGS b"

fun nargs_load :: "nargs_ty \<Rightarrow> IntPtr list \<Rightarrow> (nargs \<times> IntPtr list) option" where
  "nargs_load TUnit buf = Some (NUnit, buf)"
| "nargs_load TInt buf = (case buf of [] \<Rightarrow> None | me # rest \<Rightarrow> Some (NInt me, rest))"
| "nargs_load (TPair A B) buf =
     (case nargs_load B buf of
        None \<Rightarrow> None
      | Some (b, buf') \<Rightarrow>
          (case nargs_load A buf' of
             None \<Rightarrow> None
           | Some (a, buf'') \<Rightarrow> Some (NPair a b, buf'')))"

fun nargs_dump :: "nargs \<Rightarrow> IntPtr list" where
  "nargs_dump NUnit = replicate OCALL_N_ARGS 0"
| "nargs_dump (NInt v) = (replicate OCALL_N_ARGS 0)[0 := v]"
| "nargs_dump (NPair a b) =
     (let na = N_ARGS (nargs_type a); nb = N_ARGS (nargs_type b)
      in take nb (nargs_dump b) @ take na (nargs_dump a) @
         drop (nb + na) (replicate OCALL_N_ARGS 0))"

text \<open>
  \<open>check_args_length\<close> is a compile-time check: a type of more than four words does not build,
  which the model shows as \<open>None\<close>.
\<close>

definition check_args_length :: "nargs_ty \<Rightarrow> bool" where
  "check_args_length t \<longleftrightarrow> \<not> N_ARGS t > OCALL_N_ARGS"

definition stacked_load :: "nargs_ty \<Rightarrow> IntPtr list \<Rightarrow> nargs option" where
  "stacked_load t raw =
     (if check_args_length t then map_option fst (nargs_load t raw) else None)"

definition stacked_dump :: "nargs \<Rightarrow> IntPtr list option" where
  "stacked_dump a = (if check_args_length (nargs_type a) then Some (nargs_dump a) else None)"

definition stacked_push :: "nargs \<Rightarrow> nargs \<Rightarrow> nargs" where
  "stacked_push stack arg = NPair arg stack"

fun stacked_pop :: "nargs \<Rightarrow> (nargs \<times> nargs) option" where
  "stacked_pop (NPair a stack) = Some (a, stack)"
| "stacked_pop _ = None"

section \<open>Encoding of one argument\<close>

text \<open>
  An argument is a scalar (already a 32-bit integer), a slice or string given by pointer and
  length, or a 64-bit integer sent in two halves.
\<close>

datatype ocall_arg = ArgI32 i32 | ArgSlice u32 u32 | Arg64 u64

datatype arg_kind = KI32 | KSlice | K64

fun arg_kind_of :: "ocall_arg \<Rightarrow> arg_kind" where
  "arg_kind_of (ArgI32 _) = KI32"
| "arg_kind_of (ArgSlice _ _) = KSlice"
| "arg_kind_of (Arg64 _) = K64"

fun arg_kind_type :: "arg_kind \<Rightarrow> nargs_ty" where
  "arg_kind_type KI32 = TInt"
| "arg_kind_type KSlice = TPair TInt TInt"
| "arg_kind_type K64 = TPair TInt TInt"

definition encode_arg64 :: "u64 \<Rightarrow> nargs" where
  "encode_arg64 v =
     (let low = ucast (v AND 0xffffffff) :: IntPtr;
          high = ucast (drop_bit 32 v AND 0xffffffff) :: IntPtr
      in NPair (NInt low) (NInt high))"

definition decode_arg64 :: "IntPtr \<Rightarrow> IntPtr \<Rightarrow> u64" where
  "decode_arg64 low high = (let high' = push_bit 32 (signed high :: u64) in high' AND signed low)"

fun encode_arg :: "ocall_arg \<Rightarrow> nargs" where
  "encode_arg (ArgI32 v) = NInt v"
| "encode_arg (ArgSlice ptr len) = NPair (NInt len) (NInt ptr)"
| "encode_arg (Arg64 v) = encode_arg64 v"

fun decode_arg :: "arg_kind \<Rightarrow> nargs \<Rightarrow> ocall_arg option" where
  "decode_arg KI32 (NInt v) = Some (ArgI32 v)"
| "decode_arg KSlice (NPair (NInt len) (NInt ptr)) = Some (ArgSlice ptr len)"
| "decode_arg K64 (NPair (NInt low) (NInt high)) = Some (Arg64 (decode_arg64 low high))"
| "decode_arg _ _ = None"

fun push_args :: "nargs \<Rightarrow> ocall_arg list \<Rightarrow> nargs" where
  "push_args stack [] = stack"
| "push_args stack (a # as) = push_args (stacked_push stack (encode_arg a)) as"

fun push_types :: "nargs_ty \<Rightarrow> arg_kind list \<Rightarrow> nargs_ty" where
  "push_types t [] = t"
| "push_types t (k # ks) = push_types (TPair (arg_kind_type k) t) ks"

text \<open>The host pops the arguments last to first and must end with the empty stack.\<close>

fun pop_args :: "arg_kind list \<Rightarrow> nargs \<Rightarrow> ocall_arg list \<Rightarrow> ocall_arg list option" where
  "pop_args [] stack acc = (if stack = NUnit then Some acc else None)"
| "pop_args (k # ks) stack acc =
     (case stacked_pop stack of
        None \<Rightarrow> None
      | Some (a, stack') \<Rightarrow>
          (case decode_arg k a of
             None \<Rightarrow> None
           | Some v \<Rightarrow> pop_args ks stack' (v # acc)))"

definition guest_args :: "ocall_arg list \<Rightarrow> IntPtr list option" where
  "guest_args args = stacked_dump (push_args NUnit args)"

definition host_args :: "arg_kind list \<Rightarrow> IntPtr list \<Rightarrow> (ocall_arg list, OcallError) result" where
  "host_args ks raw =
     (case stacked_load (push_types TUnit ks) raw of
        None \<Rightarrow> Err InvalidParameter
      | Some stack \<Rightarrow> ok_or (pop_args (rev ks) stack []) InvalidParameter)"

section \<open>Return values\<close>

definition encode_ret :: "('a \<Rightarrow> i32) \<Rightarrow> ('b \<Rightarrow> i32) \<Rightarrow> ('a, 'b) result \<Rightarrow> IntRet" where
  "encode_ret to_a to_b r =
     (let (tp, val) = (case r of Ok v \<Rightarrow> (0 :: u32, to_a v) | Err e \<Rightarrow> (1, to_b e))
      in push_bit 32 (ucast tp) OR ucast val)"

text \<open>\<open>None\<close> is the panic of the \<open>expect\<close> on a value outside the type.\<close>

definition decode_ret ::
    "(i32 \<Rightarrow> ('a, OcallError) result) \<Rightarrow> (i32 \<Rightarrow> ('b, OcallError) result) \<Rightarrow> IntRet \<Rightarrow>
      ('a, 'b) result option" where
  "decode_ret from_a from_b encoded =
     (let tp = ucast (signed_drop_bit 32 encoded AND 0xffffffff) :: i32;
          val = ucast (encoded AND 0xffffffff) :: i32
      in if tp = 0
         then (case from_a val of Ok v \<Rightarrow> Some (Ok v) | Err _ \<Rightarrow> None)
         else (case from_b val of Ok v \<Rightarrow> Some (Err v) | Err _ \<Rightarrow> None))"

text \<open>
  The host ends every fast call with \<open>map(to_i32)\<close> and \<open>encode_ret\<close>; the guest stub decodes a
  \<open>Result<i32>\<close> and converts it back.
\<close>

definition host_fast_return :: "('a \<Rightarrow> i32) \<Rightarrow> ('a, OcallError) result \<Rightarrow> IntRet" where
  "host_fast_return to_a r = encode_ret i32_to_i32 error_to_i32 (map_ok to_a r)"

definition guest_fast_return ::
    "(i32 \<Rightarrow> ('a, OcallError) result) \<Rightarrow> IntRet \<Rightarrow> ('a, OcallError) result option" where
  "guest_fast_return from_a ret =
     (case decode_ret i32_from_i32 error_from_i32 ret of
        None \<Rightarrow> None
      | Some r \<Rightarrow> Some (and_then r from_a))"

section \<open>The interface of the scalar conversions\<close>

locale i32_convertible =
  fixes to_i32 :: "'a \<Rightarrow> i32"
    and from_i32 :: "i32 \<Rightarrow> ('a, OcallError) result"
    and valid :: "'a \<Rightarrow> bool"
  assumes from_to: "valid x \<Longrightarrow> from_i32 (to_i32 x) = Ok x"
begin

lemma to_i32_inject: "valid x \<Longrightarrow> valid y \<Longrightarrow> to_i32 x = to_i32 y \<longleftrightarrow> x = y"
  by (metis from_to result.inject(1))

end

lemma ocall_error_try_from_code:
  "ocall_error_valid e \<Longrightarrow> ocall_error_try_from (ocall_error_code e) = Some e"
proof (cases e)
  case (Reserved n)
  assume "ocall_error_valid e"
  with Reserved have "19 \<le> n" by simp
  then have "n \<noteq> k" if "k < 19" for k using that by auto
  with Reserved show ?thesis by (simp add: ocall_error_try_from_def)
qed (simp_all add: ocall_error_try_from_def)

lemma uint_lt_2p: "uint (c :: 'a::len word) < 2 ^ LENGTH('a)"
  by (rule unsigned_less)

lemma uint_ucast_i32:
  assumes "LENGTH('a::len) \<le> 32"
  shows "uint (ucast (c :: 'a word) :: i32) = uint c"
proof -
  have "(2::int) ^ LENGTH('a) \<le> 2 ^ 32" using assms by (intro power_increasing) auto
  with uint_lt_2p [of c] have "uint c < 2 ^ 32" by linarith
  then show ?thesis by (simp add: unsigned_ucast_eq take_bit_int_eq_self)
qed

lemma sint_signed_i32:
  assumes "LENGTH('a::len) \<le> 32"
  shows "sint (signed (x :: 'a word) :: i32) = sint x"
proof -
  have p: "(2::int) ^ (LENGTH('a) - 1) \<le> 2 ^ 31" using assms by (intro power_increasing) auto
  have "- (2 ^ 31) \<le> sint x" using p sint_ge [of x] by linarith
  moreover have "sint x < 2 ^ 31" using p sint_lt [of x] by linarith
  ultimately show ?thesis by (simp add: signed_scast_eq signed_take_bit_int_eq_self_iff)
qed

lemma signed_from_to_i32:
  fixes x :: "'a::len word"
  assumes "LENGTH('a) \<le> 32"
  shows "signed_from_i32 (signed_to_i32 x) = Ok x"
proof -
  have "ucast (signed x :: i32) = x"
  proof (rule bit_word_eqI)
    fix n assume "n < LENGTH('a)"
    then have "min (LENGTH('a) - Suc 0) n = n" by simp
    with \<open>n < LENGTH('a)\<close> assms show "bit (ucast (signed x :: i32) :: 'a word) n = bit x n"
      by (simp add: bit_simps)
  qed
  then show ?thesis
    using sint_ge [of x] sint_lt [of x]
    by (simp add: signed_from_i32_def signed_to_i32_def sint_signed_i32 [OF assms] Let_def)
qed

lemma unsigned_from_to_i32:
  fixes x :: "'a::len word"
  assumes "LENGTH('a) \<le> 32"
  shows "unsigned_from_i32 (unsigned_to_i32 x) = Ok x"
proof -
  have "ucast (ucast x :: i32) = x"
    using assms by (intro bit_word_eqI) (auto simp: bit_simps)
  moreover have "\<not> uint x > 2 ^ LENGTH('a) - 1" using uint_lt_2p [of x] by linarith
  ultimately show ?thesis
    by (simp add: unsigned_from_i32_def unsigned_to_i32_def uint_ucast_i32 [OF assms])
qed

interpretation conv_i8: i32_convertible signed_to_i32 signed_from_i32 "\<lambda>_ :: 8 word. True"
  by unfold_locales (simp add: signed_from_to_i32)

interpretation conv_i16: i32_convertible signed_to_i32 signed_from_i32 "\<lambda>_ :: 16 word. True"
  by unfold_locales (simp add: signed_from_to_i32)

interpretation conv_u8: i32_convertible unsigned_to_i32 unsigned_from_i32 "\<lambda>_ :: 8 word. True"
  by unfold_locales (simp add: unsigned_from_to_i32)

interpretation conv_u16: i32_convertible unsigned_to_i32 unsigned_from_i32 "\<lambda>_ :: 16 word. True"
  by unfold_locales (simp add: unsigned_from_to_i32)

interpretation conv_i32: i32_convertible i32_to_i32 i32_from_i32 "\<lambda>_. True"
  by unfold_locales (simp add: i32_to_i32_def i32_from_i32_def)

interpretation conv_bool: i32_convertible bool_to_i32 bool_from_i32 "\<lambda>_. True"
  by unfold_locales (simp add: bool_to_i32_def bool_from_i32_def)

interpretation conv_unit: i32_convertible unit_to_i32 unit_from_i32 "\<lambda>_. True"
  by unfold_locales (simp add: unit_to_i32_def unit_from_i32_def)

interpretation conv_level: i32_convertible level_to_i32 level_from_i32 "\<lambda>_. True"
proof unfold_locales
  show "level_from_i32 (level_to_i32 x) = Ok x" for x
    by (cases x) (simp_all add: level_from_i32_def)
qed

interpretation conv_channel: i32_convertible channel_to_i32 channel_from_i32 "\<lambda>_. True"
proof unfold_locales
  show "channel_from_i32 (channel_to_i32 x) = Ok x" for x
    by (cases x) (simp_all add: channel_from_i32_def)
qed

interpretation conv_error: i32_convertible error_to_i32 error_from_i32 ocall_error_valid
proof unfold_locales
  fix e assume e: "ocall_error_valid e"
  show "error_from_i32 (error_to_i32 e) = Ok e"
    using conv_u8.from_to [of "ocall_error_code e"] ocall_error_try_from_code [OF e]
    by (simp add: error_from_i32_def error_to_i32_def unsigned_to_i32_def)
qed

section \<open>Return values survive the trip\<close>

fun result_valid :: "('a \<Rightarrow> bool) \<Rightarrow> ('b \<Rightarrow> bool) \<Rightarrow> ('a, 'b) result \<Rightarrow> bool" where
  "result_valid pa pb (Ok v) = pa v"
| "result_valid pa pb (Err e) = pb e"

lemma ret_tag:
  "ucast (signed_drop_bit 32 (push_bit 32 (ucast (tp :: u32)) OR ucast (val :: i32) :: i64)
     AND 0xffffffff) = tp"
proof -
  have m: "(0xffffffff :: 64 word) = mask 32" by (simp add: mask_eq_exp_minus_1)
  show ?thesis
    unfolding m by (intro bit_word_eqI) (auto simp: bit_simps dest: bit_imp_le_length)
qed

lemma ret_value:
  "ucast ((push_bit 32 (ucast (tp :: u32)) OR ucast (val :: i32) :: i64) AND 0xffffffff) = val"
proof -
  have m: "(0xffffffff :: 64 word) = mask 32" by (simp add: mask_eq_exp_minus_1)
  show ?thesis
    unfolding m by (intro bit_word_eqI) (auto simp: bit_simps dest: bit_imp_le_length)
qed

lemmas decode_encode_tag =
  decode_ret_def encode_ret_def prod.case result.case ret_tag ret_value

locale ret_codec =
  A: i32_convertible to_a from_a valid_a + B: i32_convertible to_b from_b valid_b
  for to_a :: "'a \<Rightarrow> i32" and from_a and valid_a
    and to_b :: "'b \<Rightarrow> i32" and from_b and valid_b
begin

lemma decode_encode_ret:
  assumes "result_valid valid_a valid_b r"
  shows "decode_ret from_a from_b (encode_ret to_a to_b r) = Some r"
proof (cases r)
  case (Ok v)
  with assms show ?thesis
    by (simp only: decode_encode_tag Let_def) (simp add: A.from_to)
next
  case (Err e)
  with assms show ?thesis
    by (simp only: decode_encode_tag Let_def) (simp add: B.from_to)
qed

lemma encode_ret_inject:
  assumes "result_valid valid_a valid_b r" "result_valid valid_a valid_b s"
  shows "encode_ret to_a to_b r = encode_ret to_a to_b s \<longleftrightarrow> r = s"
  using decode_encode_ret [OF assms(1)] decode_encode_ret [OF assms(2)] by (metis option.inject)

end

interpretation ret_i32: ret_codec i32_to_i32 i32_from_i32 "\<lambda>_. True"
    error_to_i32 error_from_i32 ocall_error_valid
  by unfold_locales

context i32_convertible
begin

lemma fast_return_roundtrip:
  assumes "result_valid valid ocall_error_valid r"
  shows "guest_fast_return from_i32 (host_fast_return to_i32 r) = Some r"
proof -
  have "result_valid (\<lambda>_. True) ocall_error_valid (map_ok to_i32 r)"
    using assms by (cases r) auto
  then have d: "decode_ret i32_from_i32 error_from_i32
      (encode_ret i32_to_i32 error_to_i32 (map_ok to_i32 r)) = Some (map_ok to_i32 r)"
    by (rule ret_i32.decode_encode_ret)
  show ?thesis
    unfolding guest_fast_return_def host_fast_return_def d
    using assms by (cases r) (simp_all add: from_to)
qed

end

lemmas fast_returns =
  conv_i32.fast_return_roundtrip conv_unit.fast_return_roundtrip conv_bool.fast_return_roundtrip
  conv_u8.fast_return_roundtrip conv_u16.fast_return_roundtrip conv_i8.fast_return_roundtrip
  conv_i16.fast_return_roundtrip conv_level.fast_return_roundtrip conv_channel.fast_return_roundtrip
  conv_error.fast_return_roundtrip

text \<open>
  C7: a result that a host function returns in a register reaches the guest unchanged, whatever the type of its
  value: for \<open>i32\<close> and \<open>u32\<close> (the same words), \<open>()\<close>, \<open>bool\<close>, the smaller integers, log levels,
  input channels and error codes, the 64-bit word the host packs the value or the \<open>OcallError\<close> into
  decodes in the guest stub, without a panic, to exactly that result, so distinct results are never
  confused.
\<close>

theorem ocall_return_roundtrip:
  fixes r_u8 :: "(8 word, OcallError) result" and r_u16 :: "(16 word, OcallError) result"
    and r_i8 :: "(8 word, OcallError) result" and r_i16 :: "(16 word, OcallError) result"
  assumes "result_valid (\<lambda>_. True) ocall_error_valid r_i32" "result_valid (\<lambda>_. True) ocall_error_valid r_unit"
    and "result_valid (\<lambda>_. True) ocall_error_valid r_bool" "result_valid (\<lambda>_. True) ocall_error_valid r_u8"
    and "result_valid (\<lambda>_. True) ocall_error_valid r_u16" "result_valid (\<lambda>_. True) ocall_error_valid r_i8"
    and "result_valid (\<lambda>_. True) ocall_error_valid r_i16" "result_valid (\<lambda>_. True) ocall_error_valid r_level"
    and "result_valid (\<lambda>_. True) ocall_error_valid r_channel"
    and "result_valid ocall_error_valid ocall_error_valid r_error"
  shows "guest_fast_return i32_from_i32 (host_fast_return i32_to_i32 r_i32) = Some r_i32 \<and>
    guest_fast_return unit_from_i32 (host_fast_return unit_to_i32 r_unit) = Some r_unit \<and>
    guest_fast_return bool_from_i32 (host_fast_return bool_to_i32 r_bool) = Some r_bool \<and>
    guest_fast_return unsigned_from_i32 (host_fast_return unsigned_to_i32 r_u8) = Some r_u8 \<and>
    guest_fast_return unsigned_from_i32 (host_fast_return unsigned_to_i32 r_u16) = Some r_u16 \<and>
    guest_fast_return signed_from_i32 (host_fast_return signed_to_i32 r_i8) = Some r_i8 \<and>
    guest_fast_return signed_from_i32 (host_fast_return signed_to_i32 r_i16) = Some r_i16 \<and>
    guest_fast_return level_from_i32 (host_fast_return level_to_i32 r_level) = Some r_level \<and>
    guest_fast_return channel_from_i32 (host_fast_return channel_to_i32 r_channel) = Some r_channel \<and>
    guest_fast_return error_from_i32 (host_fast_return error_to_i32 r_error) = Some r_error"
  using assms by (intro conjI fast_returns)

theorem ocall_return_roundtrip_witness:
  "guest_fast_return i32_from_i32 (host_fast_return i32_to_i32 (Err Pending)) = Some (Err Pending) \<and>
   guest_fast_return unit_from_i32 (host_fast_return unit_to_i32 (Ok ())) = Some (Ok ()) \<and>
   guest_fast_return signed_from_i32 (host_fast_return signed_to_i32 (Ok (- 3 :: 16 word))) = Some (Ok (- 3 :: 16 word))"
  using ocall_return_roundtrip [of "Err Pending" "Ok ()" "Ok True" "Ok 200" "Ok 60000" "Ok (- 5)" "Ok (- 3)" "Ok LevelWarn"
      "Ok ChQuery" "Ok NotFound"]
  by simp

section \<open>Arguments survive the trip\<close>

lemma length_nargs_dump [simp]:
  "N_ARGS (nargs_type v) \<le> OCALL_N_ARGS \<Longrightarrow> length (nargs_dump v) = OCALL_N_ARGS"
  by (induction v) (simp_all add: Let_def)

lemma nargs_load_dump:
  "N_ARGS (nargs_type v) \<le> OCALL_N_ARGS \<Longrightarrow>
   nargs_load (nargs_type v) (take (N_ARGS (nargs_type v)) (nargs_dump v) @ rest) = Some (v, rest)"
proof (induction v arbitrary: rest)
  case NUnit
  then show ?case by simp
next
  case (NInt x)
  then show ?case by (simp add: OCALL_N_ARGS_def numeral_eq_Suc)
next
  case (NPair a b)
  let ?na = "N_ARGS (nargs_type a)" and ?nb = "N_ARGS (nargs_type b)"
  from NPair.prems have na: "?na \<le> OCALL_N_ARGS" and nb: "?nb \<le> OCALL_N_ARGS" by auto
  have "take (?na + ?nb) (nargs_dump (NPair a b)) =
      take ?nb (nargs_dump b) @ take ?na (nargs_dump a)"
    using na nb by (simp add: Let_def)
  then show ?case
    using NPair.IH(1) [OF na, of rest] NPair.IH(2) [OF nb, of "take ?na (nargs_dump a) @ rest"]
    by simp
qed

lemma stacked_load_dump:
  assumes "stacked_dump v = Some raw"
  shows "stacked_load (nargs_type v) raw = Some v"
proof -
  from assms have n: "N_ARGS (nargs_type v) \<le> OCALL_N_ARGS" and raw: "raw = nargs_dump v"
    by (auto simp: stacked_dump_def check_args_length_def split: if_splits)
  have "raw = take (N_ARGS (nargs_type v)) (nargs_dump v) @ drop (N_ARGS (nargs_type v)) raw"
    by (simp add: raw)
  with nargs_load_dump [OF n] have "nargs_load (nargs_type v) raw =
      Some (v, drop (N_ARGS (nargs_type v)) raw)"
    by metis
  with n show ?thesis by (simp add: stacked_load_def check_args_length_def)
qed

text \<open>What the host reads for an argument the guest pushed.\<close>

fun arg_as_seen :: "ocall_arg \<Rightarrow> ocall_arg" where
  "arg_as_seen (ArgI32 v) = ArgI32 v"
| "arg_as_seen (ArgSlice ptr len) = ArgSlice ptr len"
| "arg_as_seen (Arg64 v) = Arg64 (if bit v 31 then v AND NOT (mask 32) else 0)"

lemma decode_encode_arg64:
  assumes "encode_arg64 v = NPair (NInt low) (NInt high)"
  shows "decode_arg64 low high = (if bit v 31 then v AND NOT (mask 32) else 0)"
proof -
  have m: "(0xffffffff :: 64 word) = mask 32" by (simp add: mask_eq_exp_minus_1)
  have low: "low = ucast (v AND mask 32)" and high: "high = ucast (drop_bit 32 v AND mask 32)"
    using assms by (auto simp: encode_arg64_def m Let_def)
  have "bit (decode_arg64 low high) n = bit (if bit v 31 then v AND NOT (mask 32) else 0) n"
    if "n < 64" for n
  proof (cases "n < 32")
    case True
    then show ?thesis
      by (auto simp: decode_arg64_def low high bit_simps Let_def)
  next
    case False
    with that have "min 31 (n - 32) = n - 32" "min 31 n = 31" by auto
    with that False show ?thesis
      by (auto simp: decode_arg64_def low high bit_simps Let_def)
  qed
  then show ?thesis by (intro bit_word_eqI) simp
qed

lemma decode_encode_arg: "decode_arg (arg_kind_of a) (encode_arg a) = Some (arg_as_seen a)"
proof (cases a)
  case (Arg64 v)
  obtain low high where e: "encode_arg64 v = NPair (NInt low) (NInt high)"
    by (simp add: encode_arg64_def Let_def)
  show ?thesis using decode_encode_arg64 [OF e] by (simp add: Arg64 e)
qed simp_all

lemma nargs_type_encode_arg: "nargs_type (encode_arg a) = arg_kind_type (arg_kind_of a)"
  by (cases a) (simp_all add: encode_arg64_def Let_def)

lemma nargs_type_push_args:
  "nargs_type (push_args stack as) = push_types (nargs_type stack) (map arg_kind_of as)"
  by (induction as arbitrary: stack) (simp_all add: stacked_push_def nargs_type_encode_arg)

lemma push_args_snoc: "push_args stack (as @ [a]) = NPair (encode_arg a) (push_args stack as)"
  by (induction as arbitrary: stack) (simp_all add: stacked_push_def)

lemma pop_push_args:
  "pop_args (rev (map arg_kind_of as)) (push_args NUnit as) acc = Some (map arg_as_seen as @ acc)"
  by (induction as arbitrary: acc rule: rev_induct) (simp_all add: push_args_snoc decode_encode_arg)

lemma host_args_guest_args:
  assumes "guest_args as = Some raw"
  shows "host_args (map arg_kind_of as) raw = Ok (map arg_as_seen as)"
  using stacked_load_dump [OF assms [unfolded guest_args_def]]
  by (simp add: host_args_def nargs_type_push_args pop_push_args)

text \<open>
  C8: whatever arguments without 64-bit integers a guest stub pushes on the argument stack, if they fit
  the four words of an ocall, the host pops exactly as many, in the declared order, with 32-bit scalars,
  pointers and lengths unchanged.
\<close>

theorem ocall_args_in_order:
  assumes "guest_args as = Some raw" and "\<forall>a \<in> set as. arg_kind_of a \<noteq> K64"
  shows "host_args (map arg_kind_of as) raw = Ok as"
proof -
  have "arg_as_seen a = a" if "a \<in> set as" for a
    using assms(2) that by (cases a) force+
  then have "map arg_as_seen as = as" by (simp add: map_idI)
  with host_args_guest_args [OF assms(1)] show ?thesis by simp
qed

theorem ocall_args_in_order_witness:
  "guest_args [ArgI32 1, ArgI32 2, ArgSlice 16 64] = Some [1, 2, 16, 64] \<and>
   host_args [KI32, KI32, KSlice] [1, 2, 16, 64] = Ok [ArgI32 1, ArgI32 2, ArgSlice 16 64]"
proof -
  have g: "guest_args [ArgI32 1, ArgI32 2, ArgSlice 16 64] = Some [1, 2, 16, 64]" by code_simp
  with ocall_args_in_order [OF g] show ?thesis by simp
qed

text \<open>
  C20: a 64-bit argument (the amount of the ocall \<open>tip\<close>) does not survive the trip. The
  host combines the two halves with a bitwise and where the encoding needs an or, so
  it reads zero, or the upper half alone when bit 31 is set: the only amount that arrives intact
  is zero.
\<close>

theorem ocall_arg64_lost:
  assumes "guest_args [Arg64 v] = Some raw"
  shows "host_args [K64] raw = Ok [Arg64 (if bit v 31 then v AND NOT (mask 32) else 0)] \<and>
    (host_args [K64] raw = Ok [Arg64 v] \<longleftrightarrow> v = 0)"
proof -
  have seen: "host_args [K64] raw = Ok [Arg64 (if bit v 31 then v AND NOT (mask 32) else 0)]"
    using host_args_guest_args [OF assms] by simp
  have "\<not> bit (v AND NOT (mask 32)) 31" by (simp add: bit_simps)
  then have "v = (if bit v 31 then v AND NOT (mask 32) else 0) \<longleftrightarrow> v = 0"
    by (metis bit_0_eq bot_apply bot_bool_def)
  with seen show ?thesis by auto
qed

theorem ocall_arg64_lost_witness:
  "guest_args [Arg64 1000] = Some [0, 1000, 0, 0] \<and> host_args [K64] [0, 1000, 0, 0] = Ok [Arg64 0]"
proof -
  have g: "guest_args [Arg64 1000] = Some [0, 1000, 0, 0]" by code_simp
  with ocall_arg64_lost [OF g] show ?thesis by simp
qed

end
