(* ===== verification/Tls_Stream.thy ===== *)
theory Tls_Stream
  imports Ocall_Abi
begin

text \<open>
  The TLS stream of a guest connection (\<open>wapo-host/src/runtime/tls.rs\<close>): a handshake in progress,
  an established stream, or closed. The handshake and the encrypted stream belong to the TLS
  library: their poll results are the arguments \<open>handshake\<close> and \<open>poll\<close> of the operations, on an
  opaque handle of the object. The operations of \<open>AsyncRead\<close> and \<open>AsyncWrite\<close> return the new
  state with the result.
\<close>

type_synonym handle = nat

datatype io_error = WouldBlock | ConnClosed | OtherError

type_synonym 'a io_result = "('a, io_error) result"

datatype TlsStream =
    ServerHandshaking handle
  | ServerStreaming handle
  | ClientHandshaking handle
  | ClientStreaming handle
  | Closed

section \<open>Opening a stream\<close>

text \<open>The acceptor and the connector are given: they wrap the TCP stream in a handshake.\<close>

definition tls_accept :: "(handle \<Rightarrow> 'c \<Rightarrow> handle) \<Rightarrow> handle \<Rightarrow> 'c \<Rightarrow> TlsStream" where
  "tls_accept acceptor stream config = ServerHandshaking (acceptor stream config)"

definition tls_connect :: "('d \<Rightarrow> handle \<Rightarrow> handle) \<Rightarrow> 'd \<Rightarrow> handle \<Rightarrow> TlsStream" where
  "tls_connect connector domain stream = ClientHandshaking (connector domain stream)"

section \<open>Polling\<close>

text \<open>
  \<open>poll_handshake!\<close> and \<open>poll_read!\<close>, \<open>poll_write!\<close>: the same two macros in both directions, where
  \<open>into\<close> is the constructor \<open>From\<close> selects. A finished handshake polls the new stream at once and
  keeps it whatever that poll returned.
\<close>

definition poll_handshake ::
  "(handle \<Rightarrow> TlsStream) \<Rightarrow> (handle \<Rightarrow> handle io_result poll) \<Rightarrow> (handle \<Rightarrow> 'a io_result poll) \<Rightarrow>
   TlsStream \<Rightarrow> handle \<Rightarrow> 'a io_result poll \<times> TlsStream" where
  "poll_handshake into handshake poll me inner =
     (case handshake inner of
        Pend \<Rightarrow> (Pend, me)
      | Ready (Ok stream) \<Rightarrow> (poll stream, into stream)
      | Ready (Err err) \<Rightarrow> (Ready (Err err), Closed))"

definition poll_established ::
  "(handle \<Rightarrow> 'a io_result poll) \<Rightarrow> TlsStream \<Rightarrow> handle \<Rightarrow> 'a io_result poll \<times> TlsStream" where
  "poll_established poll me stream =
     (let rv = poll stream
      in case rv of Ready (Err _) \<Rightarrow> (rv, Closed) | _ \<Rightarrow> (rv, me))"

fun tls_poll_read ::
  "(handle \<Rightarrow> handle io_result poll) \<Rightarrow> (handle \<Rightarrow> bytes io_result poll) \<Rightarrow>
   TlsStream \<Rightarrow> bytes io_result poll \<times> TlsStream" where
  "tls_poll_read handshake poll (ClientHandshaking connect) =
     poll_handshake ClientStreaming handshake poll (ClientHandshaking connect) connect"
| "tls_poll_read handshake poll (ServerHandshaking accept) =
     poll_handshake ServerStreaming handshake poll (ServerHandshaking accept) accept"
| "tls_poll_read handshake poll (ClientStreaming stream) =
     poll_established poll (ClientStreaming stream) stream"
| "tls_poll_read handshake poll (ServerStreaming stream) =
     poll_established poll (ServerStreaming stream) stream"
| "tls_poll_read handshake poll Closed = (Ready (Err OtherError), Closed)"

fun tls_poll_write ::
  "(handle \<Rightarrow> handle io_result poll) \<Rightarrow> (handle \<Rightarrow> nat io_result poll) \<Rightarrow>
   TlsStream \<Rightarrow> nat io_result poll \<times> TlsStream" where
  "tls_poll_write handshake poll (ClientHandshaking connect) =
     poll_handshake ClientStreaming handshake poll (ClientHandshaking connect) connect"
| "tls_poll_write handshake poll (ServerHandshaking accept) =
     poll_handshake ServerStreaming handshake poll (ServerHandshaking accept) accept"
| "tls_poll_write handshake poll (ClientStreaming stream) =
     poll_established poll (ClientStreaming stream) stream"
| "tls_poll_write handshake poll (ServerStreaming stream) =
     poll_established poll (ServerStreaming stream) stream"
| "tls_poll_write handshake poll Closed = (Ready (Err OtherError), Closed)"

fun tls_poll_flush ::
  "(handle \<Rightarrow> unit io_result poll) \<Rightarrow> TlsStream \<Rightarrow> unit io_result poll \<times> TlsStream" where
  "tls_poll_flush poll (ClientHandshaking h) = (Ready (Ok ()), ClientHandshaking h)"
| "tls_poll_flush poll (ServerHandshaking h) = (Ready (Ok ()), ServerHandshaking h)"
| "tls_poll_flush poll (ClientStreaming stream) =
     poll_established poll (ClientStreaming stream) stream"
| "tls_poll_flush poll (ServerStreaming stream) =
     poll_established poll (ServerStreaming stream) stream"
| "tls_poll_flush poll Closed = (Ready (Err OtherError), Closed)"

text \<open>Shutting down closes on every \<open>Ready\<close>, a success included.\<close>

definition poll_shutdown_established ::
  "(handle \<Rightarrow> unit io_result poll) \<Rightarrow> TlsStream \<Rightarrow> handle \<Rightarrow> unit io_result poll \<times> TlsStream" where
  "poll_shutdown_established poll me stream =
     (let rv = poll stream in case rv of Ready _ \<Rightarrow> (rv, Closed) | Pend \<Rightarrow> (rv, me))"

fun tls_poll_shutdown ::
  "(handle \<Rightarrow> unit io_result poll) \<Rightarrow> TlsStream \<Rightarrow> unit io_result poll \<times> TlsStream" where
  "tls_poll_shutdown poll (ClientHandshaking _) = (Ready (Ok ()), Closed)"
| "tls_poll_shutdown poll (ServerHandshaking _) = (Ready (Ok ()), Closed)"
| "tls_poll_shutdown poll (ClientStreaming stream) =
     poll_shutdown_established poll (ClientStreaming stream) stream"
| "tls_poll_shutdown poll (ServerStreaming stream) =
     poll_shutdown_established poll (ServerStreaming stream) stream"
| "tls_poll_shutdown poll Closed = (Ready (Err OtherError), Closed)"

section \<open>Loading a server configuration\<close>

text \<open>
  The PEM reader and the TLS configuration builder are given. \<open>load_private_key\<close> looks at the
  first item of the file only.
\<close>

datatype pem_item = Pkcs1Key bytes | Pkcs8Key bytes | Sec1Key bytes | OtherItem

datatype private_key = Pkcs1 bytes | Pkcs8 bytes | Sec1 bytes

datatype TlsServerConfig = ServerConfigV0 string string

fun collect_results :: "('a, 'e) result list \<Rightarrow> ('a list, 'e) result" where
  "collect_results [] = Ok []"
| "collect_results (r # rs) = and_then r (\<lambda>x. map_ok ((#) x) (collect_results rs))"

definition load_certs ::
  "(string \<Rightarrow> (bytes, io_error) result list) \<Rightarrow> string \<Rightarrow> (bytes list, OcallError) result" where
  "load_certs pem_certs pem_str = or_err (collect_results (pem_certs pem_str)) InvalidParameter"

definition load_private_key ::
  "(string \<Rightarrow> (pem_item, io_error) result list) \<Rightarrow> string \<Rightarrow> (private_key, OcallError) result" where
  "load_private_key pem_items pem_str =
     and_then (ok_or (case pem_items pem_str of [] \<Rightarrow> None | x # _ \<Rightarrow> Some x) InvalidParameter) (\<lambda>item.
     and_then (or_err item InvalidParameter) (\<lambda>key.
       case key of
         Pkcs1Key k \<Rightarrow> Ok (Pkcs1 k)
       | Pkcs8Key k \<Rightarrow> Ok (Pkcs8 k)
       | Sec1Key k \<Rightarrow> Ok (Sec1 k)
       | OtherItem \<Rightarrow> Err InvalidParameter))"

fun load_tls_config ::
  "(string \<Rightarrow> (bytes, io_error) result list) \<Rightarrow> (string \<Rightarrow> (pem_item, io_error) result list) \<Rightarrow>
   (bytes list \<Rightarrow> private_key \<Rightarrow> ('c, 'e) result) \<Rightarrow> TlsServerConfig \<Rightarrow> ('c, OcallError) result" where
  "load_tls_config pem_certs pem_items with_single_cert (ServerConfigV0 cert_pem key_pem) =
     and_then (load_certs pem_certs cert_pem) (\<lambda>certs.
     and_then (load_private_key pem_items key_pem) (\<lambda>key.
       or_err (with_single_cert certs key) InvalidParameter))"

section \<open>Runs of a stream\<close>

inductive tls_step :: "TlsStream \<Rightarrow> TlsStream \<Rightarrow> bool" where
  on_read: "tls_step s (snd (tls_poll_read hs rd s))"
| on_write: "tls_step s (snd (tls_poll_write hs wr s))"
| on_flush: "tls_step s (snd (tls_poll_flush fl s))"
| on_shutdown: "tls_step s (snd (tls_poll_shutdown sd s))"

fun tls_phase :: "TlsStream \<Rightarrow> nat" where
  "tls_phase (ServerHandshaking _) = 0"
| "tls_phase (ClientHandshaking _) = 0"
| "tls_phase (ServerStreaming _) = 1"
| "tls_phase (ClientStreaming _) = 1"
| "tls_phase Closed = 2"

fun tls_is_client :: "TlsStream \<Rightarrow> bool" where
  "tls_is_client (ClientHandshaking _) = True"
| "tls_is_client (ClientStreaming _) = True"
| "tls_is_client _ = False"

section \<open>Lemmas\<close>

lemmas tls_macro_defs = poll_handshake_def poll_established_def poll_shutdown_established_def Let_def

lemma tls_phase_closed: "2 \<le> tls_phase s \<longleftrightarrow> s = Closed"
  by (cases s) auto

lemma tls_step_forward:
  "tls_step s s' \<Longrightarrow>
   tls_phase s \<le> tls_phase s' \<and> (s' = Closed \<or> s \<noteq> Closed \<and> tls_is_client s' = tls_is_client s)"
  by (induction rule: tls_step.induct; case_tac s)
    (auto simp: tls_macro_defs split: poll.splits result.splits)

lemma load_tls_config_error:
  "load_tls_config pc pi ws c = Err e \<Longrightarrow> e = InvalidParameter"
  by (cases c)
    (auto simp: load_certs_def load_private_key_def and_then_def or_err_def ok_or_def
      split: result.splits option.splits pem_item.splits list.splits)

text \<open>
  A stream that was closed stays closed and refuses every operation; reading, writing or
  flushing an established stream closes it exactly when the library reports an error, and
  shutting it down closes it as soon as the library answers.
\<close>

lemma tls_closed_exactly_on_error:
  "tls_poll_read hs rd Closed = (Ready (Err OtherError), Closed) \<and>
   tls_poll_write hs wr Closed = (Ready (Err OtherError), Closed) \<and>
   tls_poll_flush fl Closed = (Ready (Err OtherError), Closed) \<and>
   tls_poll_shutdown sd Closed = (Ready (Err OtherError), Closed) \<and>
   (s = ClientStreaming h \<or> s = ServerStreaming h \<longrightarrow>
      (snd (tls_poll_read hs rd s) = (if \<exists>e. rd h = Ready (Err e) then Closed else s)) \<and>
      (snd (tls_poll_write hs wr s) = (if \<exists>e. wr h = Ready (Err e) then Closed else s)) \<and>
      (snd (tls_poll_flush fl s) = (if \<exists>e. fl h = Ready (Err e) then Closed else s)) \<and>
      (snd (tls_poll_shutdown sd s) = (if \<exists>r. sd h = Ready r then Closed else s)))"
  by (auto simp: tls_macro_defs split: poll.splits result.splits)

text \<open>
  Over every sequence of reads, writes, flushes and shutdowns, whatever the TLS library
  answers, a stream only moves forward from handshaking to streaming to closed: a
  handshake is never repeated, a closed stream never reopens, and as long as it is not closed it
  stays on the side, client or server, it was created on.
\<close>

lemma tls_stream_moves_forward:
  "tls_step\<^sup>*\<^sup>* s s' \<Longrightarrow> tls_phase s \<le> tls_phase s' \<and> (s' = Closed \<or> tls_is_client s' = tls_is_client s)"
proof (induction rule: rtranclp_induct)
  case (step t u)
  from tls_step_forward [OF step.hyps(2)] step.IH show ?case
    by (cases "t = Closed") (auto simp: tls_phase_closed)
qed simp

end
