(* ===== verification/Resource_Table.thy ===== *)
theory Resource_Table
  imports Rust_Collections Meter_Metrics Tls_Stream
begin

text \<open>
  The resources a guest holds by number (\<open>wapo-host/src/runtime/resource.rs\<close>): the kinds of
  resource, the poll operations that dispatch on the kind, and the table that hands out ids. The
  objects behind a resource (timers, channels, sockets) belong to the async runtime; a resource
  carries an opaque handle, and what the object answers during a call is read from the record
  \<open>IoEnv\<close>, a parameter of every operation. The locale \<open>slot_alloc\<close> is the contract of a table
  that reuses free slots; the resource table is one instance, the task table and the waker table
  of the guest are the others.
\<close>

section \<open>What the runtime's objects answer\<close>

record IoEnv =
  sleep_poll :: "handle \<Rightarrow> unit poll"
  chan_recv :: "handle \<Rightarrow> bytes option poll"
  tcp_connecting :: "handle \<Rightarrow> handle io_result poll"
  tls_connecting :: "handle \<Rightarrow> TlsStream io_result poll"
  tcp_try_read :: "handle \<Rightarrow> nat \<Rightarrow> nat \<Rightarrow> bytes io_result"
  tcp_read_ready :: "handle \<Rightarrow> nat \<Rightarrow> unit io_result poll"
  tcp_try_write :: "handle \<Rightarrow> bytes \<Rightarrow> nat \<Rightarrow> nat io_result"
  tcp_write_ready :: "handle \<Rightarrow> nat \<Rightarrow> unit io_result poll"
  tls_handshake :: "handle \<Rightarrow> handle io_result poll"
  stream_read :: "handle \<Rightarrow> nat \<Rightarrow> bytes io_result poll"
  stream_write :: "handle \<Rightarrow> bytes \<Rightarrow> nat io_result poll"
  stream_shutdown :: "handle \<Rightarrow> unit io_result poll"

text \<open>
  The last argument of \<open>tcp_try_read\<close> and of the three operations like it counts the attempts
  of one call. The documented contract of reading and writing: never more bytes than the buffer
  has room for, or than were offered.
\<close>

definition io_contract :: "IoEnv \<Rightarrow> bool" where
  "io_contract io \<longleftrightarrow>
     (\<forall>h n i d. tcp_try_read io h n i = Ok d \<longrightarrow> length d \<le> n) \<and>
     (\<forall>h n d. stream_read io h n = Ready (Ok d) \<longrightarrow> length d \<le> n) \<and>
     (\<forall>h b i n. tcp_try_write io h b i = Ok n \<longrightarrow> n \<le> length b) \<and>
     (\<forall>h b n. stream_write io h b = Ready (Ok n) \<longrightarrow> n \<le> length b)"

section \<open>Resources\<close>

datatype Resource =
    Sleep handle
  | ChannelRx handle
  | OneshotTx "handle option"
  | TcpListener handle "handle option"
  | TcpStream handle
  | TlsStream TlsStream
  | TcpConnect handle
  | TlsConnect handle
  | DuplexStream handle
  | SniSubscription handle

fun resource_poll :: "IoEnv \<Rightarrow> Resource \<Rightarrow> (bytes, OcallError) result" where
  "resource_poll io (ChannelRx rx) =
     (case chan_recv io rx of
        Ready (Some data) \<Rightarrow> Ok data
      | Ready None \<Rightarrow> Err EndOfFile
      | Pend \<Rightarrow> Err Pending)"
| "resource_poll io _ = Err UnsupportedOperation"

fun resource_poll_res ::
  "IoEnv \<Rightarrow> Resource \<Rightarrow> Meter \<Rightarrow> (Resource, OcallError) result \<times> Meter" where
  "resource_poll_res io (TcpConnect fut) m =
     (case tcp_connecting io fut of
        Pend \<Rightarrow> (Err Pending, m)
      | Ready (Ok stream) \<Rightarrow> (Ok (TcpStream stream), record_tcp_connect_done m)
      | Ready (Err _) \<Rightarrow> (Err IoError, m))"
| "resource_poll_res io (TlsConnect fut) m =
     (case tls_connecting io fut of
        Pend \<Rightarrow> (Err Pending, m)
      | Ready (Ok stream) \<Rightarrow> (Ok (TlsStream stream), record_tls_connect_done m)
      | Ready (Err _) \<Rightarrow> (Err IoError, m))"
| "resource_poll_res io _ m = (Err UnsupportedOperation, m)"

subsection \<open>Reading\<close>

text \<open>
  A read returns the number of bytes and fills the caller's buffer; here the filled part
  is returned beside the number.
\<close>

definition stream_poll_read ::
  "bytes io_result poll \<Rightarrow> Meter \<Rightarrow> (u32 \<times> bytes, OcallError) result \<times> Meter" where
  "stream_poll_read answer m =
     (case answer of
        Pend \<Rightarrow> (Err Pending, m)
      | Ready (Err _) \<Rightarrow> (Err IoError, m)
      | Ready (Ok data) \<Rightarrow>
          (let read_sz = length data
           in (Ok (of_nat read_sz, data), record_net_ingress (of_nat read_sz) m)))"

text \<open>
  A TCP stream is tried first and waited for only if it would block; a wake-up that
  turns out to be spurious starts over. The loop returns \<open>None\<close> if that never ends.
\<close>

partial_function (option) tcp_poll_read ::
  "(nat \<Rightarrow> bytes io_result) \<Rightarrow> (nat \<Rightarrow> unit io_result poll) \<Rightarrow> nat \<Rightarrow> Meter \<Rightarrow>
   ((u32 \<times> bytes, OcallError) result \<times> Meter) option" where
  "tcp_poll_read try_read ready i m =
     (case try_read i of
        Ok data \<Rightarrow>
          (let sz = length data
           in Some (Ok (of_nat sz, data), record_net_ingress (of_nat sz) m))
      | Err err \<Rightarrow>
          (if err = WouldBlock
           then (case ready i of
                   Pend \<Rightarrow> Some (Err Pending, m)
                 | Ready (Err _) \<Rightarrow> Some (Err IoError, m)
                 | Ready (Ok _) \<Rightarrow> tcp_poll_read try_read ready (i + 1) m)
           else Some (Err IoError, m)))"

declare tcp_poll_read.simps [code]

fun resource_poll_read ::
  "IoEnv \<Rightarrow> nat \<Rightarrow> Resource \<Rightarrow> Meter \<Rightarrow>
   ((u32 \<times> bytes, OcallError) result \<times> Resource \<times> Meter) option" where
  "resource_poll_read io buf_len (Sleep h) m =
     Some (case sleep_poll io h of
             Ready _ \<Rightarrow> (Ok (0, []), Sleep h, m)
           | Pend \<Rightarrow> (Err Pending, Sleep h, m))"
| "resource_poll_read io buf_len (TcpStream h) m =
     map_option (\<lambda>(r, m'). (r, TcpStream h, m'))
       (tcp_poll_read (tcp_try_read io h buf_len) (tcp_read_ready io h) 0 m)"
| "resource_poll_read io buf_len (TlsStream s) m =
     (let (answer, s') = tls_poll_read (tls_handshake io) (\<lambda>h. stream_read io h buf_len) s;
          (r, m') = stream_poll_read answer m
      in Some (r, TlsStream s', m'))"
| "resource_poll_read io buf_len (DuplexStream h) m =
     (let (r, m') = stream_poll_read (stream_read io h buf_len) m
      in Some (r, DuplexStream h, m'))"
| "resource_poll_read io buf_len res m = Some (Err UnsupportedOperation, res, m)"

subsection \<open>Writing\<close>

definition stream_poll_write ::
  "nat io_result poll \<Rightarrow> Meter \<Rightarrow> (u32, OcallError) result \<times> Meter" where
  "stream_poll_write answer m =
     (case answer of
        Pend \<Rightarrow> (Err Pending, m)
      | Ready (Err _) \<Rightarrow> (Err IoError, m)
      | Ready (Ok sz) \<Rightarrow> (Ok (of_nat sz), record_net_egress (of_nat sz) m))"

partial_function (option) tcp_poll_write ::
  "(nat \<Rightarrow> nat io_result) \<Rightarrow> (nat \<Rightarrow> unit io_result poll) \<Rightarrow> nat \<Rightarrow> Meter \<Rightarrow>
   ((u32, OcallError) result \<times> Meter) option" where
  "tcp_poll_write try_write ready i m =
     (case try_write i of
        Ok sz \<Rightarrow> Some (Ok (of_nat sz), record_net_egress (of_nat sz) m)
      | Err err \<Rightarrow>
          (if err = WouldBlock
           then (case ready i of
                   Pend \<Rightarrow> Some (Err Pending, m)
                 | Ready (Err _) \<Rightarrow> Some (Err IoError, m)
                 | Ready (Ok _) \<Rightarrow> tcp_poll_write try_write ready (i + 1) m)
           else Some (Err IoError, m)))"

declare tcp_poll_write.simps [code]

fun resource_poll_write ::
  "IoEnv \<Rightarrow> bytes \<Rightarrow> Resource \<Rightarrow> Meter \<Rightarrow>
   ((u32, OcallError) result \<times> Resource \<times> Meter) option" where
  "resource_poll_write io buf (TcpStream h) m =
     map_option (\<lambda>(r, m'). (r, TcpStream h, m'))
       (tcp_poll_write (tcp_try_write io h buf) (tcp_write_ready io h) 0 m)"
| "resource_poll_write io buf (TlsStream s) m =
     (let (answer, s') = tls_poll_write (tls_handshake io) (\<lambda>h. stream_write io h buf) s;
          (r, m') = stream_poll_write answer m
      in Some (r, TlsStream s', m'))"
| "resource_poll_write io buf (DuplexStream h) m =
     (let (r, m') = stream_poll_write (stream_write io h buf) m
      in Some (r, DuplexStream h, m'))"
| "resource_poll_write io buf res m = Some (Err UnsupportedOperation, res, m)"

subsection \<open>Shutting down\<close>

definition stream_poll_shutdown ::
  "unit io_result poll \<Rightarrow> Meter \<Rightarrow> (unit, OcallError) result \<times> Meter" where
  "stream_poll_shutdown answer m =
     (case answer of
        Pend \<Rightarrow> (Err Pending, m)
      | Ready (Err _) \<Rightarrow> (Err IoError, m)
      | Ready (Ok _) \<Rightarrow> (Ok (), record_tcp_shutdown m))"

fun resource_poll_shutdown ::
  "IoEnv \<Rightarrow> Resource \<Rightarrow> Meter \<Rightarrow> (unit, OcallError) result \<times> Resource \<times> Meter" where
  "resource_poll_shutdown io (TcpStream h) m =
     (let (r, m') = stream_poll_shutdown (stream_shutdown io h) m in (r, TcpStream h, m'))"
| "resource_poll_shutdown io (TlsStream s) m =
     (let (answer, s') = tls_poll_shutdown (stream_shutdown io) s;
          (r, m') = stream_poll_shutdown answer m
      in (r, TlsStream s', m'))"
| "resource_poll_shutdown io (DuplexStream h) m =
     (let (r, m') = stream_poll_shutdown (stream_shutdown io h) m in (r, DuplexStream h, m'))"
| "resource_poll_shutdown io res m = (Err UnsupportedOperation, res, m)"

section \<open>The table\<close>

text \<open>
  \<open>ResourceTable\<close> wraps a vector of optional resources. The two casts from an id to an index
  differ: \<open>as usize\<close> extends the sign, \<open>as u32 as usize\<close> does not. A mutable reference to an
  entry is \<open>table_get\<close> for reading through it and \<open>table_set\<close> for writing through it.
\<close>

type_synonym ResourceTable = "Resource option list"

definition RESOURCE_ID_MAX :: nat where
  "RESOURCE_ID_MAX = 8192"

definition i32_as_usize :: "i32 \<Rightarrow> nat" where
  "i32_as_usize rid = unat (word_of_int (sint rid) :: 64 word)"

definition i32_as_u32_as_usize :: "i32 \<Rightarrow> nat" where
  "i32_as_u32_as_usize rid = unat rid"

definition usize_try_into_i32 :: "nat \<Rightarrow> i32 option" where
  "usize_try_into_i32 i = (if i \<le> 2 ^ 31 - 1 then Some (of_nat i) else None)"

definition table_get :: "i32 \<Rightarrow> ResourceTable \<Rightarrow> (Resource, OcallError) result" where
  "table_get rid t = ok_or (slot_get t (i32_as_usize rid)) NotFound"

definition table_set :: "i32 \<Rightarrow> Resource \<Rightarrow> ResourceTable \<Rightarrow> ResourceTable" where
  "table_set rid r t = t[i32_as_usize rid := Some r]"

definition table_push :: "Resource \<Rightarrow> ResourceTable \<Rightarrow> (i32, OcallError) result \<times> ResourceTable" where
  "table_push r t =
     (case first_none t of
        Some i \<Rightarrow>
          (case usize_try_into_i32 i of
             None \<Rightarrow> (Err ResourceLimited, t)
           | Some rid \<Rightarrow> (Ok rid, t[i := Some r]))
      | None \<Rightarrow>
          (if length t \<ge> min RESOURCE_ID_MAX (2 ^ 31 - 1) then (Err ResourceLimited, t)
           else (case usize_try_into_i32 (length t) of
                   None \<Rightarrow> (Err ResourceLimited, t)
                 | Some rid \<Rightarrow> (Ok rid, t @ [Some r]))))"

definition table_take :: "i32 \<Rightarrow> ResourceTable \<Rightarrow> Resource option \<times> ResourceTable" where
  "table_take rid t =
     (let i = i32_as_u32_as_usize rid
      in if i \<ge> length t then (None, t) else (t ! i, t[i := None]))"

section \<open>Lemmas\<close>

definition table_ok :: "ResourceTable \<Rightarrow> bool" where
  "table_ok t \<longleftrightarrow> length t \<le> RESOURCE_ID_MAX"

lemma i32_as_usize_of_nat: "i < 2 ^ 31 \<Longrightarrow> i32_as_usize (of_nat i) = i"
  by (simp add: i32_as_usize_def signed_of_nat signed_take_bit_int_eq_self
      unsigned_of_nat take_bit_nat_eq_self)

lemma i32_as_usize_cases:
  "i32_as_usize rid = nat (if sint rid < 0 then sint rid + 2 ^ 64 else sint rid)"
proof -
  have "i32_as_usize rid = nat (sint rid mod 2 ^ 64)"
    by (simp only: i32_as_usize_def unsigned_of_int take_bit_eq_mod) simp
  with sint_i32_bounds [of rid] show ?thesis by (simp add: mod_wrap)
qed

lemma casts_agree: "table_ok t \<Longrightarrow> slot_get t (i32_as_usize rid) = slot_get t (unat rid)"
  using sint_i32_bounds [of rid] uint_i32_cases [of rid]
  by (auto simp: i32_as_usize_cases unat_eq_nat_uint slot_get_def table_ok_def RESOURCE_ID_MAX_def)

lemma table_get_unat: "table_ok t \<Longrightarrow> table_get rid t = ok_or (slot_get t (unat rid)) NotFound"
  by (simp add: table_get_def casts_agree)

lemma slot_get_le: "table_ok t \<Longrightarrow> slot_get t i \<noteq> None \<Longrightarrow> i < RESOURCE_ID_MAX"
  by (auto simp: slot_get_def table_ok_def split: if_splits)

definition table_alloc :: "Resource \<Rightarrow> ResourceTable \<Rightarrow> (nat \<times> ResourceTable) option" where
  "table_alloc r t =
     (case table_push r t of (Ok rid, t') \<Rightarrow> Some (unat rid, t') | (Err _, _) \<Rightarrow> None)"

lemma usize_try_into_small:
  "i \<le> RESOURCE_ID_MAX \<Longrightarrow> usize_try_into_i32 i = Some (of_nat i) \<and> unat (of_nat i :: i32) = i"
  by (simp add: usize_try_into_i32_def RESOURCE_ID_MAX_def unsigned_of_nat take_bit_nat_eq_self)

lemma table_push_cases:
  assumes "table_ok t"
  shows "table_push r t =
    (if None \<in> set t then (let i = the (first_none t) in (Ok (of_nat i), t[i := Some r]))
     else if length t < RESOURCE_ID_MAX then (Ok (of_nat (length t)), t @ [Some r])
     else (Err ResourceLimited, t))"
proof (cases "first_none t")
  case None
  with assms usize_try_into_small [of "length t"] first_none_None [of t] show ?thesis
    by (auto simp: table_push_def table_ok_def RESOURCE_ID_MAX_def)
next
  case (Some i)
  with assms first_none_SomeD [OF Some] usize_try_into_small [of i] first_none_None [of t]
  show ?thesis by (auto simp: table_push_def table_ok_def)
qed

lemma table_alloc_cases:
  assumes "table_ok t" "table_alloc r t = Some (i, t')"
  shows "i < RESOURCE_ID_MAX \<and>
    (first_none t = Some i \<and> t' = t[i := Some r] \<or>
     None \<notin> set t \<and> i = length t \<and> t' = t @ [Some r])"
proof (cases "first_none t")
  case None
  with assms usize_try_into_small [of "length t"] first_none_None [of t] show ?thesis
    by (auto simp: table_alloc_def table_push_cases table_ok_def split: if_splits)
next
  case (Some j)
  with assms first_none_SomeD [OF Some] usize_try_into_small [of j] first_none_None [of t]
  show ?thesis by (auto simp: table_alloc_def table_push_cases table_ok_def Let_def)
qed

interpretation table: slot_alloc table_alloc "\<lambda>t. t" table_ok
proof
  fix t r i t' j
  assume t: "table_ok t" and a: "table_alloc r t = Some (i, t')"
  note c = table_alloc_cases [OF t a]
  have f: "first_none t = Some i \<Longrightarrow> i < length t \<and> t ! i = None"
    using first_none_SomeD [of t i] by blast
  show "slot_get t i = None" using c f by (auto simp: slot_get_def)
  show "slot_get t' j = (if j = i then Some r else slot_get t j)"
    using c f by (auto simp: slot_get_update slot_get_append)
  show "table_ok t'" using c t by (auto simp: table_ok_def)
qed

lemma table_push_Ok:
  assumes "table_ok t" "table_push r t = (Ok rid, t')"
  shows "table_ok t' \<and> unat rid < RESOURCE_ID_MAX \<and> table_get rid t = Err NotFound \<and>
    (\<forall>j. table_get j t' = (if j = rid then Ok r else table_get j t))"
proof -
  from assms(2) have a: "table_alloc r t = Some (unat rid, t')" by (simp add: table_alloc_def)
  from table.alloc_ok [OF assms(1) a] table.alloc_fresh [OF assms(1) a]
    table.alloc_get [OF assms(1) a] table_alloc_cases [OF assms(1) a] assms(1)
  show ?thesis by (simp add: table_get_unat word_unat_eq_iff)
qed

lemma table_push_Err:
  "table_ok t \<Longrightarrow> table_push r t = (Err e, t') \<Longrightarrow>
   e = ResourceLimited \<and> t' = t \<and> None \<notin> set t \<and> length t = RESOURCE_ID_MAX"
  by (auto simp: table_push_cases table_ok_def Let_def split: if_splits)

lemma table_take_lookup:
  assumes "table_ok t" "table_take rid t = (res, t')"
  shows "table_ok t' \<and> ok_or res NotFound = table_get rid t \<and>
    (\<forall>j. table_get j t' = (if j = rid then Err NotFound else table_get j t))"
proof -
  from assms(2) have "res = slot_get t (unat rid)" "t' = slot_free (unat rid) t"
    by (auto simp: table_take_def i32_as_u32_as_usize_def slot_get_def slot_free_def Let_def
        split: if_splits)
  moreover from this(2) assms(1) have "table_ok t'" by (simp add: table_ok_def slot_free_def)
  ultimately show ?thesis
    using assms(1) by (simp add: table_get_unat slot_get_free word_unat_eq_iff)
qed

lemma table_set_lookup:
  assumes "table_ok t" "table_get rid t = Ok r0"
  shows "table_ok (table_set rid r t) \<and>
    (\<forall>j. table_get j (table_set rid r t) = (if j = rid then Ok r else table_get j t))"
proof -
  from assms(2) have i: "i32_as_usize rid < length t"
    by (auto simp: table_get_def ok_or_def slot_get_def split: option.splits if_splits)
  with assms(1) have small: "i32_as_usize rid < 8192" by (simp add: table_ok_def RESOURCE_ID_MAX_def)
  then have u: "i32_as_usize rid = unat rid"
    using sint_i32_bounds [of rid] uint_i32_cases [of rid]
    by (auto simp: i32_as_usize_cases unat_eq_nat_uint split: if_splits)
  have "table_ok (table_set rid r t)" using assms(1) by (simp add: table_ok_def table_set_def)
  then show ?thesis
    using assms(1) i by (simp add: table_get_unat u table_set_def slot_get_update word_unat_eq_iff)
qed

section \<open>Properties of the table\<close>

text \<open>
  C9: the table is a finite map from ids to resources. Pushing returns an id that was not in
  use, between 0 and 8191, under which the resource is found afterwards while every other id
  keeps what it had; it fails, changing nothing, exactly when 8192 resources are live.
\<close>

theorem table_push_spec:
  assumes "table_ok t"
  shows "case table_push r t of
      (Ok rid, t') \<Rightarrow>
        table_ok t' \<and> unat rid < 8192 \<and> table_get rid t = Err NotFound \<and>
        table_get rid t' = Ok r \<and>
        (\<forall>j. j \<noteq> rid \<longrightarrow> table_get j t' = table_get j t) \<and> card (slots_live t) < 8192
    | (Err e, t') \<Rightarrow> e = ResourceLimited \<and> t' = t \<and> card (slots_live t) = 8192"
proof (cases "table_push r t")
  case (Pair res t')
  have bound: "slots_live t \<subseteq> {..<8192}"
    using assms slot_get_le by (auto simp: slots_live_def RESOURCE_ID_MAX_def)
  show ?thesis
  proof (cases res)
    case (Ok rid)
    note p = table_push_Ok [OF assms Pair [unfolded Ok]]
    with assms have "unat rid \<notin> slots_live t" "unat rid < 8192"
      by (auto simp: slots_live_def table_get_unat ok_or_def RESOURCE_ID_MAX_def split: option.splits)
    with bound have "slots_live t \<subset> {..<8192}" by blast
    then have "card (slots_live t) < 8192" using psubset_card_mono [of "{..<8192::nat}"] by simp
    then show ?thesis using Pair Ok p by (simp add: RESOURCE_ID_MAX_def)
  next
    case (Err e)
    note p = table_push_Err [OF assms Pair [unfolded Err]]
    then have "card (slots_live t) = 8192"
      by (simp only: slots_live_full card_lessThan RESOURCE_ID_MAX_def)
    then show ?thesis using Pair Err p by simp
  qed
qed

theorem table_push_spec_witness:
  "table_push (Sleep 4) [Some (Sleep 1), None] = (Ok 1, [Some (Sleep 1), Some (Sleep 4)]) \<and>
   table_get 1 [Some (Sleep 1), Some (Sleep 4)] = Ok (Sleep 4)"
proof -
  have p: "table_push (Sleep 4) [Some (Sleep 1), None] = (Ok 1, [Some (Sleep 1), Some (Sleep 4)])"
    by (simp add: table_push_def usize_try_into_i32_def)
  have "table_ok [Some (Sleep 1), None]" by (simp add: table_ok_def RESOURCE_ID_MAX_def)
  from table_push_spec [OF this, of "Sleep 4", unfolded p prod.case result.case] p show ?thesis
    by blast
qed

text \<open>
  C10: closing is exact. Although \<open>take\<close> and \<open>get_mut\<close> cast an id to an index differently, they
  agree on every id, negative ones included: \<open>take\<close> returns the resource \<open>get_mut\<close> would find
  and leaves the id, and no other, unused.
\<close>

theorem table_take_spec:
  assumes "table_ok t" "table_take rid t = (res, t')"
  shows "table_ok t' \<and> ok_or res NotFound = table_get rid t \<and>
    table_get rid t' = Err NotFound \<and> (\<forall>j. j \<noteq> rid \<longrightarrow> table_get j t' = table_get j t)"
  using table_take_lookup [OF assms] by simp

theorem table_take_spec_witness:
  "table_take 1 [Some (Sleep 1), Some (Sleep 2)] = (Some (Sleep 2), [Some (Sleep 1), None]) \<and>
   table_get 1 [Some (Sleep 1), None] = Err NotFound"
proof -
  have p: "table_take 1 [Some (Sleep 1), Some (Sleep 2)] =
      (Some (Sleep 2), [Some (Sleep 1), None])"
    by (simp add: table_take_def i32_as_u32_as_usize_def)
  have "table_ok [Some (Sleep 1), Some (Sleep 2)]" by (simp add: table_ok_def RESOURCE_ID_MAX_def)
  from table_take_spec [OF this p] p show ?thesis by blast
qed

section \<open>Properties of the poll operations\<close>

definition spurious :: "(nat \<Rightarrow> 'a io_result) \<Rightarrow> (nat \<Rightarrow> unit io_result poll) \<Rightarrow> nat \<Rightarrow> bool" where
  "spurious attempt ready i \<longleftrightarrow> attempt i = Err WouldBlock \<and> ready i = Ready (Ok ())"

text \<open>The outcome of the first attempt that was not spurious.\<close>

definition read_outcome ::
  "bytes io_result \<Rightarrow> unit io_result poll \<Rightarrow> Meter \<Rightarrow> (u32 \<times> bytes, OcallError) result \<times> Meter" where
  "read_outcome answer ready m =
     (case answer of
        Ok data \<Rightarrow> (Ok (of_nat (length data), data), record_net_ingress (of_nat (length data)) m)
      | Err err \<Rightarrow> (Err (if err = WouldBlock \<and> ready = Pend then Pending else IoError), m))"

lemma tcp_poll_read_outcome:
  assumes "\<not> spurious attempt ready (i + k)" "\<forall>j < k. spurious attempt ready (i + j)"
  shows "tcp_poll_read attempt ready i m = Some (read_outcome (attempt (i + k)) (ready (i + k)) m)"
  using assms
proof (induction k arbitrary: i)
  case 0
  then show ?case
    by (subst tcp_poll_read.simps)
      (auto simp: read_outcome_def spurious_def Let_def split: result.splits poll.splits)
next
  case (Suc k)
  from Suc.prems(2) have "spurious attempt ready i" using zero_less_Suc [of k] by fastforce
  then have "tcp_poll_read attempt ready i m = tcp_poll_read attempt ready (i + 1) m"
    by (subst tcp_poll_read.simps) (simp add: spurious_def)
  moreover have "\<forall>j < k. spurious attempt ready (i + 1 + j)"
    using Suc.prems(2) by (metis Suc_less_eq add.assoc plus_1_eq_Suc)
  ultimately show ?case using Suc.IH [of "i + 1"] Suc.prems(1) by simp
qed

lemma tcp_poll_write_spin:
  "spurious attempt ready i \<Longrightarrow> tcp_poll_write attempt ready i m = tcp_poll_write attempt ready (i + 1) m"
  by (subst tcp_poll_write.simps) (simp add: spurious_def)

lemma tcp_poll_write_returns:
  "\<not> spurious attempt ready (i + k) \<Longrightarrow> tcp_poll_write attempt ready i m \<noteq> None"
proof (induction k arbitrary: i)
  case 0
  then show ?case
    by (subst tcp_poll_write.simps) (auto simp: spurious_def split: result.splits poll.splits)
next
  case (Suc k)
  show ?case
  proof (cases "spurious attempt ready i")
    case True
    with Suc.IH [of "i + 1"] Suc.prems show ?thesis by (simp add: tcp_poll_write_spin)
  next
    case False
    then show ?thesis
      by (subst tcp_poll_write.simps) (auto simp: spurious_def split: result.splits poll.splits)
  qed
qed

lemma tcp_poll_read_SomeD:
  "tcp_poll_read attempt ready i m = Some y \<Longrightarrow> \<exists>k. y = read_outcome (attempt k) (ready k) m"
proof (erule tcp_poll_read.raw_induct
    [where P = "\<lambda>attempt ready i m y. \<exists>k. y = read_outcome (attempt k) (ready k) m", rotated])
  fix f :: "(nat \<Rightarrow> bytes io_result) \<Rightarrow> (nat \<Rightarrow> unit io_result poll) \<Rightarrow> nat \<Rightarrow> Meter \<Rightarrow>
      ((u32 \<times> bytes, OcallError) result \<times> Meter) option"
    and attempt ready i m y
  assume ih: "f attempt ready i m = Some y \<Longrightarrow> \<exists>k. y = read_outcome (attempt k) (ready k) m"
    for attempt ready i m y
  assume "(case attempt i of
      Ok data \<Rightarrow> (let sz = length data
        in Some (Ok (of_nat sz, data), record_net_ingress (of_nat sz) m))
    | Err err \<Rightarrow> (if err = WouldBlock
        then (case ready i of
            Pend \<Rightarrow> Some (Err Pending, m)
          | Ready (Ok _) \<Rightarrow> f attempt ready (i + 1) m
          | Ready (Err _) \<Rightarrow> Some (Err IoError, m))
        else Some (Err IoError, m))) = Some y" (is "?body = _")
  moreover have "?body = f attempt ready (i + 1) m" if "spurious attempt ready i"
    using that by (simp add: spurious_def)
  moreover have "?body = Some (read_outcome (attempt i) (ready i) m)" if "\<not> spurious attempt ready i"
    using that by (auto simp: spurious_def read_outcome_def Let_def split: result.splits poll.splits)
  ultimately show "\<exists>k. y = read_outcome (attempt k) (ready k) m"
    using ih by (metis option.inject)
qed

text \<open>
  A read from a TCP stream returns as soon as one attempt is not a spurious wake-up, with
  the outcome of the first such attempt: the loop does not spin on anything else.
\<close>

lemma tcp_poll_read_first_real_attempt:
  assumes "\<not> spurious attempt ready k" "\<forall>j < k. spurious attempt ready j"
  shows "tcp_poll_read attempt ready 0 m = Some (read_outcome (attempt k) (ready k) m)"
  using tcp_poll_read_outcome [of attempt ready 0 k m] assms by simp

text \<open>
  C18: what a read reports is what was read and what is charged: the count returned to the guest
  is the number of bytes placed in its buffer, never more than the buffer holds, and
  exactly that many bytes are added to the ingress counter; a read that fails or is pending
  charges nothing.
\<close>

theorem poll_read_accounting:
  assumes io: "io_contract io" and len: "buf_len < 2 ^ 32"
    and res: "resource_poll_read io buf_len res m = Some (r, res', m')"
  shows "case r of
      Ok (n, data) \<Rightarrow>
        unat n = length data \<and> length data \<le> buf_len \<and>
        m' = m\<lparr>net_ingress := net_ingress m + of_nat (length data)\<rparr>
    | Err _ \<Rightarrow> m' = m"
proof -
  have fits: "unat (of_nat (length d) :: u32) = length d" if "length d \<le> buf_len" for d :: bytes
    using that len by (simp add: unsigned_of_nat take_bit_nat_eq_self)
  show ?thesis
  proof (cases res)
    case (TcpStream h)
    with res obtain k where "(r, m') = read_outcome (tcp_try_read io h buf_len k) (tcp_read_ready io h k) m"
      by (auto dest: tcp_poll_read_SomeD)
    with io fits show ?thesis
      by (auto simp: read_outcome_def record_net_ingress_def io_contract_def split: result.splits)
  next
    case (TlsStream s)
    with res io fits show ?thesis
      by (cases s)
        (auto simp: stream_poll_read_def tls_macro_defs record_net_ingress_def io_contract_def
          split: poll.splits result.splits prod.splits)
  next
    case (DuplexStream h)
    with res io fits show ?thesis
      by (auto simp: stream_poll_read_def record_net_ingress_def io_contract_def Let_def
          split: poll.splits result.splits)
  qed (use res in \<open>auto split: poll.splits\<close>)
qed

definition io_idle :: IoEnv where
  "io_idle =
     \<lparr> sleep_poll = \<lambda>_. Pend, chan_recv = \<lambda>_. Pend, tcp_connecting = \<lambda>_. Pend,
       tls_connecting = \<lambda>_. Pend, tcp_try_read = \<lambda>_ _ _. Err WouldBlock,
       tcp_read_ready = \<lambda>_ _. Pend, tcp_try_write = \<lambda>_ _ _. Err WouldBlock,
       tcp_write_ready = \<lambda>_ _. Pend, tls_handshake = \<lambda>_. Pend,
       stream_read = \<lambda>_ n. Ready (Ok (replicate (min n 3) 1)), stream_write = \<lambda>_ _. Pend,
       stream_shutdown = \<lambda>_. Pend \<rparr>"

theorem poll_read_accounting_witness:
  "resource_poll_read io_idle 2 (DuplexStream 5) (meter_default 0) =
     Some (Ok (2, [1, 1]), DuplexStream 5, (meter_default 0)\<lparr>net_ingress := 2\<rparr>) \<and>
   unat (2 :: u32) = length [1 :: u8, 1]"
proof -
  have r: "resource_poll_read io_idle 2 (DuplexStream 5) (meter_default 0) =
      Some (Ok (2, [1, 1]), DuplexStream 5, (meter_default 0)\<lparr>net_ingress := 2\<rparr>)"
    by (simp add: io_idle_def stream_poll_read_def record_net_ingress_def meter_default_def
        numeral_2_eq_2)
  have "io_contract io_idle" by (simp add: io_contract_def io_idle_def)
  from poll_read_accounting [OF this _ r] r show ?thesis by simp
qed

end
