(* ===== verification/Task_Set.thy ===== *)
theory Task_Set
  imports Rust_Collections
begin

text \<open>
  Scheduling on the host side: the queue of ready tasks and the queue of awakened guest wakers
  (\<open>TaskSet\<close> in \<open>wapo-host/src/runtime/vm_context.rs\<close>), the wakers the host hands to the objects a
  guest polls (\<open>GuestWaker\<close>, \<open>WakerData\<close> and \<open>relay_waker\<close> in \<open>async_context.rs\<close>), and the
  thread-local context they are made in. Reference counting is explicit, because dropping the
  last handle of a waker is itself a message to the guest.
\<close>

section \<open>TaskSet\<close>

record TaskSet =
  awake_tasks :: "i32 list"
  awake_wakers :: "i32 list"

definition with_task0 :: TaskSet where
  "with_task0 = \<lparr> awake_tasks = [0], awake_wakers = [] \<rparr>"

definition push_task :: "i32 \<Rightarrow> TaskSet \<Rightarrow> TaskSet" where
  "push_task task_id ts =
     (let guard = awake_tasks ts;
          exists = list_ex (\<lambda>tid. tid = task_id) (take 8 (rev guard))
      in if \<not> exists then ts\<lparr>awake_tasks := guard @ [task_id]\<rparr> else ts)"

definition pop_task :: "TaskSet \<Rightarrow> i32 option \<times> TaskSet" where
  "pop_task ts =
     (case awake_tasks ts of
        [] \<Rightarrow> (None, ts)
      | t # q \<Rightarrow> (Some t, ts\<lparr>awake_tasks := q\<rparr>))"

definition taskset_is_empty :: "TaskSet \<Rightarrow> bool" where
  "taskset_is_empty ts \<longleftrightarrow> awake_tasks ts = [] \<and> awake_wakers ts = []"

text \<open>The drain of \<open>awake_wakers\<close> by the ocall of that name.\<close>

definition drain_awake_wakers :: "TaskSet \<Rightarrow> i32 list \<times> TaskSet" where
  "drain_awake_wakers ts = (awake_wakers ts, ts\<lparr>awake_wakers := []\<rparr>)"

section \<open>Wakers\<close>

text \<open>
  A cell is one \<open>GuestWakerInner\<close>: the id the guest gave, the task whose call created it
  and the executor's waker (\<open>parent\<close>) seen by the \<open>WakerData\<close> that share it, and the number of
  handles alive (the poll context and every clone of the relayed waker). \<open>waker_tasks\<close> is the weak
  reference to the task set: \<open>None\<close> once the instance is gone.
\<close>

record WakerCell =
  waker_id :: i32
  this_task :: i32
  parent :: nat
  refs :: nat

record WakerHeap =
  waker_tasks :: "TaskSet option"
  cells :: "(nat, WakerCell) hashmap"
  next_cell :: nat
  parents_woken :: "nat list"

definition from_id :: "i32 \<Rightarrow> i32 \<Rightarrow> nat \<Rightarrow> WakerHeap \<Rightarrow> nat \<times> WakerHeap" where
  "from_id wid task par h =
     (let c = \<lparr> waker_id = wid, this_task = task, parent = par, refs = 1 \<rparr>
      in (next_cell h,
          h\<lparr>cells := hash_insert (next_cell h) c (cells h), next_cell := next_cell h + 1\<rparr>))"

definition push_waker :: "i32 \<Rightarrow> TaskSet \<Rightarrow> TaskSet" where
  "push_waker wid ts = ts\<lparr>awake_wakers := awake_wakers ts @ [wid]\<rparr>"

text \<open>\<open>clone_waker\<close>, \<open>wake_by_ref_waker\<close>, \<open>drop_waker\<close> and \<open>wake_waker\<close> of the relay's vtable.\<close>

definition clone_waker :: "nat \<Rightarrow> WakerHeap \<Rightarrow> WakerHeap" where
  "clone_waker c h =
     (case map_of (cells h) c of
        None \<Rightarrow> h
      | Some cell \<Rightarrow> h\<lparr>cells := hash_insert c (cell\<lparr>refs := refs cell + 1\<rparr>) (cells h)\<rparr>)"

definition guest_wake_by_ref :: "WakerCell \<Rightarrow> TaskSet \<Rightarrow> TaskSet" where
  "guest_wake_by_ref cell ts = push_waker (waker_id cell) ts"

definition wake_by_ref_waker :: "nat \<Rightarrow> WakerHeap \<Rightarrow> WakerHeap" where
  "wake_by_ref_waker c h =
     (case map_of (cells h) c of
        None \<Rightarrow> h
      | Some cell \<Rightarrow>
          h\<lparr>waker_tasks := map_option (\<lambda>ts. guest_wake_by_ref cell (push_task (this_task cell) ts)) (waker_tasks h),
            parents_woken := parents_woken h @ [parent cell]\<rparr>)"

definition guest_waker_drop :: "WakerCell \<Rightarrow> WakerHeap \<Rightarrow> WakerHeap" where
  "guest_waker_drop cell h = h\<lparr>waker_tasks := map_option (push_waker (- 1 - waker_id cell)) (waker_tasks h)\<rparr>"

definition drop_waker :: "nat \<Rightarrow> WakerHeap \<Rightarrow> WakerHeap" where
  "drop_waker c h =
     (case map_of (cells h) c of
        None \<Rightarrow> h
      | Some cell \<Rightarrow>
          (if refs cell \<le> 1
           then guest_waker_drop cell (h\<lparr>cells := hash_remove c (cells h)\<rparr>)
           else h\<lparr>cells := hash_insert c (cell\<lparr>refs := refs cell - 1\<rparr>) (cells h)\<rparr>))"

definition wake_waker :: "nat \<Rightarrow> WakerHeap \<Rightarrow> WakerHeap" where
  "wake_waker c h = drop_waker c (wake_by_ref_waker c h)"

section \<open>The thread-local task context\<close>

text \<open>
  \<open>TLS_CX\<close> holds the executor's context (here its waker) and \<open>TLS_TASK_ENV\<close> the calling task.
  The guards \<open>SetOnDrop\<close> and \<open>ClearEnvOnDrop\<close> run when the function returns. \<open>None\<close> is the panic
  of an unset context, which aborts the process.
\<close>

record Tls =
  tls_cx :: "nat option"
  tls_task_env :: "i32 option"

type_synonym 'a tls_fun = "Tls \<Rightarrow> ('a \<times> Tls) option"

definition set_task_env :: "i32 \<Rightarrow> 'a tls_fun \<Rightarrow> 'a tls_fun" where
  "set_task_env task_id f s =
     map_option (\<lambda>(r, s'). (r, s'\<lparr>tls_task_env := None\<rparr>)) (f (s\<lparr>tls_task_env := Some task_id\<rparr>))"

definition set_task_cx :: "nat \<Rightarrow> 'a tls_fun \<Rightarrow> 'a tls_fun" where
  "set_task_cx cx f s =
     (let old_cx = tls_cx s
      in map_option (\<lambda>(r, s'). (r, s'\<lparr>tls_cx := old_cx\<rparr>)) (f (s\<lparr>tls_cx := Some cx\<rparr>)))"

definition get_task_cx :: "(i32 \<Rightarrow> nat \<Rightarrow> 'a tls_fun) \<Rightarrow> 'a tls_fun" where
  "get_task_cx f s =
     (let cx_ptr = tls_cx s; s1 = s\<lparr>tls_cx := None\<rparr>
      in case (cx_ptr, tls_task_env s1) of
           (Some cx, Some env) \<Rightarrow>
             map_option (\<lambda>(r, s'). (r, s'\<lparr>tls_cx := cx_ptr\<rparr>)) (f env cx s1)
         | _ \<Rightarrow> None)"

definition poll_in_task_cx :: "(i32 \<Rightarrow> nat \<Rightarrow> 'a tls_fun) \<Rightarrow> 'a tls_fun" where
  "poll_in_task_cx poll = get_task_cx poll"

section \<open>The ready queue is fair\<close>

text \<open>Calls of the ocalls \<open>mark_task_ready\<close> and \<open>next_ready_task\<close>, in any order.\<close>

datatype ready_op = MarkReady i32 | NextReady

fun run_ready :: "ready_op list \<Rightarrow> TaskSet \<Rightarrow> i32 option list \<times> TaskSet" where
  "run_ready [] ts = ([], ts)"
| "run_ready (MarkReady t # ops) ts = run_ready ops (push_task t ts)"
| "run_ready (NextReady # ops) ts =
     (let (r, ts1) = pop_task ts; (rs, ts2) = run_ready ops ts1 in (r # rs, ts2))"

lemma push_task_awake:
  "awake_tasks (push_task t ts) = awake_tasks ts \<and> t \<in> set (awake_tasks ts) \<or>
   awake_tasks (push_task t ts) = awake_tasks ts @ [t]"
  by (auto simp: push_task_def Let_def list_ex_iff dest: in_set_takeD)

lemma push_task_mem: "t \<in> set (awake_tasks (push_task t ts))"
  using push_task_awake [of t ts] by auto

lemma push_task_nth:
  "k < length (awake_tasks ts) \<Longrightarrow>
   k < length (awake_tasks (push_task t ts)) \<and>
   awake_tasks (push_task t ts) ! k = awake_tasks ts ! k"
  using push_task_awake [of t ts] by (auto simp: nth_append)

lemma push_task_wakers [simp]: "awake_wakers (push_task t ts) = awake_wakers ts"
  by (simp add: push_task_def Let_def)

lemma run_ready_nth:
  "k < length (awake_tasks ts) \<Longrightarrow> k < count_list ops NextReady \<Longrightarrow>
   k < length (fst (run_ready ops ts)) \<and> fst (run_ready ops ts) ! k = Some (awake_tasks ts ! k)"
proof (induction ops ts arbitrary: k rule: run_ready.induct)
  case (2 t ops ts)
  with push_task_nth [of k ts t] show ?case by simp
next
  case (3 ops ts)
  obtain q t where q: "awake_tasks ts = t # q" using 3(2) by (cases "awake_tasks ts") auto
  then have pop: "pop_task ts = (Some t, ts\<lparr>awake_tasks := q\<rparr>)" by (simp add: pop_task_def)
  obtain rs ts2 where r: "run_ready ops (ts\<lparr>awake_tasks := q\<rparr>) = (rs, ts2)" by fastforce
  show ?case
  proof (cases k)
    case (Suc k')
    with 3 q pop r show ?thesis by fastforce
  qed (use pop r q in auto)
qed simp

text \<open>
  C19: no ready task is lost or starved: once a task is marked ready, the tasks
  returned by the next calls of \<open>next_ready_task\<close>, as many as the queue is then long, include it,
  whatever is marked in between (a mark suppressed as a duplicate included).
\<close>

theorem ready_task_is_served:
  assumes "length (awake_tasks (push_task t ts)) \<le> count_list ops NextReady"
  shows "Some t \<in> set (fst (run_ready ops (push_task t ts)))"
proof -
  obtain k where k: "k < length (awake_tasks (push_task t ts))" "awake_tasks (push_task t ts) ! k = t"
    using push_task_mem [of t ts] by (auto simp: in_set_conv_nth)
  from run_ready_nth [OF k(1), of ops] k assms show ?thesis by (auto simp: in_set_conv_nth)
qed

theorem ready_task_is_served_witness:
  "Some (5 :: i32) \<in> set (fst (run_ready [NextReady, MarkReady 9, NextReady] (push_task 5 with_task0)))"
  using ready_task_is_served [of 5 with_task0 "[NextReady, MarkReady 9, NextReady]"]
  by (simp add: push_task_def with_task0_def)

text \<open>
  The thread-local context is bracketed: polling the guest and polling an object from within
  an ocall both leave the executor's context as it was, and an object polled this way
  cannot enter the context a second time, which would alias it: the nested access panics.
\<close>

lemma task_context_bracketed:
  "(set_task_cx cx f s = Some (r, s') \<longrightarrow> tls_cx s' = tls_cx s) \<and>
   (get_task_cx g s = Some (r, s') \<longrightarrow> tls_cx s' = tls_cx s \<and> tls_cx s \<noteq> None) \<and>
   get_task_cx (\<lambda>_ _. get_task_cx g) s = None"
  by (auto simp: set_task_cx_def get_task_cx_def Let_def split: option.splits)

end
