(* ===== verification/Blob_Store.thy ===== *)
theory Blob_Store
  imports Rust_Collections
begin

text \<open>
  The content-addressed blob store and the raw file store (\<open>wapo-host/src/runtime/blobs.rs\<close>). A
  store directory is a map from file names to contents, with the temporary files of uploads kept
  apart. Hexadecimal coding, the SHA-2 digests and the LRU cache belong to libraries: they are the
  records \<open>BlobLibs\<close> and \<open>Lru\<close>, parameters of the operations, with what the code relies on in
  \<open>libs_ok\<close> and \<open>lru_ok\<close>. The argument \<open>fails\<close> says which steps of a call the operating system
  refuses.
\<close>

section \<open>Hash values\<close>

datatype HashAlgo = Sha256 | Sha512

record HashValue =
  algo :: HashAlgo
  hash :: bytes

record BlobLibs =
  hex_encode :: "bytes \<Rightarrow> string"
  hex_decode :: "string \<Rightarrow> bytes option"
  digest :: "HashAlgo \<Rightarrow> bytes \<Rightarrow> bytes"

definition libs_ok :: "BlobLibs \<Rightarrow> bool" where
  "libs_ok L \<longleftrightarrow> (\<forall>b. hex_decode L (hex_encode L b) = Some b) \<and>
     hex_decode L [] = Some [] \<and> (\<forall>a d. digest L a d \<noteq> [])"

definition algo_from_str :: "string \<Rightarrow> (HashAlgo, string) result" where
  "algo_from_str s =
     (if s = ''sha256'' then Ok Sha256
      else if s = ''sha512'' then Ok Sha512
      else Err ''Invalid hash algorithm'')"

text \<open>\<open>splitn(2, c)\<close>: what precedes the first \<open>c\<close>, and what follows it if there is one.\<close>

definition splitn2 :: "char \<Rightarrow> string \<Rightarrow> string \<times> string option" where
  "splitn2 c s =
     (let a = takeWhile (\<lambda>x. x \<noteq> c) s; rest = dropWhile (\<lambda>x. x \<noteq> c) s
      in (a, case rest of [] \<Rightarrow> None | _ # r \<Rightarrow> Some r))"

definition hash_from_str :: "BlobLibs \<Rightarrow> string \<Rightarrow> (HashValue, string) result" where
  "hash_from_str L s =
     (let (a, rest) = splitn2 (CHR '':'') s; h = (case rest of Some r \<Rightarrow> r | None \<Rightarrow> [])
      in and_then (algo_from_str a) (\<lambda>al.
         and_then (ok_or (hex_decode L h) ''invalid hash value'') (\<lambda>b.
           Ok \<lparr> algo = al, hash = b \<rparr>)))"

fun algo_name :: "HashAlgo \<Rightarrow> string" where
  "algo_name Sha256 = ''sha256''"
| "algo_name Sha512 = ''sha512''"

definition hash_to_string :: "BlobLibs \<Rightarrow> HashValue \<Rightarrow> string" where
  "hash_to_string L h = algo_name (algo h) @ '':'' @ hex_encode L (hash h)"

section \<open>Hashing\<close>

text \<open>A hasher in progress is the algorithm with the data it was given so far.\<close>

type_synonym Hasher = "HashAlgo \<times> bytes"

definition hasher_new :: "HashAlgo \<Rightarrow> Hasher" where
  "hasher_new a = (a, [])"

definition hasher_update :: "bytes \<Rightarrow> Hasher \<Rightarrow> Hasher" where
  "hasher_update d h = (fst h, snd h @ d)"

definition hasher_finalize :: "BlobLibs \<Rightarrow> Hasher \<Rightarrow> bytes" where
  "hasher_finalize L h = digest L (fst h) (snd h)"

definition hasher_hash :: "BlobLibs \<Rightarrow> bytes \<Rightarrow> HashAlgo \<Rightarrow> bytes" where
  "hasher_hash L d a = hasher_finalize L (hasher_update d (hasher_new a))"

text \<open>The loop of \<open>hash_file\<close>: 4096 bytes at a time until a read returns nothing.\<close>

function hash_loop :: "bytes \<Rightarrow> Hasher \<Rightarrow> Hasher" where
  "hash_loop rest h =
     (let buf = take 4096 rest
      in if length buf = 0 then h else hash_loop (drop 4096 rest) (hasher_update buf h))"
  by auto
termination
  by (relation "measure (\<lambda>(rest, h). length rest)") auto

declare hash_loop.simps [simp del]

definition hash_file :: "BlobLibs \<Rightarrow> bytes \<Rightarrow> HashAlgo \<Rightarrow> bytes" where
  "hash_file L content a = hasher_finalize L (hash_loop content (hasher_new a))"

section \<open>The store\<close>

datatype fs_step =
    CreateTmpDir | CreateTmp | CopyTmp | SyncTmp | OpenTmp | ReadTmp | RenameTmp
  | ReadFile | RemoveFile | OpenRaw | StatRaw | ReadRaw | WriteRaw

record Store =
  files :: "string \<rightharpoonup> bytes"
  tmp_files :: "string \<rightharpoonup> bytes"

datatype blob_error = BadHash string | Io fs_step | HashMismatch bytes | TooLarge | NoSuchFile

text \<open>
  What a name in the store directory refers to. The empty name, which an empty hash is encoded to,
  is the directory itself: it exists but cannot be read or removed as a file.
\<close>

datatype path_kind = TheDirectory | Missing | File bytes

definition open_path :: "string \<Rightarrow> Store \<Rightarrow> path_kind" where
  "open_path name st =
     (if name = [] then TheDirectory
      else case files st name of None \<Rightarrow> Missing | Some data \<Rightarrow> File data)"

text \<open>
  Storing an object: the data goes to a fresh temporary file, which the guard removes on every
  way out (after the rename there is nothing left to remove).
\<close>

definition put_object ::
  "BlobLibs \<Rightarrow> (fs_step \<Rightarrow> bool) \<Rightarrow> string \<Rightarrow> string \<Rightarrow> bytes \<Rightarrow> Store \<Rightarrow>
   (string, blob_error) result \<times> Store" where
  "put_object L fails uuid hash_str data st =
     (case hash_from_str L hash_str of
        Err e \<Rightarrow> (Err (BadHash e), st)
      | Ok h \<Rightarrow>
          if fails CreateTmpDir then (Err (Io CreateTmpDir), st)
          else if fails CreateTmp then (Err (Io CreateTmp), st)
          else
            (let st1 = st\<lparr>tmp_files := (tmp_files st)(uuid \<mapsto> data)\<rparr>;
                 guard = (\<lambda>s. s\<lparr>tmp_files := (tmp_files s)(uuid := None)\<rparr>)
             in if fails CopyTmp then (Err (Io CopyTmp), guard st1)
                else if fails SyncTmp then (Err (Io SyncTmp), guard st1)
                else if fails OpenTmp then (Err (Io OpenTmp), guard st1)
                else if fails ReadTmp then (Err (Io ReadTmp), guard st1)
                else
                  (let actual_hash = hash_file L data (algo h)
                   in if hash h \<noteq> [] \<and> actual_hash \<noteq> hash h
                      then (Err (HashMismatch actual_hash), guard st1)
                      else
                        (let key = hex_encode L actual_hash
                         in if fails RenameTmp then (Err (Io RenameTmp), guard st1)
                            else
                              (let st2 = st1\<lparr>files := (files st1)(key \<mapsto> data),
                                            tmp_files := (tmp_files st1)(uuid := None)\<rparr>
                               in (Ok (hash_to_string L (h\<lparr>hash := actual_hash\<rparr>)), guard st2))))))"

definition get_object ::
  "BlobLibs \<Rightarrow> (fs_step \<Rightarrow> bool) \<Rightarrow> string \<Rightarrow> Store \<Rightarrow> (bytes option, blob_error) result" where
  "get_object L fails hash_str st =
     (case hash_from_str L hash_str of
        Err e \<Rightarrow> Err (BadHash e)
      | Ok h \<Rightarrow>
          (case open_path (hex_encode L (hash h)) st of
             TheDirectory \<Rightarrow> Err (Io ReadFile)
           | Missing \<Rightarrow> Ok None
           | File data \<Rightarrow>
               if fails ReadFile then Err (Io ReadFile)
               else
                 (let actual_hash = hasher_hash L data (algo h)
                  in if actual_hash \<noteq> hash h then Err (HashMismatch actual_hash) else Ok (Some data))))"

definition blob_remove ::
  "BlobLibs \<Rightarrow> (fs_step \<Rightarrow> bool) \<Rightarrow> string \<Rightarrow> Store \<Rightarrow> (unit, blob_error) result \<times> Store" where
  "blob_remove L fails hash_str st =
     (case hash_from_str L hash_str of
        Err e \<Rightarrow> (Err (BadHash e), st)
      | Ok h \<Rightarrow>
          (let key = hex_encode L (hash h)
           in if fails RemoveFile then (Err (Io RemoveFile), st)
              else
                (case open_path key st of
                   TheDirectory \<Rightarrow> (Err (Io RemoveFile), st)
                 | Missing \<Rightarrow> (Err NoSuchFile, st)
                 | File _ \<Rightarrow> (Ok (), st\<lparr>files := (files st)(key := None)\<rparr>))))"

definition blob_exists :: "BlobLibs \<Rightarrow> string \<Rightarrow> Store \<Rightarrow> bool" where
  "blob_exists L hash_str st =
     (case hash_from_str L hash_str of
        Err _ \<Rightarrow> False
      | Ok h \<Rightarrow> open_path (hex_encode L (hash h)) st \<noteq> Missing)"

section \<open>Raw files behind the cache\<close>

record 'c Lru =
  lru_get :: "string \<Rightarrow> 'c \<Rightarrow> bytes option \<times> 'c"
  lru_put :: "string \<Rightarrow> bytes \<Rightarrow> 'c \<Rightarrow> 'c"
  lru_pop :: "string \<Rightarrow> 'c \<Rightarrow> 'c"
  lru_look :: "'c \<Rightarrow> string \<rightharpoonup> bytes"

text \<open>
  The contract of the cache: a lookup returns what is stored and stores nothing; an insertion
  stores the entry and may evict others; \<open>pop\<close> removes one entry.
\<close>

definition lru_ok :: "'c Lru \<Rightarrow> bool" where
  "lru_ok C \<longleftrightarrow>
     (\<forall>k c. fst (lru_get C k c) = lru_look C c k \<and> lru_look C (snd (lru_get C k c)) = lru_look C c) \<and>
     (\<forall>k v c. lru_look C (lru_put C k v c) k = Some v \<and>
        (\<forall>k'. k' \<noteq> k \<longrightarrow> lru_look C (lru_put C k v c) k' \<in> {None, lru_look C c k'})) \<and>
     (\<forall>k c. lru_look C (lru_pop C k c) = (lru_look C c)(k := None))"

definition get_raw ::
  "'c Lru \<Rightarrow> (fs_step \<Rightarrow> bool) \<Rightarrow> string \<Rightarrow> nat \<Rightarrow> Store \<times> 'c \<Rightarrow>
   (bytes option, blob_error) result \<times> Store \<times> 'c" where
  "get_raw C fails filename size_limit = (\<lambda>(st, cache).
     (case lru_get C filename cache of
        (Some data, cache') \<Rightarrow> (Ok (Some data), st, cache')
      | (None, cache') \<Rightarrow>
          (if fails OpenRaw then (Err (Io OpenRaw), st, cache')
           else
             (case files st filename of
                None \<Rightarrow> (Ok None, st, cache')
              | Some data \<Rightarrow>
                  if fails StatRaw then (Err (Io StatRaw), st, cache')
                  else if length data > size_limit then (Err TooLarge, st, cache')
                  else if fails ReadRaw then (Err (Io ReadRaw), st, cache')
                  else (Ok (Some data), st, lru_put C filename data cache')))))"

text \<open>
  A write the system refuses may have truncated or partly written the file: \<open>partial\<close> is
  what it left. The cached entry is dropped only after a successful write.
\<close>

definition put_raw ::
  "'c Lru \<Rightarrow> (fs_step \<Rightarrow> bool) \<Rightarrow> bytes option \<Rightarrow> string \<Rightarrow> bytes \<Rightarrow> Store \<times> 'c \<Rightarrow>
   (unit, blob_error) result \<times> Store \<times> 'c" where
  "put_raw C fails partial filename data = (\<lambda>(st, cache).
     if fails WriteRaw
     then (Err (Io WriteRaw), st\<lparr>files := (files st)(filename := partial)\<rparr>, cache)
     else (Ok (), st\<lparr>files := (files st)(filename \<mapsto> data)\<rparr>, lru_pop C filename cache))"

section \<open>Lemmas\<close>

lemma splitn2_algo: "splitn2 (CHR '':'') (algo_name a @ '':'' @ r) = (algo_name a, Some r)"
  by (cases a) (simp_all add: splitn2_def)

lemma hash_from_to_string: "libs_ok L \<Longrightarrow> hash_from_str L (hash_to_string L h) = Ok h"
  unfolding hash_from_str_def hash_to_string_def splitn2_algo Let_def
  by (cases "algo h") (simp_all add: libs_ok_def algo_from_str_def)

lemma hash_loop_all: "hash_loop rest h = (fst h, snd h @ rest)"
proof (induction rest h rule: hash_loop.induct)
  case (1 rest h)
  show ?case
  proof (cases "rest = []")
    case False
    with 1 have "hash_loop (drop 4096 rest) (hasher_update (take 4096 rest) h) =
        (fst h, snd h @ take 4096 rest @ drop 4096 rest)"
      by (simp add: hasher_update_def)
    with False show ?thesis by (subst hash_loop.simps) simp
  qed (subst hash_loop.simps, simp)
qed

lemma hash_file_eq_hasher_hash: "hash_file L d a = hasher_hash L d a"
  by (simp add: hash_file_def hasher_hash_def hash_loop_all hasher_update_def hasher_new_def)

lemma hasher_hash_digest: "hasher_hash L d a = digest L a d"
  by (simp add: hasher_hash_def hasher_update_def hasher_new_def hasher_finalize_def)

lemma hex_encode_nonempty: "libs_ok L \<Longrightarrow> b \<noteq> [] \<Longrightarrow> hex_encode L b \<noteq> []"
  by (metis libs_ok_def option.inject)

lemmas hash_simps = hash_file_eq_hasher_hash hasher_hash_digest

text \<open>A codec of the libraries' kind, to evaluate the operations with.\<close>

definition hexdigit :: "nat \<Rightarrow> char" where
  "hexdigit n = ''0123456789abcdef'' ! n"

definition undigit :: "char \<Rightarrow> nat option" where
  "undigit c = (let i = length (takeWhile (\<lambda>x. x \<noteq> c) ''0123456789abcdef'') in if i < 16 then Some i else None)"

fun unhex :: "string \<Rightarrow> bytes option" where
  "unhex [] = Some []"
| "unhex (a # b # s) =
     (case (undigit a, undigit b, unhex s) of
        (Some x, Some y, Some r) \<Rightarrow> Some (of_nat (16 * x + y) # r)
      | _ \<Rightarrow> None)"
| "unhex [_] = None"

definition demo_libs :: BlobLibs where
  "demo_libs =
     \<lparr> hex_encode = \<lambda>b. concat (map (\<lambda>x. [hexdigit (unat x div 16), hexdigit (unat x mod 16)]) b),
       hex_decode = unhex,
       digest = \<lambda>a d. [of_nat (length d), foldr (+) d 0] \<rparr>"

lemma undigit_hexdigit: "n < 16 \<Longrightarrow> undigit (hexdigit n) = Some n"
proof -
  assume "n < 16"
  then have "n \<in> set [0..<16]" by simp
  moreover have "\<forall>n \<in> set [0..<16]. undigit (hexdigit n) = Some n" by code_simp
  ultimately show ?thesis by blast
qed

lemma demo_libs_ok: "libs_ok demo_libs"
proof -
  have "of_nat (16 * (unat x div 16) + unat x mod 16) = x" for x :: u8 by simp
  moreover have "unat x div 16 < 16" for x :: u8 using unat_lt_2p [of x] by simp
  ultimately have "unhex (hex_encode demo_libs b) = Some b" for b
    by (induction b) (simp_all add: demo_libs_def undigit_hexdigit)
  then show ?thesis by (simp add: libs_ok_def demo_libs_def)
qed

definition demo_lru :: "(string \<Rightarrow> bytes option) Lru" where
  "demo_lru =
     \<lparr> lru_get = \<lambda>k c. (c k, c), lru_put = \<lambda>k v c. [k \<mapsto> v], lru_pop = \<lambda>k c. c(k := None),
       lru_look = \<lambda>c. c \<rparr>"

lemma demo_lru_ok: "lru_ok demo_lru"
  by (simp add: lru_ok_def demo_lru_def)

section \<open>Properties of the store\<close>

text \<open>
  A blob that is returned is the blob that was asked for: its digest, recomputed on every
  read, is the requested hash, so a corrupted or replaced file is never served.
\<close>

lemma blob_get_integrity:
  assumes "get_object L fails s st = Ok (Some d)"
  shows "\<exists>h. hash_from_str L s = Ok h \<and> digest L (algo h) d = hash h \<and>
    files st (hex_encode L (hash h)) = Some d"
  using assms
  by (auto simp: get_object_def open_path_def hash_simps Let_def
      split: result.splits path_kind.splits if_splits option.splits)

definition demo_blob :: Store where
  "demo_blob = \<lparr> files = [hex_encode demo_libs [2, 7] \<mapsto> [3, 4]], tmp_files = Map.empty \<rparr>"

text \<open>
  C22: what was stored can be fetched: a successful upload returns the name of the data's own
  digest, which is the requested one if a hash was given, and fetching that name returns the data;
  every other stored file and every other temporary file is untouched.
\<close>

theorem blob_put_get:
  assumes "libs_ok L" "put_object L fails uuid s data st = (Ok s', st')"
  shows "get_object L (\<lambda>_. False) s' st' = Ok (Some data) \<and>
    (\<exists>h. hash_from_str L s = Ok h \<and> s' = hash_to_string L (h\<lparr>hash := digest L (algo h) data\<rparr>) \<and>
       (hash h = [] \<or> hash h = digest L (algo h) data) \<and>
       (\<forall>k. k \<noteq> hex_encode L (digest L (algo h) data) \<longrightarrow> files st' k = files st k)) \<and>
    (\<forall>u. u \<noteq> uuid \<longrightarrow> tmp_files st' u = tmp_files st u) \<and> tmp_files st' uuid = None"
proof (cases "hash_from_str L s")
  case (Ok h)
  let ?d = "digest L (algo h) data"
  from assms(2) Ok have s': "s' = hash_to_string L (h\<lparr>hash := ?d\<rparr>)"
    and f: "files st' = (files st)(hex_encode L ?d \<mapsto> data)"
    and t: "tmp_files st' = (tmp_files st)(uuid := None)" and hh: "hash h = [] \<or> hash h = ?d"
    by (auto simp: put_object_def hash_simps Let_def split: if_splits)
  have "get_object L (\<lambda>_. False) s' st' = Ok (Some data)"
    unfolding s' get_object_def hash_from_to_string [OF assms(1)] using assms(1) f
    by (simp add: open_path_def hex_encode_nonempty hash_simps libs_ok_def)
  then show ?thesis using Ok s' f t hh by auto
qed (use assms(2) in \<open>simp add: put_object_def\<close>)

theorem blob_put_get_witness:
  "\<exists>s' st'. put_object demo_libs (\<lambda>_. False) ''u1'' ''sha256'' [3, 4] demo_blob = (Ok s', st') \<and>
     get_object demo_libs (\<lambda>_. False) s' st' = Ok (Some [3, 4])"
proof -
  have "hash_from_str demo_libs ''sha256'' = Ok \<lparr> algo = Sha256, hash = [] \<rparr>"
    by (simp add: hash_from_str_def splitn2_def algo_from_str_def demo_libs_def)
  then obtain s' st' where
    p: "put_object demo_libs (\<lambda>_. False) ''u1'' ''sha256'' [3, 4] demo_blob = (Ok s', st')"
    by (simp add: put_object_def Let_def)
  with blob_put_get [OF demo_libs_ok p] show ?thesis by blast
qed

text \<open>
  A failed upload leaves no trace: whatever step fails, and when the data does not have the
  hash that was asked for, the stored files are as before and, the temporary name being fresh, so
  are the temporary files.
\<close>

lemma blob_put_failure_atomic:
  assumes "put_object L fails uuid s data st = (Err e, st')" "tmp_files st uuid = None"
  shows "st' = st"
  using assms
  by (auto simp: put_object_def Let_def fun_upd_idem split: result.splits if_splits)

lemma lru_laws:
  assumes "lru_ok C"
  shows "lru_get C k c = (r, c') \<Longrightarrow> r = lru_look C c k \<and> lru_look C c' = lru_look C c"
    and "lru_look C (lru_put C k v c) k = Some v"
    and "lru_look C (lru_pop C k c) = (lru_look C c)(k := None)"
  using assms unfolding lru_ok_def by (metis fst_conv snd_conv, blast, blast)

lemma put_raw_get_raw:
  assumes "lru_ok C" "put_raw C fails part name d (st, c) = (Ok (), st', c')"
  shows "fst (get_raw C (\<lambda>_. False) name limit (st', c')) =
    (if length d \<le> limit then Ok (Some d) else Err TooLarge)"
proof -
  from assms(2) have s': "files st' name = Some d" "c' = lru_pop C name c"
    by (auto simp: put_raw_def split: if_splits)
  obtain r c2 where g: "lru_get C name c' = (r, c2)" by fastforce
  from lru_laws(1) [OF assms(1) g] lru_laws(3) [OF assms(1), of name c] s'(2) have "r = None"
    by simp
  with g s'(1) show ?thesis by (simp add: get_raw_def)
qed

text \<open>
  A loader reads its own writes: after a successful \<open>put_raw\<close> the next \<open>get_raw\<close> of the name
  returns the data just written, whatever was cached before, or reports that it exceeds the limit
  given.
\<close>

lemma raw_read_your_writes:
  assumes "lru_ok C" "put_raw C fails part name d (st, c) = (Ok (), st', c')"
  shows "fst (get_raw C (\<lambda>_. False) name limit (st', c')) =
    (if length d \<le> limit then Ok (Some d) else Err TooLarge)"
  using assms by (rule put_raw_get_raw)

text \<open>
  The cache is private to a loader although the directory is shared: each instance of an
  app has its own loader, so once one of them has read a raw file it keeps returning that content
  after another has successfully replaced it.
\<close>

lemma raw_stale_between_loaders:
  assumes "lru_ok C" "get_raw C fails1 name limit (st, c2) = (Ok (Some old), st1, c2')"
    and "put_raw C fails2 part name new (st1, c1) = (Ok (), st2, c1')"
  shows "fst (get_raw C fails3 name limit' (st2, c2')) = Ok (Some old) \<and> files st2 name = Some new"
proof -
  obtain r c where g: "lru_get C name c2 = (r, c)" by fastforce
  note look = lru_laws(1) [OF assms(1) g]
  have "lru_look C c2' name = Some old"
  proof (cases r)
    case None
    with assms(2) g have "c2' = lru_put C name old c"
      by (auto simp: get_raw_def split: option.splits if_splits)
    with lru_laws(2) [OF assms(1)] show ?thesis by simp
  next
    case (Some d)
    with assms(2) g have "d = old" "c2' = c" by (auto simp: get_raw_def)
    with look Some show ?thesis by simp
  qed
  with lru_laws(1) [OF assms(1)] obtain c3 where "lru_get C name c2' = (Some old, c3)"
    by (metis surj_pair)
  with assms(3) show ?thesis by (auto simp: get_raw_def put_raw_def split: if_splits)
qed

end
