(* ===== verification/Vm_Context.thy ===== *)
theory Vm_Context
  imports Resource_Table Task_Set Blob_Store
begin

text \<open>
  The host's side of one running instance (\<open>wapo-host/src/runtime/vm_context.rs\<close>): its state
  \<open>WapoCtx\<close> and one handler for every ocall a guest can make, with the gas each of them charges,
  and the messages the host pushes into the guest. The worker's callbacks are the record
  \<open>RuntimeCalls\<close> over the worker's own state. What sockets, channels, the name resolver, the random
  generator and the cipher answer during a call is the record \<open>HostEnv\<close>.
\<close>

section \<open>The worker's callbacks\<close>

record MetricsToken =
  tok_sn :: u64
  tok_session :: bytes
  tok_nonce :: bytes

record 'r RuntimeCalls =
  rc_log :: "Level \<Rightarrow> string \<Rightarrow> 'r \<Rightarrow> 'r"
  rc_worker_pubkey :: "'r \<Rightarrow> bytes"
  rc_sign_app_data :: "bytes \<Rightarrow> 'r \<Rightarrow> bytes"
  rc_sgx_quote_app_data :: "bytes \<Rightarrow> 'r \<Rightarrow> bytes option"
  rc_emit_output :: "bytes \<Rightarrow> 'r \<Rightarrow> 'r"
  rc_tcp_connect_allowed :: "string \<Rightarrow> 'r \<Rightarrow> bool"
  rc_app_metrics :: "'r \<Rightarrow> (Metrics \<times> MetricsToken) \<times> 'r"
  rc_derive_secret :: "bytes \<Rightarrow> 'r \<Rightarrow> bytes"
  rc_query_listened :: "'r \<Rightarrow> 'r"
  rc_try_lock :: "string \<Rightarrow> 'r \<Rightarrow> bool \<times> 'r"
  rc_unlock :: "string \<Rightarrow> 'r \<Rightarrow> bool \<times> 'r"

definition token_default :: MetricsToken where
  "token_default = \<lparr> tok_sn = 0, tok_session = replicate 32 0, tok_nonce = replicate 32 0 \<rparr>"

text \<open>The implementation for \<open>()\<close>, used when a module is run without a worker.\<close>

definition unit_runtime_calls :: "unit RuntimeCalls" where
  "unit_runtime_calls =
     \<lparr> rc_log = \<lambda>_ _ s. s,
       rc_worker_pubkey = \<lambda>_. replicate 32 0,
       rc_sign_app_data = \<lambda>_ _. [],
       rc_sgx_quote_app_data = \<lambda>_ _. None,
       rc_emit_output = \<lambda>_ s. s,
       rc_tcp_connect_allowed = \<lambda>_ _. True,
       rc_app_metrics = \<lambda>s. ((metrics_default, token_default), s),
       rc_derive_secret = \<lambda>_ _. replicate 64 0,
       rc_query_listened = \<lambda>s. s,
       rc_try_lock = \<lambda>_ s. (True, s),
       rc_unlock = \<lambda>_ s. (True, s) \<rparr>"

section \<open>The environment of a call\<close>

record HostEnv = IoEnv +
  cur_task :: i32
  cur_parent :: nat
  retains :: bool
  new_handle :: handle
  new_handle2 :: handle
  socket_port :: "string \<Rightarrow> u16 option"
  bind_listener :: "string \<Rightarrow> handle io_result"
  tls_server_config :: "TlsServerConfig \<Rightarrow> (handle, OcallError) result"
  tcp_accepting :: "handle \<Rightarrow> (handle \<times> string) io_result poll"
  tls_acceptor :: "handle \<Rightarrow> handle \<Rightarrow> handle"
  sni_next :: "handle \<Rightarrow> (handle \<times> string) option poll"
  sni_certified_key :: "string \<Rightarrow> string \<Rightarrow> handle option"
  sni_subscribe :: "handle \<Rightarrow> string \<Rightarrow> handle \<Rightarrow> handle option"
  server_name_ok :: "string \<Rightarrow> bool"
  deadline_ok :: "u64 \<Rightarrow> bool"
  oneshot_open :: "handle \<Rightarrow> bool"
  chan_room :: "handle \<Rightarrow> bool"
  random_bytes :: "nat \<Rightarrow> bytes"
  blob_libs :: BlobLibs
  fs_fails :: "fs_step \<Rightarrow> bool"
  fs_partial :: "bytes option"
  aead_encrypt :: "bytes \<Rightarrow> bytes \<Rightarrow> bytes \<Rightarrow> bytes option"
  aead_decrypt :: "bytes \<Rightarrow> bytes \<Rightarrow> bytes \<Rightarrow> bytes option"

text \<open>
  \<open>cur_task\<close> and \<open>cur_parent\<close> are the thread-local task and executor context of the call, and
  \<open>retains\<close> tells whether the object polled keeps a clone of the waker. \<open>new_handle\<close> is the
  runtime object the call creates. The nonce of an encryption is the random bytes of length 12.
\<close>

section \<open>State\<close>

text \<open>The messages of an input channel, before they are encoded: \<open>QueryRequest\<close>, \<open>HttpRequest\<close>.\<close>

datatype 'h guest_message =
    QueryRequest (q_origin: "bytes option") (q_path: string) (q_payload: bytes) (q_reply_tx: i32)
  | HttpRequest (h_head: 'h) (h_response_tx: i32) (h_io_stream: i32)

type_synonym guest_msg = "string guest_message"

record VmConfig =
  tcp_listen_port_range :: "u16 \<times> u16"
  sni_tls_listener :: "handle option"

record ('r, 'c) WapoCtx =
  vm_id :: bytes
  resources :: ResourceTable
  temp_return_value :: "bytes option"
  ocall_trace_enabled :: bool
  query_tx :: "handle option"
  http_connect_tx :: "handle option"
  wakers_heap :: WakerHeap
  weight :: u32
  runtime :: 'r
  meter :: Meter
  blob_store :: Store
  blob_cache :: 'c
  config :: VmConfig
  sent :: "(handle \<times> (bytes, string) result) list"
  pushed :: "(handle \<times> guest_msg) list"

text \<open>
  \<open>wakers_heap\<close> holds the task set together with the wakers alive on it; \<open>sent\<close> records what
  was sent to oneshot receivers and \<open>pushed\<close> what was sent to the guest's input channels, in order.
\<close>

definition ctx_new ::
  "bytes \<Rightarrow> 'r \<Rightarrow> Store \<Rightarrow> 'c \<Rightarrow> Meter \<Rightarrow> VmConfig \<Rightarrow> ('r, 'c) WapoCtx" where
  "ctx_new vid calls blobs cache m conf =
     \<lparr> vm_id = vid, resources = [], temp_return_value = None, ocall_trace_enabled = False,
       query_tx = None, http_connect_tx = None,
       wakers_heap = \<lparr> waker_tasks = Some with_task0, cells = [], next_cell = 0, parents_woken = [] \<rparr>,
       weight = 1, runtime = calls, meter = m, blob_store = blobs, blob_cache = cache,
       config = conf, sent = [], pushed = [] \<rparr>"

definition charge :: "u64 \<Rightarrow> ('r, 'c) WapoCtx \<Rightarrow> ('r, 'c) WapoCtx" where
  "charge gas ctx = ctx\<lparr>meter := record_gas gas (meter ctx)\<rparr>"

definition update_meter :: "(Meter \<Rightarrow> Meter) \<Rightarrow> ('r, 'c) WapoCtx \<Rightarrow> ('r, 'c) WapoCtx" where
  "update_meter f ctx = ctx\<lparr>meter := f (meter ctx)\<rparr>"

definition update_tasks :: "(TaskSet \<Rightarrow> TaskSet) \<Rightarrow> ('r, 'c) WapoCtx \<Rightarrow> ('r, 'c) WapoCtx" where
  "update_tasks f ctx =
     ctx\<lparr>wakers_heap := (wakers_heap ctx)\<lparr>waker_tasks := map_option f (waker_tasks (wakers_heap ctx))\<rparr>\<rparr>"

definition ctx_push :: "Resource \<Rightarrow> ('r, 'c) WapoCtx \<Rightarrow> (i32, OcallError) result \<times> ('r, 'c) WapoCtx" where
  "ctx_push res ctx = (let (r, t) = table_push res (resources ctx) in (r, ctx\<lparr>resources := t\<rparr>))"

definition ctx_close :: "i32 \<Rightarrow> ('r, 'c) WapoCtx \<Rightarrow> (unit, OcallError) result \<times> ('r, 'c) WapoCtx" where
  "ctx_close resource_id ctx =
     (let (taken, t) = table_take resource_id (resources ctx); ctx' = ctx\<lparr>resources := t\<rparr>
      in case taken of None \<Rightarrow> (Err NotFound, ctx') | Some _ \<Rightarrow> (Ok (), ctx'))"

definition has_more_ready_tasks :: "('r, 'c) WapoCtx \<Rightarrow> bool" where
  "has_more_ready_tasks ctx =
     (case waker_tasks (wakers_heap ctx) of None \<Rightarrow> False | Some ts \<Rightarrow> \<not> taskset_is_empty ts)"

definition set_weight :: "u32 \<Rightarrow> ('r, 'c) WapoCtx \<Rightarrow> ('r, 'c) WapoCtx" where
  "set_weight w ctx = ctx\<lparr>weight := w\<rparr>"

text \<open>
  A poll context is a waker for the guest's id, made at the start of a call and dropped at its
  end; if the object polled kept a clone, the waker stays alive.
\<close>

definition make_poll_context ::
  "HostEnv \<Rightarrow> i32 \<Rightarrow> ('r, 'c) WapoCtx \<Rightarrow> nat \<times> ('r, 'c) WapoCtx" where
  "make_poll_context env wid ctx =
     (let (c, h) = from_id wid (cur_task env) (cur_parent env) (wakers_heap ctx)
      in (c, ctx\<lparr>wakers_heap := h\<rparr>))"

definition end_poll_context :: "bool \<Rightarrow> nat \<Rightarrow> ('r, 'c) WapoCtx \<Rightarrow> ('r, 'c) WapoCtx" where
  "end_poll_context kept c ctx =
     (let h = (if kept then clone_waker c (wakers_heap ctx) else wakers_heap ctx)
      in ctx\<lparr>wakers_heap := drop_waker c h\<rparr>)"

definition put_return :: "bytes \<Rightarrow> ('r, 'c) WapoCtx \<Rightarrow> nat \<times> ('r, 'c) WapoCtx" where
  "put_return rv ctx = (length rv, ctx\<lparr>temp_return_value := Some rv\<rparr>)"

definition take_return :: "('r, 'c) WapoCtx \<Rightarrow> bytes option \<times> ('r, 'c) WapoCtx" where
  "take_return ctx = (temp_return_value ctx, ctx\<lparr>temp_return_value := None\<rparr>)"

section \<open>Ocalls on resources\<close>

definition ocall_close ::
  "i32 \<Rightarrow> ('r, 'c) WapoCtx \<Rightarrow> (unit, OcallError) result \<times> ('r, 'c) WapoCtx" where
  "ocall_close resource_id ctx = ctx_close resource_id (charge 200 ctx)"

definition ocall_poll ::
  "HostEnv \<Rightarrow> i32 \<Rightarrow> i32 \<Rightarrow> ('r, 'c) WapoCtx \<Rightarrow> (bytes, OcallError) result \<times> ('r, 'c) WapoCtx" where
  "ocall_poll env wid resource_id ctx =
     (let (c, ctx1) = make_poll_context env wid (charge 200 ctx)
      in case table_get resource_id (resources ctx1) of
           Err e \<Rightarrow> (Err e, end_poll_context False c ctx1)
         | Ok res \<Rightarrow> (resource_poll (IoEnv.truncate env) res, end_poll_context (retains env) c ctx1))"

definition ocall_poll_read ::
  "HostEnv \<Rightarrow> i32 \<Rightarrow> i32 \<Rightarrow> nat \<Rightarrow> ('r, 'c) WapoCtx \<Rightarrow>
   ((u32 \<times> bytes, OcallError) result \<times> ('r, 'c) WapoCtx) option" where
  "ocall_poll_read env wid resource_id buf_len ctx =
     (let (c, ctx1) = make_poll_context env wid (charge 200 ctx)
      in case table_get resource_id (resources ctx1) of
           Err e \<Rightarrow> Some (Err e, end_poll_context False c ctx1)
         | Ok res \<Rightarrow>
             map_option (\<lambda>(r, res', m).
                 (r, end_poll_context (retains env) c
                       (ctx1\<lparr>resources := table_set resource_id res' (resources ctx1), meter := m\<rparr>)))
               (resource_poll_read (IoEnv.truncate env) buf_len res (meter ctx1)))"

definition ocall_poll_write ::
  "HostEnv \<Rightarrow> i32 \<Rightarrow> i32 \<Rightarrow> bytes \<Rightarrow> ('r, 'c) WapoCtx \<Rightarrow>
   ((u32, OcallError) result \<times> ('r, 'c) WapoCtx) option" where
  "ocall_poll_write env wid resource_id data ctx =
     (let (c, ctx1) = make_poll_context env wid (charge 200 ctx)
      in case table_get resource_id (resources ctx1) of
           Err e \<Rightarrow> Some (Err e, end_poll_context False c ctx1)
         | Ok res \<Rightarrow>
             map_option (\<lambda>(r, res', m).
                 (r, end_poll_context (retains env) c
                       (ctx1\<lparr>resources := table_set resource_id res' (resources ctx1), meter := m\<rparr>)))
               (resource_poll_write (IoEnv.truncate env) data res (meter ctx1)))"

definition ocall_poll_shutdown ::
  "HostEnv \<Rightarrow> i32 \<Rightarrow> i32 \<Rightarrow> ('r, 'c) WapoCtx \<Rightarrow> (unit, OcallError) result \<times> ('r, 'c) WapoCtx" where
  "ocall_poll_shutdown env wid resource_id ctx =
     (let (c, ctx1) = make_poll_context env wid (charge 200 ctx)
      in case table_get resource_id (resources ctx1) of
           Err e \<Rightarrow> (Err e, end_poll_context False c ctx1)
         | Ok res \<Rightarrow>
             (let (r, res', m) = resource_poll_shutdown (IoEnv.truncate env) res (meter ctx1)
              in (r, end_poll_context (retains env) c
                       (ctx1\<lparr>resources := table_set resource_id res' (resources ctx1), meter := m\<rparr>))))"

definition ocall_poll_res ::
  "HostEnv \<Rightarrow> i32 \<Rightarrow> i32 \<Rightarrow> ('r, 'c) WapoCtx \<Rightarrow> (i32, OcallError) result \<times> ('r, 'c) WapoCtx" where
  "ocall_poll_res env wid resource_id ctx =
     (let (c, ctx1) = make_poll_context env wid (charge 200 ctx)
      in case table_get resource_id (resources ctx1) of
           Err e \<Rightarrow> (Err e, end_poll_context False c ctx1)
         | Ok res \<Rightarrow>
             (let (r, m) = resource_poll_res (IoEnv.truncate env) res (meter ctx1);
                  ctx2 = end_poll_context (retains env) c (ctx1\<lparr>meter := m\<rparr>)
              in case r of Err e \<Rightarrow> (Err e, ctx2) | Ok new_res \<Rightarrow> ctx_push new_res ctx2))"

section \<open>Ocalls on tasks and timers\<close>

definition ocall_mark_task_ready ::
  "i32 \<Rightarrow> ('r, 'c) WapoCtx \<Rightarrow> (unit, OcallError) result \<times> ('r, 'c) WapoCtx" where
  "ocall_mark_task_ready task_id ctx = (Ok (), update_tasks (push_task task_id) (charge 200 ctx))"

definition ocall_next_ready_task ::
  "('r, 'c) WapoCtx \<Rightarrow> (i32, OcallError) result \<times> ('r, 'c) WapoCtx" where
  "ocall_next_ready_task ctx =
     (let ctx1 = charge 200 ctx
      in case waker_tasks (wakers_heap ctx1) of
           None \<Rightarrow> (Err NotFound, ctx1)
         | Some ts \<Rightarrow> (ok_or (fst (pop_task ts)) NotFound, update_tasks (\<lambda>ts. snd (pop_task ts)) ctx1))"

definition ocall_awake_wakers ::
  "('r, 'c) WapoCtx \<Rightarrow> (i32 list, OcallError) result \<times> ('r, 'c) WapoCtx" where
  "ocall_awake_wakers ctx =
     (let ctx1 = charge 500 ctx
      in case waker_tasks (wakers_heap ctx1) of
           None \<Rightarrow> (Ok [], ctx1)
         | Some ts \<Rightarrow>
             (Ok (fst (drain_awake_wakers ts)), update_tasks (\<lambda>ts. snd (drain_awake_wakers ts)) ctx1))"

definition ocall_create_timer ::
  "HostEnv \<Rightarrow> i32 \<Rightarrow> ('r, 'c) WapoCtx \<Rightarrow> (i32, OcallError) result \<times> ('r, 'c) WapoCtx" where
  "ocall_create_timer env timeout ctx = ctx_push (Sleep (new_handle env)) (charge 500 ctx)"

definition ocall_reset_timer ::
  "HostEnv \<Rightarrow> i32 \<Rightarrow> i32 \<Rightarrow> ('r, 'c) WapoCtx \<Rightarrow> (unit, OcallError) result \<times> ('r, 'c) WapoCtx" where
  "ocall_reset_timer env rid timeout ctx =
     (let ctx1 = charge 300 ctx
      in case table_get rid (resources ctx1) of
           Err e \<Rightarrow> (Err e, ctx1)
         | Ok (Sleep h) \<Rightarrow>
             (if deadline_ok env (word_of_int (sint timeout)) then (Ok (), ctx1)
              else (Err InvalidParameter, ctx1))
         | Ok _ \<Rightarrow> (Err InvalidParameter, ctx1))"

definition ocall_enable_ocall_trace ::
  "bool \<Rightarrow> ('r, 'c) WapoCtx \<Rightarrow> (unit, OcallError) result \<times> ('r, 'c) WapoCtx" where
  "ocall_enable_ocall_trace enable ctx = (Ok (), (charge 100 ctx)\<lparr>ocall_trace_enabled := enable\<rparr>)"

definition ocall_getrandom ::
  "HostEnv \<Rightarrow> nat \<Rightarrow> ('r, 'c) WapoCtx \<Rightarrow> (bytes, OcallError) result \<times> ('r, 'c) WapoCtx" where
  "ocall_getrandom env buf_len ctx = (Ok (random_bytes env buf_len), charge (of_nat buf_len * 10) ctx)"

section \<open>Ocalls on the network\<close>

definition ocall_tcp_listen ::
  "HostEnv \<Rightarrow> string \<Rightarrow> TlsServerConfig option \<Rightarrow> ('r, 'c) WapoCtx \<Rightarrow>
   (i32, OcallError) result \<times> ('r, 'c) WapoCtx" where
  "ocall_tcp_listen env addr tls ctx =
     (let ctx1 = charge 1000 ctx
      in case socket_port env addr of
           None \<Rightarrow> (Err InvalidParameter, ctx1)
         | Some port \<Rightarrow>
             (if \<not> (fst (tcp_listen_port_range (config ctx1)) \<le> port \<and>
                    port \<le> snd (tcp_listen_port_range (config ctx1)))
              then (Err Forbiden, ctx1)
              else
                case bind_listener env addr of
                  Err _ \<Rightarrow> (Err IoError, ctx1)
                | Ok listener \<Rightarrow>
                    (case tls of
                       None \<Rightarrow> ctx_push (TcpListener listener None) ctx1
                     | Some c \<Rightarrow>
                         (case tls_server_config env c of
                            Err e \<Rightarrow> (Err e, ctx1)
                          | Ok conf \<Rightarrow> ctx_push (TcpListener listener (Some conf)) ctx1))))"

text \<open>The last part of accepting: the new stream gets an id of its own.\<close>

definition push_accepted ::
  "Resource \<Rightarrow> string \<Rightarrow> ('r, 'c) WapoCtx \<Rightarrow> (i32 \<times> string, OcallError) result \<times> ('r, 'c) WapoCtx" where
  "push_accepted res addr ctx =
     (let (r, ctx') = ctx_push res ctx in (map_ok (\<lambda>res_id. (res_id, addr)) r, ctx'))"

definition ocall_tcp_accept ::
  "HostEnv \<Rightarrow> i32 \<Rightarrow> i32 \<Rightarrow> ('r, 'c) WapoCtx \<Rightarrow> (i32 \<times> string, OcallError) result \<times> ('r, 'c) WapoCtx" where
  "ocall_tcp_accept env wid tcp_res_id ctx =
     (let (c, ctx1) = make_poll_context env wid (charge 1000 ctx)
      in case table_get tcp_res_id (resources ctx1) of
           Err e \<Rightarrow> (Err e, end_poll_context False c ctx1)
         | Ok (TcpListener listener tls) \<Rightarrow>
             (let ctx2 = end_poll_context (retains env) c ctx1
              in case tcp_accepting env listener of
                   Pend \<Rightarrow> (Err Pending, ctx2)
                 | Ready (Err _) \<Rightarrow> (Err IoError, ctx2)
                 | Ready (Ok (stream, addr)) \<Rightarrow>
                     (let ctx3 = update_meter (record_net_ingress 128) ctx2
                      in case tls of
                           Some tls_config \<Rightarrow>
                             push_accepted (TlsStream (tls_accept (tls_acceptor env) stream tls_config)) addr
                               (update_meter (record_net_egress 1024)
                                 (update_meter (record_net_ingress 1024) ctx3))
                         | None \<Rightarrow> push_accepted (TcpStream stream) addr ctx3))
         | Ok (SniSubscription sub) \<Rightarrow>
             (let ctx2 = end_poll_context (retains env) c ctx1
              in case sni_next env sub of
                   Pend \<Rightarrow> (Err Pending, ctx2)
                 | Ready None \<Rightarrow> (Err EndOfFile, ctx2)
                 | Ready (Some (stream, addr)) \<Rightarrow>
                     push_accepted (TlsStream (ServerStreaming stream)) addr
                       (update_meter (record_net_egress 1024)
                         (update_meter (record_net_ingress 1024) ctx2)))
         | Ok _ \<Rightarrow> (Err UnsupportedOperation, end_poll_context False c ctx1))"

definition ocall_tcp_accept_no_addr ::
  "HostEnv \<Rightarrow> i32 \<Rightarrow> i32 \<Rightarrow> ('r, 'c) WapoCtx \<Rightarrow> (i32, OcallError) result \<times> ('r, 'c) WapoCtx" where
  "ocall_tcp_accept_no_addr env wid resource_id ctx =
     (let (r, ctx') = ocall_tcp_accept env wid resource_id ctx in (map_ok fst r, ctx'))"

definition ocall_tcp_connect ::
  "'r RuntimeCalls \<Rightarrow> HostEnv \<Rightarrow> string \<Rightarrow> u16 \<Rightarrow> ('r, 'c) WapoCtx \<Rightarrow>
   (i32, OcallError) result \<times> ('r, 'c) WapoCtx" where
  "ocall_tcp_connect RC env host port ctx =
     (let ctx1 = charge 1000 ctx
      in if length host > 253 then (Err InvalidParameter, ctx1)
         else if \<not> rc_tcp_connect_allowed RC host (runtime ctx1) then (Err Forbiden, ctx1)
         else ctx_push (TcpConnect (new_handle env)) (update_meter record_tcp_connect_start ctx1))"

definition ocall_tcp_connect_tls ::
  "'r RuntimeCalls \<Rightarrow> HostEnv \<Rightarrow> string \<Rightarrow> u16 \<Rightarrow> ('r, 'c) WapoCtx \<Rightarrow>
   (i32, OcallError) result \<times> ('r, 'c) WapoCtx" where
  "ocall_tcp_connect_tls RC env host port ctx =
     (let ctx1 = charge 1000 ctx
      in if length host > 253 then (Err InvalidParameter, ctx1)
         else if \<not> rc_tcp_connect_allowed RC host (runtime ctx1) then (Err Forbiden, ctx1)
         else if \<not> server_name_ok env host then (Err InvalidParameter, ctx1)
         else ctx_push (TlsConnect (new_handle env)) (update_meter record_tls_connect_start ctx1))"

fun ocall_tls_listen_sni ::
  "HostEnv \<Rightarrow> string \<Rightarrow> TlsServerConfig \<Rightarrow> ('r, 'c) WapoCtx \<Rightarrow>
   (i32, OcallError) result \<times> ('r, 'c) WapoCtx" where
  "ocall_tls_listen_sni env sni (ServerConfigV0 cert key) ctx =
     (let ctx1 = charge 1000 ctx
      in case sni_tls_listener (config ctx1) of
           None \<Rightarrow> (Err Forbiden, ctx1)
         | Some listener \<Rightarrow>
             (case sni_certified_key env cert key of
                None \<Rightarrow> (Err InvalidParameter, ctx1)
              | Some certified_key \<Rightarrow>
                  (case sni_subscribe env listener sni certified_key of
                     None \<Rightarrow> (Err InvalidParameter, ctx1)
                   | Some subscription \<Rightarrow>
                       ctx_push (SniSubscription subscription) (charge 10000 ctx1))))"

section \<open>Ocalls on channels\<close>

text \<open>
  Sending on a oneshot resource takes the sender out of it first, so that a second attempt
  finds none; the send fails if the receiver is gone.
\<close>

definition oneshot_reply ::
  "HostEnv \<Rightarrow> i32 \<Rightarrow> (bytes, string) result \<Rightarrow> ('r, 'c) WapoCtx \<Rightarrow>
   (unit, OcallError) result \<times> ('r, 'c) WapoCtx" where
  "oneshot_reply env resource_id msg ctx =
     (case table_get resource_id (resources ctx) of
        Err e \<Rightarrow> (Err e, ctx)
      | Ok (OneshotTx (Some sender)) \<Rightarrow>
          (let ctx1 = ctx\<lparr>resources := table_set resource_id (OneshotTx None) (resources ctx)\<rparr>
           in if oneshot_open env sender then (Ok (), ctx1\<lparr>sent := sent ctx1 @ [(sender, msg)]\<rparr>)
              else (Err IoError, ctx1))
      | Ok (OneshotTx None) \<Rightarrow> (Err IoError, ctx)
      | Ok _ \<Rightarrow> (Err UnsupportedOperation, ctx))"

definition ocall_oneshot_send ::
  "HostEnv \<Rightarrow> i32 \<Rightarrow> bytes \<Rightarrow> ('r, 'c) WapoCtx \<Rightarrow> (unit, OcallError) result \<times> ('r, 'c) WapoCtx" where
  "ocall_oneshot_send env resource_id data ctx =
     oneshot_reply env resource_id (Ok data) (charge (1000 + of_nat (length data) div 128) ctx)"

definition ocall_oneshot_send_error ::
  "HostEnv \<Rightarrow> i32 \<Rightarrow> string \<Rightarrow> ('r, 'c) WapoCtx \<Rightarrow> (unit, OcallError) result \<times> ('r, 'c) WapoCtx" where
  "ocall_oneshot_send_error env resource_id err ctx =
     oneshot_reply env resource_id (Err err) (charge (1000 + of_nat (length err) div 128) ctx)"

fun ocall_create_input_channel ::
  "'r RuntimeCalls \<Rightarrow> HostEnv \<Rightarrow> InputChannel \<Rightarrow> ('r, 'c) WapoCtx \<Rightarrow>
   (i32, OcallError) result \<times> ('r, 'c) WapoCtx" where
  "ocall_create_input_channel RC env ChQuery ctx =
     (let ctx1 = charge 1000 ctx
      in if query_tx ctx1 \<noteq> None then (Err AlreadyExists, ctx1)
         else
           (case ctx_push (ChannelRx (new_handle env)) ctx1 of
              (Err e, ctx2) \<Rightarrow> (Err e, ctx2)
            | (Ok res, ctx2) \<Rightarrow>
                (Ok res, ctx2\<lparr>query_tx := Some (new_handle env),
                              runtime := rc_query_listened RC (runtime ctx2)\<rparr>)))"
| "ocall_create_input_channel RC env ChHttpRequest ctx =
     (let ctx1 = charge 1000 ctx
      in if http_connect_tx ctx1 \<noteq> None then (Err AlreadyExists, ctx1)
         else
           (case ctx_push (ChannelRx (new_handle env)) ctx1 of
              (Err e, ctx2) \<Rightarrow> (Err e, ctx2)
            | (Ok res, ctx2) \<Rightarrow> (Ok res, ctx2\<lparr>http_connect_tx := Some (new_handle env)\<rparr>)))"

section \<open>Other ocalls\<close>

definition ocall_log ::
  "'r RuntimeCalls \<Rightarrow> Level \<Rightarrow> string \<Rightarrow> ('r, 'c) WapoCtx \<Rightarrow> (unit, OcallError) result \<times> ('r, 'c) WapoCtx" where
  "ocall_log RC level message ctx =
     (let ctx1 = charge (of_nat (length message)) ctx
      in (Ok (), ctx1\<lparr>runtime := rc_log RC level message (runtime ctx1)\<rparr>))"

definition ocall_app_address ::
  "('r, 'c) WapoCtx \<Rightarrow> (bytes, OcallError) result \<times> ('r, 'c) WapoCtx" where
  "ocall_app_address ctx = (Ok (vm_id ctx), charge 100 ctx)"

definition ocall_emit_program_output ::
  "'r RuntimeCalls \<Rightarrow> bytes \<Rightarrow> ('r, 'c) WapoCtx \<Rightarrow> (unit, OcallError) result \<times> ('r, 'c) WapoCtx" where
  "ocall_emit_program_output RC output ctx =
     (let ctx1 = charge (of_nat (length output) div 128) ctx
      in (Ok (), ctx1\<lparr>runtime := rc_emit_output RC output (runtime ctx1)\<rparr>))"

definition ocall_blob_get ::
  "HostEnv \<Rightarrow> string \<Rightarrow> ('r, 'c) WapoCtx \<Rightarrow> (bytes, OcallError) result \<times> ('r, 'c) WapoCtx" where
  "ocall_blob_get env hash_str ctx =
     (let ctx1 = charge 100 ctx
      in case get_object (blob_libs env) (fs_fails env) hash_str (blob_store ctx1) of
           Err _ \<Rightarrow> (Err IoError, ctx1)
         | Ok None \<Rightarrow> (Err NotFound, ctx1)
         | Ok (Some obj) \<Rightarrow> (Ok obj, charge (of_nat (length obj) div 128) ctx1))"

definition ocall_sign ::
  "'r RuntimeCalls \<Rightarrow> bytes \<Rightarrow> ('r, 'c) WapoCtx \<Rightarrow> (bytes, OcallError) result \<times> ('r, 'c) WapoCtx" where
  "ocall_sign RC data ctx =
     (if length data > 1024 * 1024 * 8 then (Err InvalidParameter, charge 100 ctx)
      else
        (let ctx1 = charge (1000 + of_nat (length data)) ctx
         in (Ok (rc_sign_app_data RC data (runtime ctx1)), ctx1)))"

definition ocall_worker_pubkey ::
  "'r RuntimeCalls \<Rightarrow> ('r, 'c) WapoCtx \<Rightarrow> (bytes, OcallError) result \<times> ('r, 'c) WapoCtx" where
  "ocall_worker_pubkey RC ctx = (Ok (rc_worker_pubkey RC (runtime ctx)), charge 100 ctx)"

definition ocall_sgx_quote ::
  "'r RuntimeCalls \<Rightarrow> bytes \<Rightarrow> ('r, 'c) WapoCtx \<Rightarrow>
   (bytes option, OcallError) result \<times> ('r, 'c) WapoCtx" where
  "ocall_sgx_quote RC data ctx =
     (if length data > 1024 * 1024 * 8 then (Err InvalidParameter, charge 100 ctx)
      else
        (let ctx1 = charge (1000 + of_nat (length data)) ctx
         in (Ok (rc_sgx_quote_app_data RC data (runtime ctx1)), ctx1)))"

definition ocall_tip ::
  "u64 \<Rightarrow> ('r, 'c) WapoCtx \<Rightarrow> (unit, OcallError) result \<times> ('r, 'c) WapoCtx" where
  "ocall_tip value ctx = (Ok (), update_meter (add_tip value) (charge 100 ctx))"

definition ocall_app_gas_consumed ::
  "'r RuntimeCalls \<Rightarrow> ('r, 'c) WapoCtx \<Rightarrow> (u64 \<times> MetricsToken, OcallError) result \<times> ('r, 'c) WapoCtx" where
  "ocall_app_gas_consumed RC ctx =
     (let ctx1 = charge 1000 ctx; ((metrics, token), rt) = rc_app_metrics RC (runtime ctx1)
      in (Ok (m_gas_consumed metrics, token), ctx1\<lparr>runtime := rt\<rparr>))"

definition ocall_derive_secret ::
  "'r RuntimeCalls \<Rightarrow> bytes \<Rightarrow> ('r, 'c) WapoCtx \<Rightarrow> (bytes, OcallError) result \<times> ('r, 'c) WapoCtx" where
  "ocall_derive_secret RC path ctx =
     (let ctx1 = charge (1000 + of_nat (length path)) ctx
      in if length path > 256 then (Err InvalidParameter, ctx1)
         else (Ok (rc_derive_secret RC path (runtime ctx1)), ctx1))"

definition ocall_app_try_lock ::
  "'r RuntimeCalls \<Rightarrow> string \<Rightarrow> ('r, 'c) WapoCtx \<Rightarrow> (unit, OcallError) result \<times> ('r, 'c) WapoCtx" where
  "ocall_app_try_lock RC path ctx =
     (let (locked, rt) = rc_try_lock RC path (runtime ctx); ctx1 = ctx\<lparr>runtime := rt\<rparr>
      in if locked then (Ok (), ctx1) else (Err ConditionError, ctx1))"

definition ocall_app_unlock ::
  "'r RuntimeCalls \<Rightarrow> string \<Rightarrow> ('r, 'c) WapoCtx \<Rightarrow> (unit, OcallError) result \<times> ('r, 'c) WapoCtx" where
  "ocall_app_unlock RC path ctx =
     (let (unlocked, rt) = rc_unlock RC path (runtime ctx); ctx1 = ctx\<lparr>runtime := rt\<rparr>
      in if unlocked then (Ok (), ctx1) else (Err ConditionError, ctx1))"

section \<open>Boot data\<close>

definition MAX_BOOT_DATA_SIZE :: nat where
  "MAX_BOOT_DATA_SIZE = 1024 * 64"

definition boot_filename :: "BlobLibs \<Rightarrow> bytes \<Rightarrow> string" where
  "boot_filename L vid = hex_encode L vid @ ''-bootdata''"

definition encrypt :: "HostEnv \<Rightarrow> bytes \<Rightarrow> bytes \<Rightarrow> (bytes, OcallError) result" where
  "encrypt env data key =
     (let nonce = random_bytes env 12
      in and_then (ok_or (aead_encrypt env (take 32 key) nonce data) IoError) (\<lambda>c. Ok (c @ nonce)))"

text \<open>
  \<open>data.len() - NONCE_LEN\<close> wraps for data shorter than a nonce, and the slice from there
  is out of range: an error, not a panic.
\<close>

definition decrypt :: "HostEnv \<Rightarrow> bytes \<Rightarrow> bytes \<Rightarrow> (bytes, OcallError) result" where
  "decrypt env data key =
     (let start = unat (of_nat (length data) - 12 :: 64 word)
      in if start > length data then Err IoError
         else
           (let nonce = drop start data; body = take start data
            in ok_or (aead_decrypt env (take 32 key) nonce body) IoError))"

definition enc_bootdata :: bytes where
  "enc_bootdata = map (\<lambda>c. of_nat (of_char c)) ''enc_bootdata''"

definition ocall_read_boot_data ::
  "'r RuntimeCalls \<Rightarrow> 'c Lru \<Rightarrow> HostEnv \<Rightarrow> ('r, 'c) WapoCtx \<Rightarrow>
   (bytes option, OcallError) result \<times> ('r, 'c) WapoCtx" where
  "ocall_read_boot_data RC C env ctx =
     (let blob_name = boot_filename (blob_libs env) (vm_id ctx);
          (r, st, cache) = get_raw C (fs_fails env) blob_name MAX_BOOT_DATA_SIZE
                             (blob_store ctx, blob_cache ctx);
          ctx1 = ctx\<lparr>blob_store := st, blob_cache := cache\<rparr>
      in case r of
           Err _ \<Rightarrow> (Err IoError, ctx1)
         | Ok None \<Rightarrow> (Ok None, ctx1)
         | Ok (Some encrypted) \<Rightarrow>
             (case ocall_derive_secret RC enc_bootdata ctx1 of
                (Err e, ctx2) \<Rightarrow> (Err e, ctx2)
              | (Ok encrypt_key, ctx2) \<Rightarrow>
                  (map_ok Some (or_err (decrypt env encrypted encrypt_key) IoError), ctx2)))"

definition ocall_write_boot_data ::
  "'r RuntimeCalls \<Rightarrow> 'c Lru \<Rightarrow> HostEnv \<Rightarrow> bytes \<Rightarrow> ('r, 'c) WapoCtx \<Rightarrow>
   (unit, OcallError) result \<times> ('r, 'c) WapoCtx" where
  "ocall_write_boot_data RC C env data ctx =
     (if length data > MAX_BOOT_DATA_SIZE then (Err InvalidParameter, charge 100 ctx)
      else
        (let blob_name = boot_filename (blob_libs env) (vm_id ctx)
         in case ocall_derive_secret RC enc_bootdata ctx of
              (Err e, ctx1) \<Rightarrow> (Err e, ctx1)
            | (Ok encrypt_key, ctx1) \<Rightarrow>
                (case or_err (encrypt env data encrypt_key) IoError of
                   Err e \<Rightarrow> (Err e, ctx1)
                 | Ok encrypted \<Rightarrow>
                     (let (r, st, cache) = put_raw C (fs_fails env) (fs_partial env) blob_name encrypted
                                             (blob_store ctx1, blob_cache ctx1)
                      in (or_err r IoError, ctx1\<lparr>blob_store := st, blob_cache := cache\<rparr>)))))"

section \<open>Messages to the guest\<close>

datatype push_error = PushFailed OcallError | ChannelFull

definition push_query ::
  "HostEnv \<Rightarrow> bytes option \<Rightarrow> string \<Rightarrow> bytes \<Rightarrow> handle \<Rightarrow> ('r, 'c) WapoCtx \<Rightarrow>
   (unit, push_error) result \<times> ('r, 'c) WapoCtx" where
  "push_query env from_account path payload reply ctx =
     (case query_tx ctx of
        None \<Rightarrow> (Ok (), ctx)
      | Some tx \<Rightarrow>
          (case ctx_push (OneshotTx (Some reply)) ctx of
             (Err e, ctx1) \<Rightarrow> (Err (PushFailed e), ctx1)
           | (Ok reply_tx, ctx1) \<Rightarrow>
               (if chan_room env tx
                then (Ok (), ctx1\<lparr>pushed := pushed ctx1 @ [(tx, QueryRequest from_account path payload reply_tx)]\<rparr>)
                else (Err ChannelFull, snd (ctx_close reply_tx ctx1)))))"

definition push_http_request ::
  "HostEnv \<Rightarrow> string \<Rightarrow> handle \<Rightarrow> ('r, 'c) WapoCtx \<Rightarrow>
   (unit, push_error) result \<times> ('r, 'c) WapoCtx" where
  "push_http_request env head body_stream ctx =
     (case http_connect_tx ctx of
        None \<Rightarrow> (Ok (), ctx)
      | Some connect_tx \<Rightarrow>
          (case ctx_push (OneshotTx (Some (new_handle env))) ctx of
             (Err e, ctx1) \<Rightarrow> (Err (PushFailed e), ctx1)
           | (Ok response_tx, ctx1) \<Rightarrow>
               (case ctx_push (DuplexStream body_stream) ctx1 of
                  (Err e, ctx2) \<Rightarrow> (Err (PushFailed e), snd (ctx_close response_tx ctx2))
                | (Ok io_stream, ctx2) \<Rightarrow>
                    (if chan_room env connect_tx
                     then (Ok (), ctx2\<lparr>pushed := pushed ctx2 @ [(connect_tx, HttpRequest head response_tx io_stream)]\<rparr>)
                     else (Err ChannelFull,
                           snd (ctx_close io_stream (snd (ctx_close response_tx ctx2))))))))"

end
