(* ===== verification/Ocall_Dispatch.thy ===== *)
theory Ocall_Dispatch
  imports Vm_Context
begin

text \<open>
  From a guest's call to its handler: the ocall macro (\<open>wapo-macro/src/macro_ocall.rs\<close>) that parses
  the annotations of the ocall trait, rejects ambiguous ones and generates the dispatcher and the
  guest's stubs; the trait itself (\<open>wapo-env/src/ocall_def.rs\<close>); and the two-step return of values
  that do not fit into an integer. Rust syntax is given as the parsed attributes and arguments.
\<close>

section \<open>Parsing the annotations\<close>

datatype lit = LitInt int | LitOther

datatype meta_item = NameValue string lit | MetaPath string | OtherMeta

datatype ocall_attr = AttrList "meta_item list" | AttrOther

record OcallMethod =
  om_id :: i32
  om_encode_output :: bool
  om_encode_input :: bool
  om_name :: string
  om_refs :: "bool list"

text \<open>\<open>om_refs\<close> has an entry for every argument that is a reference: whether it is mutable.\<close>

datatype macro_error =
    BadInteger | IdTooSmall | ExpectedInteger | UnknownAttribute string | InvalidAttribute
  | AttributeNotAList | MissingId | DuplicateId i32 | MultipleRefs

type_synonym parsed = "i32 option \<times> bool \<times> bool"

fun parse_item :: "meta_item \<Rightarrow> parsed \<Rightarrow> (parsed, macro_error) result" where
  "parse_item (NameValue n l) (mid, enc_out, enc_in) =
     (if n = ''id''
      then (case l of
              LitInt v \<Rightarrow>
                (if \<not> (- (2 ^ 31) \<le> v \<and> v < 2 ^ 31) then Err BadInteger
                 else if v < 100 then Err IdTooSmall
                 else Ok (Some (word_of_int v), enc_out, enc_in))
            | LitOther \<Rightarrow> Err ExpectedInteger)
      else Err (UnknownAttribute n))"
| "parse_item (MetaPath p) (mid, enc_out, enc_in) =
     (if p = ''encode_input'' then Ok (mid, enc_out, True)
      else if p = ''encode_output'' then Ok (mid, True, enc_in)
      else Err (UnknownAttribute p))"
| "parse_item OtherMeta acc = Err InvalidAttribute"

fun parse_items :: "meta_item list \<Rightarrow> parsed \<Rightarrow> (parsed, macro_error) result" where
  "parse_items [] acc = Ok acc"
| "parse_items (i # is) acc = and_then (parse_item i acc) (parse_items is)"

fun parse_attrs :: "ocall_attr list \<Rightarrow> parsed \<Rightarrow> (parsed, macro_error) result" where
  "parse_attrs [] acc = Ok acc"
| "parse_attrs (AttrList is # as) acc = and_then (parse_items is acc) (parse_attrs as)"
| "parse_attrs (AttrOther # as) acc = Err AttributeNotAList"

definition ocall_method_parse ::
  "ocall_attr list \<Rightarrow> string \<Rightarrow> bool list \<Rightarrow> (OcallMethod, macro_error) result" where
  "ocall_method_parse attrs name ref_args =
     and_then (parse_attrs attrs (None, False, False)) (\<lambda>(mid, enc_out, enc_in).
       case mid of
         None \<Rightarrow> Err MissingId
       | Some i \<Rightarrow>
           Ok \<lparr> om_id = i, om_encode_output = enc_out, om_encode_input = enc_in, om_name = name,
                om_refs = ref_args \<rparr>)"

section \<open>Checks\<close>

fun redundant_loop :: "i32 list \<Rightarrow> OcallMethod list \<Rightarrow> (unit, macro_error) result" where
  "redundant_loop ids [] = Ok ()"
| "redundant_loop ids (m # ms) =
     (if om_id m \<in> set ids then Err (DuplicateId (om_id m)) else redundant_loop (ids @ [om_id m]) ms)"

definition check_redundant_ocall_id :: "OcallMethod list \<Rightarrow> (unit, macro_error) result" where
  "check_redundant_ocall_id methods = redundant_loop [] methods"

fun check_args_multi_ref :: "OcallMethod list \<Rightarrow> (unit, macro_error) result" where
  "check_args_multi_ref [] = Ok ()"
| "check_args_multi_ref (m # ms) =
     (let n_ref = length (om_refs m); has_mut_ref = (True \<in> set (om_refs m))
      in if has_mut_ref \<and> n_ref > 1 then Err MultipleRefs else check_args_multi_ref ms)"

section \<open>The generated code\<close>

datatype target = GetReturn | Handler OcallMethod | UnknownCall

text \<open>
  The two matches of \<open>dispatch_ocall\<close>: the arms in the order of the methods, those without
  \<open>encode_output\<close> in the first, the others in the second.
\<close>

definition dispatch_ocall :: "OcallMethod list \<Rightarrow> bool \<Rightarrow> i32 \<Rightarrow> target" where
  "dispatch_ocall methods fast_return cid =
     (if fast_return
      then (if cid = 0 then GetReturn
            else case find (\<lambda>m. om_id m = cid) (filter (\<lambda>m. \<not> om_encode_output m) methods) of
                   Some m \<Rightarrow> Handler m
                 | None \<Rightarrow> UnknownCall)
      else (case find (\<lambda>m. om_id m = cid) (filter om_encode_output methods) of
              Some m \<Rightarrow> Handler m
            | None \<Rightarrow> UnknownCall))"

definition ocall_id2name :: "OcallMethod list \<Rightarrow> i32 \<Rightarrow> string" where
  "ocall_id2name methods cid =
     (if cid = 0 then ''get_return''
      else case find (\<lambda>m. om_id m = cid) methods of Some m \<Rightarrow> om_name m | None \<Rightarrow> ''unknown'')"

text \<open>The call a guest's stub makes: whether it is the fast one, and the id.\<close>

definition stub_call :: "OcallMethod \<Rightarrow> bool \<times> i32" where
  "stub_call m = (\<not> om_encode_output m, om_id m)"

section \<open>The ocall trait\<close>

definition ocall_fn :: "i32 \<Rightarrow> bool \<Rightarrow> bool \<Rightarrow> string \<Rightarrow> bool list \<Rightarrow> OcallMethod" where
  "ocall_fn i enc_out enc_in name ref_args =
     \<lparr> om_id = i, om_encode_output = enc_out, om_encode_input = enc_in, om_name = name,
       om_refs = ref_args \<rparr>"

definition OcallFuncs :: "OcallMethod list" where
  "OcallFuncs =
    [ocall_fn 101 False False ''close'' [],
     ocall_fn 102 True False ''poll'' [],
     ocall_fn 103 False False ''poll_read'' [True],
     ocall_fn 104 False False ''poll_write'' [False],
     ocall_fn 105 False False ''poll_shutdown'' [],
     ocall_fn 106 False False ''poll_res'' [],
     ocall_fn 109 False False ''mark_task_ready'' [],
     ocall_fn 110 False False ''next_ready_task'' [],
     ocall_fn 111 False False ''enable_ocall_trace'' [],
     ocall_fn 112 True False ''awake_wakers'' [],
     ocall_fn 113 False False ''getrandom'' [True],
     ocall_fn 201 False False ''create_timer'' [],
     ocall_fn 203 False False ''reset_timer'' [],
     ocall_fn 202 False False ''oneshot_send'' [False],
     ocall_fn 204 False False ''oneshot_send_error'' [False],
     ocall_fn 210 False True ''tcp_listen'' [],
     ocall_fn 211 True False ''tcp_accept'' [],
     ocall_fn 212 False False ''tcp_accept_no_addr'' [],
     ocall_fn 213 False False ''tcp_connect'' [False],
     ocall_fn 214 False True ''tcp_connect_tls'' [],
     ocall_fn 215 False True ''tls_listen_sni'' [],
     ocall_fn 220 False False ''log'' [False],
     ocall_fn 240 True False ''create_input_channel'' [],
     ocall_fn 242 True False ''app_address'' [],
     ocall_fn 243 False False ''emit_program_output'' [False],
     ocall_fn 244 True False ''blob_get'' [False],
     ocall_fn 250 True False ''sign'' [False],
     ocall_fn 251 True False ''worker_pubkey'' [],
     ocall_fn 252 True False ''sgx_quote'' [False],
     ocall_fn 253 False False ''tip'' [],
     ocall_fn 254 True False ''app_gas_consumed'' [],
     ocall_fn 255 True False ''derive_secret'' [False],
     ocall_fn 260 True False ''read_boot_data'' [],
     ocall_fn 261 True False ''write_boot_data'' [False],
     ocall_fn 262 False False ''app_try_lock'' [False],
     ocall_fn 263 False False ''app_unlock'' [False]]"

section \<open>Returning encoded values\<close>

text \<open>
  A call with an encoded output leaves the bytes with the host and returns their number; the
  guest then allocates a buffer and fetches them with call 0. \<open>write_ok\<close> says whether the guest's
  memory can be written at the address; the bytes written are returned.
\<close>

definition slow_return ::
  "('a \<Rightarrow> bytes) \<Rightarrow> ('a, OcallError) result \<times> ('r, 'c) WapoCtx \<Rightarrow>
   (i32, OcallError) result \<times> ('r, 'c) WapoCtx" where
  "slow_return enc = (\<lambda>(ret, ctx).
     case ret of
       Err e \<Rightarrow> (Err e, ctx)
     | Ok v \<Rightarrow> (let (n, ctx') = put_return (enc v) ctx in (Ok (of_nat n), ctx')))"

definition call_get_return ::
  "(u32 \<Rightarrow> nat \<Rightarrow> bool) \<Rightarrow> IntPtr \<Rightarrow> IntPtr \<Rightarrow> ('r, 'c) WapoCtx \<Rightarrow>
   (i32 \<times> bytes, OcallError) result \<times> ('r, 'c) WapoCtx" where
  "call_get_return write_ok p0 p1 ctx =
     (case take_return ctx of
        (None, ctx') \<Rightarrow> (Err NotFound, ctx')
      | (Some buffer, ctx') \<Rightarrow>
          (let len = i32_as_usize p1
           in if length buffer \<noteq> len then (Err InvalidParameter, ctx')
              else if \<not> write_ok p0 len then (Err InvalidParameter, ctx')
              else (Ok (of_nat len, buffer), ctx')))"

definition guest_slow_call ::
  "('a \<Rightarrow> bytes) \<Rightarrow> (bytes \<Rightarrow> 'a option) \<Rightarrow> (u32 \<Rightarrow> nat \<Rightarrow> bool) \<Rightarrow> (nat \<Rightarrow> IntPtr) \<Rightarrow>
   ('a, OcallError) result \<times> ('r, 'c) WapoCtx \<Rightarrow>
   (('a, OcallError) result \<times> ('r, 'c) WapoCtx) option" where
  "guest_slow_call enc dec write_ok alloc_buffer handled =
     (case slow_return enc handled of
        (Err e, ctx1) \<Rightarrow> Some (Err e, ctx1)
      | (Ok len, ctx1) \<Rightarrow>
          (if sint len < 0 then None
           else
             (case call_get_return write_ok (alloc_buffer (unat len)) len ctx1 of
                (Err e, ctx2) \<Rightarrow> Some (Err e, ctx2)
              | (Ok (ret, buf), ctx2) \<Rightarrow>
                  (if ret \<noteq> len then None
                   else case dec buf of None \<Rightarrow> None | Some v \<Rightarrow> Some (Ok v, ctx2)))))"

section \<open>Lemmas\<close>

lemma redundant_loop_distinct:
  "redundant_loop ids ms = Ok () \<longleftrightarrow> distinct (map om_id ms) \<and> set (map om_id ms) \<inter> set ids = {}"
  by (induction ids ms rule: redundant_loop.induct) auto

lemma sint_word_of_int_i32: "- (2 ^ 31) \<le> v \<Longrightarrow> v < 2 ^ 31 \<Longrightarrow> sint (word_of_int v :: i32) = v"
  by (simp add: signed_of_int signed_take_bit_int_eq_self)

lemma parse_item_id:
  "parse_item i (mid, a, b) = Ok (mid', a', b') \<Longrightarrow>
   (\<forall>x. mid = Some x \<longrightarrow> 100 \<le> sint x) \<Longrightarrow> mid' = Some y \<Longrightarrow> 100 \<le> sint y"
  by (cases i) (auto simp: sint_word_of_int_i32 split: if_splits lit.splits)

lemma parse_items_id:
  "parse_items is (mid, a, b) = Ok (mid', a', b') \<Longrightarrow>
   (\<forall>x. mid = Some x \<longrightarrow> 100 \<le> sint x) \<Longrightarrow> mid' = Some y \<Longrightarrow> 100 \<le> sint y"
proof (induction "is" arbitrary: mid a b)
  case (Cons i "is")
  from Cons.prems(1) obtain m2 a2 b2 where i: "parse_item i (mid, a, b) = Ok (m2, a2, b2)"
    and r: "parse_items is (m2, a2, b2) = Ok (mid', a', b')"
    by (auto simp: and_then_eq_Ok)
  from Cons.IH [OF r _ Cons.prems(3)] parse_item_id [OF i Cons.prems(2)] show ?case by blast
qed simp

lemma parse_attrs_id:
  "parse_attrs as (mid, a, b) = Ok (mid', a', b') \<Longrightarrow>
   (\<forall>x. mid = Some x \<longrightarrow> 100 \<le> sint x) \<Longrightarrow> mid' = Some y \<Longrightarrow> 100 \<le> sint y"
proof (induction "as" arbitrary: mid a b)
  case (Cons x "as")
  then obtain "is" where x: "x = AttrList is" by (cases x) auto
  with Cons.prems(1) obtain m2 a2 b2 where i: "parse_items is (mid, a, b) = Ok (m2, a2, b2)"
    and r: "parse_attrs as (m2, a2, b2) = Ok (mid', a', b')"
    by (auto simp: and_then_eq_Ok)
  from Cons.IH [OF r _ Cons.prems(3)] parse_items_id [OF i Cons.prems(2)] show ?case by blast
qed simp

lemma ocall_method_parse_id: "ocall_method_parse attrs n ref_args = Ok m \<Longrightarrow> 100 \<le> sint (om_id m)"
  using parse_attrs_id [of attrs None False False]
  by (auto simp: ocall_method_parse_def and_then_eq_Ok split: option.splits)

lemma find_by_id:
  assumes "distinct (map om_id ms)" "m \<in> set ms" "P m"
  shows "find (\<lambda>x. om_id x = om_id m) (filter P ms) = Some m"
proof -
  have "x = m" if "x \<in> set ms" "om_id x = om_id m" for x
    using that assms(1,2) by (simp add: distinct_map inj_on_def)
  then have "\<forall>x \<in> set (filter P ms). om_id x = om_id m \<longrightarrow> x = m" by simp
  moreover have "m \<in> set (filter P ms)" using assms by simp
  ultimately show ?thesis by (induction ms) (auto split: if_splits)
qed

section \<open>Properties\<close>

text \<open>
  C24: a call reaches the handler it was made for: for every trait the macro accepts (each method's
  annotations parse and no id is used twice), the call a method's stub makes is dispatched to that
  method, and the same id on the other entry point, or the reserved id 0, never is.
\<close>

theorem stub_reaches_handler:
  assumes "\<forall>m \<in> set ms. \<exists>attrs n ref_args. ocall_method_parse attrs n ref_args = Ok m"
    and "check_redundant_ocall_id ms = Ok ()" and "m \<in> set ms"
  shows "dispatch_ocall ms (fst (stub_call m)) (snd (stub_call m)) = Handler m \<and>
    dispatch_ocall ms (\<not> fst (stub_call m)) (snd (stub_call m)) = UnknownCall \<and>
    dispatch_ocall ms True 0 = GetReturn"
proof -
  from assms(2) have d: "distinct (map om_id ms)"
    by (simp add: check_redundant_ocall_id_def redundant_loop_distinct)
  from assms(1,3) have nz: "om_id m \<noteq> 0" using ocall_method_parse_id by fastforce
  have uniq: "x = m" if "x \<in> set ms" "om_id x = om_id m" for x
    using that d assms(3) by (simp add: distinct_map inj_on_def)
  then have none: "find (\<lambda>x. om_id x = om_id m) (filter P ms) = None" if "\<not> P m" for P
    using that by (auto simp: find_None_iff)
  show ?thesis
    using find_by_id [OF d assms(3)] none nz
    by (cases "om_encode_output m") (simp_all add: dispatch_ocall_def stub_call_def)
qed

theorem stub_reaches_handler_witness:
  "dispatch_ocall [ocall_fn 101 False False ''close'' [], ocall_fn 102 True False ''poll'' []] False 102 =
   Handler (ocall_fn 102 True False ''poll'' [])"
proof -
  let ?ms = "[ocall_fn 101 False False ''close'' [], ocall_fn 102 True False ''poll'' []]"
  have "ocall_method_parse [AttrList [NameValue ''id'' (LitInt 101)]] ''close'' [] =
      Ok (ocall_fn 101 False False ''close'' [])"
    "ocall_method_parse [AttrList [NameValue ''id'' (LitInt 102), MetaPath ''encode_output'']] ''poll'' [] =
      Ok (ocall_fn 102 True False ''poll'' [])"
    by (simp_all add: ocall_method_parse_def ocall_fn_def)
  then have "\<forall>m \<in> set ?ms. \<exists>attrs n ref_args. ocall_method_parse attrs n ref_args = Ok m" by auto
  moreover have "check_redundant_ocall_id ?ms = Ok ()"
    by (simp add: check_redundant_ocall_id_def ocall_fn_def)
  ultimately show ?thesis
    using stub_reaches_handler [of ?ms "ocall_fn 102 True False ''poll'' []"]
    by (simp add: stub_call_def ocall_fn_def)
qed

text \<open>
  The ocall trait of the program passes the macro's checks: its 36 ids are distinct and above
  100, and no method takes a mutable reference together with another reference.
\<close>

lemma OcallFuncs_accepted:
  "check_redundant_ocall_id OcallFuncs = Ok () \<and> check_args_multi_ref OcallFuncs = Ok () \<and>
   list_all (\<lambda>m. 100 \<le> sint (om_id m)) OcallFuncs \<and> length OcallFuncs = 36"
  unfolding check_redundant_ocall_id_def redundant_loop_distinct
  by (intro conjI; simp add: OcallFuncs_def ocall_fn_def)

text \<open>
  An encoded value arrives whole: for a codec that decodes what it encoded, an output below 2 GiB
  and a writable buffer, the guest's stub returns exactly what the handler returned, an error
  as that error, and no output is left behind with the host after a success.
\<close>

lemma slow_call_roundtrip:
  assumes "\<And>v. dec (enc v) = Some v" "\<And>v. fst handled = Ok v \<Longrightarrow> length (enc v) < 2 ^ 31"
    and "\<And>p n. write_ok p n"
  shows "guest_slow_call enc dec write_ok alloc_buffer handled =
    Some (fst handled,
      case fst handled of Ok _ \<Rightarrow> (snd handled)\<lparr>temp_return_value := None\<rparr> | Err _ \<Rightarrow> snd handled)"
proof (cases "fst handled")
  case (Ok v)
  let ?n = "length (enc v)"
  from assms(2) [OF Ok] have n: "i32_as_usize (of_nat ?n) = ?n" "0 \<le> sint (of_nat ?n :: i32)"
    by (simp_all add: i32_as_usize_of_nat sint_i32_nonneg unsigned_of_nat take_bit_nat_eq_self)
  obtain ctx where h: "handled = (Ok v, ctx)" using Ok by (cases handled) simp
  show ?thesis
    unfolding h
    by (simp add: guest_slow_call_def slow_return_def put_return_def call_get_return_def take_return_def
        assms(1,3) n not_less Let_def)
next
  case (Err e)
  then show ?thesis by (cases handled) (simp add: guest_slow_call_def slow_return_def)
qed

end
