(* ===== verification/Guest_Tasks.thy ===== *)
theory Guest_Tasks
  imports Task_Set
begin

text \<open>
  Scheduling on the guest side (\<open>wapo-env/src/tasks.rs\<close>): the table of wakers whose ids are
  handed to the host, the table of tasks, spawning, and one call of the guest's poll function. The
  guest's own futures and wakers are given: what polling a future does is the argument \<open>run\<close>,
  what waking a waker does to the host's task set the argument \<open>wake\<close>. Panics abort the guest and are
  \<open>None\<close>.
\<close>

section \<open>Wakers\<close>

record 'w WakerTable =
  wakers :: "'w option list"
  cached_waker_ids :: "i32 list"

definition MAX_CACHE_WAKER_IDS :: nat where
  "MAX_CACHE_WAKER_IDS = 1024"

definition maybe_cache_waker_id :: "i32 \<Rightarrow> 'w WakerTable \<Rightarrow> 'w WakerTable" where
  "maybe_cache_waker_id wid t =
     (if length (cached_waker_ids t) < MAX_CACHE_WAKER_IDS
      then t\<lparr>cached_waker_ids := cached_waker_ids t @ [wid]\<rparr> else t)"

fun scan_free_wakers :: "nat \<Rightarrow> 'w option list \<Rightarrow> i32 list \<Rightarrow> i32 list" where
  "scan_free_wakers wid [] ids = ids"
| "scan_free_wakers wid (waker_ref # rest) ids =
     (if waker_ref = None
      then (let ids' = ids @ [of_nat wid]
            in if length ids' \<ge> MAX_CACHE_WAKER_IDS then ids' else scan_free_wakers (wid + 1) rest ids')
      else scan_free_wakers (wid + 1) rest ids)"

definition get_free_waker_id :: "'w WakerTable \<Rightarrow> i32 option \<times> 'w WakerTable" where
  "get_free_waker_id t =
     (let ids = (if cached_waker_ids t = [] then scan_free_wakers 0 (wakers t) [] else cached_waker_ids t)
      in case ids of
           [] \<Rightarrow> (None, t\<lparr>cached_waker_ids := []\<rparr>)
         | wid # ids' \<Rightarrow> (Some wid, t\<lparr>cached_waker_ids := ids'\<rparr>))"

definition MAX_N_WAKERS :: nat where
  "MAX_N_WAKERS = (2 ^ 31 - 1) div 2"

definition intern_waker :: "'w \<Rightarrow> 'w WakerTable \<Rightarrow> (i32 \<times> 'w WakerTable) option" where
  "intern_waker waker t =
     (let (free_slot, t1) = get_free_waker_id t
      in case free_slot of
           Some wid \<Rightarrow>
             (if unat wid < length (wakers t1)
              then Some (wid, t1\<lparr>wakers := (wakers t1)[unat wid := Some waker]\<rparr>)
              else None)
         | None \<Rightarrow>
             (if length (wakers t1) < MAX_N_WAKERS
              then Some (of_nat (length (wakers t1) + 1) - 1, t1\<lparr>wakers := wakers t1 @ [Some waker]\<rparr>)
              else None))"

definition guest_wake_waker :: "('w \<Rightarrow> TaskSet \<Rightarrow> TaskSet) \<Rightarrow> i32 \<Rightarrow> 'w WakerTable \<Rightarrow> TaskSet \<Rightarrow> TaskSet" where
  "guest_wake_waker wake wid t ts =
     (case slot_get (wakers t) (unat wid) of Some waker \<Rightarrow> wake waker ts | None \<Rightarrow> ts)"

definition guest_drop_waker :: "i32 \<Rightarrow> 'w WakerTable \<Rightarrow> 'w WakerTable" where
  "guest_drop_waker wid t =
     (if unat wid < length (wakers t)
      then maybe_cache_waker_id wid (t\<lparr>wakers := (wakers t)[unat wid := None]\<rparr>)
      else t)"

section \<open>Tasks\<close>

definition MAX_N_TASKS :: nat where
  "MAX_N_TASKS = (2 ^ 31 - 1) div 2"

text \<open>The search for a free slot skips slot 0, which belongs to the main task.\<close>

definition start_task :: "'f \<Rightarrow> 'f option list \<times> TaskSet \<Rightarrow> ('f option list \<times> TaskSet) option" where
  "start_task task = (\<lambda>(tasks, ts).
     case first_none (drop 1 tasks) of
       Some i \<Rightarrow> (let task_id = i + 1 in Some (tasks[task_id := Some task], push_task (of_nat task_id) ts))
     | None \<Rightarrow>
         (if length tasks < MAX_N_TASKS
          then (let task_id = length tasks
                in Some (tasks @ [Some task], push_task (of_nat task_id) ts))
          else None))"

record ('w, 'f) GuestRt =
  waker_table :: "'w WakerTable"
  spawning_tasks :: "(nat \<times> 'f) list"
  global_task_sn :: nat
  host_tasks :: TaskSet

definition spawn_named :: "'f \<Rightarrow> ('w, 'f) GuestRt \<Rightarrow> ('w, 'f) GuestRt" where
  "spawn_named fut rt =
     (let gsn = global_task_sn rt
      in rt\<lparr>global_task_sn := gsn + 1, spawning_tasks := spawning_tasks rt @ [(gsn, fut)]\<rparr>)"

fun start_all :: "(nat \<times> 'f) list \<Rightarrow> 'f option list \<times> TaskSet \<Rightarrow> ('f option list \<times> TaskSet) option" where
  "start_all [] s = Some s"
| "start_all ((gsn, task) # rest) s =
     (case start_task task s of None \<Rightarrow> None | Some s' \<Rightarrow> start_all rest s')"

definition start_spawned_tasks ::
  "'f option list \<Rightarrow> ('w, 'f) GuestRt \<Rightarrow> ('f option list \<times> ('w, 'f) GuestRt) option" where
  "start_spawned_tasks tasks rt =
     map_option (\<lambda>(tasks', ts). (tasks', rt\<lparr>spawning_tasks := [], host_tasks := ts\<rparr>))
       (start_all (spawning_tasks rt) (tasks, host_tasks rt))"

text \<open>What the guest does with the ids it drains: negative means drop.\<close>

fun process_awake ::
  "('w \<Rightarrow> TaskSet \<Rightarrow> TaskSet) \<Rightarrow> i32 list \<Rightarrow> 'w WakerTable \<Rightarrow> TaskSet \<Rightarrow> 'w WakerTable \<times> TaskSet" where
  "process_awake wake [] t ts = (t, ts)"
| "process_awake wake (wid # ids) t ts =
     (if 0 \<le> sint wid then process_awake wake ids t (guest_wake_waker wake wid t ts)
      else process_awake wake ids (guest_drop_waker (- 1 - wid) t) ts)"

record ('w, 'f) Guest =
  guest_rt :: "('w, 'f) GuestRt"
  guest_tasks :: "'f option list"
  current_task :: i32

definition guest_init :: "'f \<Rightarrow> TaskSet \<Rightarrow> ('w, 'f) Guest" where
  "guest_init main_future ts =
     \<lparr> guest_rt = \<lparr> waker_table = \<lparr> wakers = [], cached_waker_ids = [] \<rparr>, spawning_tasks = [],
         global_task_sn = 0, host_tasks = ts \<rparr>,
       guest_tasks = [Some main_future], current_task = 0 \<rparr>"

text \<open>
  The body of \<open>poll\<close> once a task id was returned: \<open>run\<close> is the poll of the task's future. The
  result is \<open>Some true\<close> if the main task has exited, \<open>None\<close> if there is no such task.
\<close>

definition poll_task ::
  "(i32 \<Rightarrow> 'f \<Rightarrow> ('w, 'f) GuestRt \<Rightarrow> unit poll \<times> 'f \<times> ('w, 'f) GuestRt) \<Rightarrow> nat \<Rightarrow>
   ('w, 'f) Guest \<Rightarrow> (bool option \<times> ('w, 'f) Guest) option" where
  "poll_task run task_id g =
     (case slot_get (guest_tasks g) task_id of
        None \<Rightarrow> Some (None, g)
      | Some task \<Rightarrow>
          (let g1 = g\<lparr>current_task := of_nat task_id\<rparr>;
               (ret, task', rt) = run (current_task g1) task (guest_rt g1);
               tasks = (guest_tasks g1)[task_id := (case ret of Pend \<Rightarrow> Some task' | Ready _ \<Rightarrow> None)];
               g2 = g1\<lparr>guest_tasks := tasks, guest_rt := rt\<rparr>;
               exited = (hd tasks = None)
           in if exited then Some (Some True, g2)
              else map_option (\<lambda>(tasks', rt'). (Some False, g2\<lparr>guest_tasks := tasks', guest_rt := rt'\<rparr>))
                     (start_spawned_tasks tasks rt)))"

definition wapo_poll ::
  "('w \<Rightarrow> TaskSet \<Rightarrow> TaskSet) \<Rightarrow>
   (i32 \<Rightarrow> 'f \<Rightarrow> ('w, 'f) GuestRt \<Rightarrow> unit poll \<times> 'f \<times> ('w, 'f) GuestRt) \<Rightarrow>
   ('w, 'f) Guest \<Rightarrow> (i32 \<times> ('w, 'f) Guest) option" where
  "wapo_poll wake run g =
     (let rt = guest_rt g;
          (awake, ts1) = drain_awake_wakers (host_tasks rt);
          (table, ts2) = process_awake wake awake (waker_table rt) ts1;
          (next_ready_task, ts3) = pop_task ts2;
          g1 = g\<lparr>guest_rt := rt\<lparr>waker_table := table, host_tasks := ts3\<rparr>\<rparr>
      in case next_ready_task of
           None \<Rightarrow> Some (0, g1)
         | Some task_id \<Rightarrow>
             map_option (\<lambda>(exited, g2). (if exited = Some True then 1 else 0, g2))
               (poll_task run (unat task_id) g1))"

section \<open>The waker table is an allocator\<close>

definition free_id :: "'w option list \<Rightarrow> i32 \<Rightarrow> bool" where
  "free_id ws wid \<longleftrightarrow> unat wid < length ws \<and> ws ! unat wid = None"

definition wakers_ok :: "'w WakerTable \<Rightarrow> bool" where
  "wakers_ok t \<longleftrightarrow>
     length (wakers t) \<le> MAX_N_WAKERS \<and> distinct (cached_waker_ids t) \<and>
     (\<forall>wid \<in> set (cached_waker_ids t). free_id (wakers t) wid)"

lemma unat_of_nat_small: "i \<le> MAX_N_WAKERS \<Longrightarrow> unat (of_nat i :: i32) = i"
  by (simp add: MAX_N_WAKERS_def unsigned_of_nat take_bit_nat_eq_self)

lemma scan_free_wakers_sound:
  assumes "distinct ids" "\<forall>wid \<in> set ids. unat wid < k" "k + length ws \<le> MAX_N_WAKERS"
  shows "distinct (scan_free_wakers k ws ids) \<and>
    (\<forall>wid \<in> set (scan_free_wakers k ws ids). wid \<in> set ids \<or>
       (k \<le> unat wid \<and> unat wid < k + length ws \<and> ws ! (unat wid - k) = None))"
  using assms
proof (induction k ws ids rule: scan_free_wakers.induct)
  case (2 k w ws ids)
  let ?ids = "ids @ [of_nat k]"
  have k: "unat (of_nat k :: i32) = k" using 2(5) by (intro unat_of_nat_small) simp
  have d: "distinct ?ids" "\<forall>wid \<in> set ?ids. unat wid < k + 1" using 2(3,4) k by force+
  have low: "\<forall>wid \<in> set ids. unat wid < k + 1" using 2(4) by force
  have nth: "(w # ws) ! (unat wid - k) = ws ! (unat wid - (k + 1))" if "k + 1 \<le> unat wid" for wid :: i32
    using that by (simp add: nth_Cons' Suc_diff_Suc)
  show ?case
  proof (cases "w = None")
    case True
    show ?thesis
    proof (cases "length ?ids \<ge> MAX_CACHE_WAKER_IDS")
      case False
      with 2(1) [OF True refl] d 2(5) have ih: "distinct (scan_free_wakers (k + 1) ws ?ids)"
        "\<forall>wid \<in> set (scan_free_wakers (k + 1) ws ?ids). wid \<in> set ?ids \<or>
          (k + 1 \<le> unat wid \<and> unat wid < k + 1 + length ws \<and> ws ! (unat wid - (k + 1)) = None)"
        by auto
      from False True have eq: "scan_free_wakers k (w # ws) ids = scan_free_wakers (k + 1) ws ?ids"
        by (simp add: Let_def)
      show ?thesis unfolding eq using ih nth k True by fastforce
    qed (use True d k in \<open>auto simp: Let_def\<close>)
  next
    case False
    with 2(2) 2(3,5) low have ih: "distinct (scan_free_wakers (k + 1) ws ids)"
      "\<forall>wid \<in> set (scan_free_wakers (k + 1) ws ids). wid \<in> set ids \<or>
        (k + 1 \<le> unat wid \<and> unat wid < k + 1 + length ws \<and> ws ! (unat wid - (k + 1)) = None)"
      by auto
    with False nth show ?thesis by fastforce
  qed
qed simp

lemma get_free_waker_id_sound:
  assumes "wakers_ok t" "get_free_waker_id t = (r, t')"
  shows "wakers t' = wakers t \<and> wakers_ok t' \<and>
    (\<forall>wid. r = Some wid \<longrightarrow> free_id (wakers t) wid \<and> wid \<notin> set (cached_waker_ids t'))"
proof -
  define ids where
    "ids = (if cached_waker_ids t = [] then scan_free_wakers 0 (wakers t) [] else cached_waker_ids t)"
  have ids: "distinct ids" "\<forall>wid \<in> set ids. free_id (wakers t) wid"
    using assms(1) scan_free_wakers_sound [of "[]" 0 "wakers t"]
    by (auto simp: ids_def wakers_ok_def free_id_def)
  from assms(2) have eq: "(r, t') = (case ids of
      [] \<Rightarrow> (None, t\<lparr>cached_waker_ids := []\<rparr>)
    | wid # ids' \<Rightarrow> (Some wid, t\<lparr>cached_waker_ids := ids'\<rparr>))"
    by (simp only: get_free_waker_id_def Let_def ids_def)
  with ids assms(1) show ?thesis
    by (cases ids) (auto simp: wakers_ok_def)
qed

definition waker_alloc :: "'w \<Rightarrow> 'w WakerTable \<Rightarrow> (nat \<times> 'w WakerTable) option" where
  "waker_alloc w t = map_option (\<lambda>(wid, t'). (unat wid, t')) (intern_waker w t)"

lemma intern_waker_cases:
  assumes "wakers_ok t" "intern_waker w t = Some (wid, t')"
  shows "wakers_ok t' \<and> slot_get (wakers t) (unat wid) = None \<and> unat wid < MAX_N_WAKERS \<and>
    (free_id (wakers t) wid \<and> wakers t' = (wakers t)[unat wid := Some w] \<or>
     unat wid = length (wakers t) \<and> wakers t' = wakers t @ [Some w])"
proof -
  obtain r t1 where g: "get_free_waker_id t = (r, t1)" by fastforce
  note f = get_free_waker_id_sound [OF assms(1) g]
  show ?thesis
  proof (cases r)
    case None
    with g assms(2) f have "length (wakers t) < MAX_N_WAKERS" "wid = of_nat (length (wakers t) + 1) - 1"
      "t' = t1\<lparr>wakers := wakers t @ [Some w]\<rparr>"
      by (auto simp: intern_waker_def split: if_splits)
    with f unat_of_nat_small [of "length (wakers t)"] show ?thesis
      by (auto simp: wakers_ok_def free_id_def slot_get_def nth_append)
  next
    case (Some i)
    with g assms(2) f have "wid = i" "t' = t1\<lparr>wakers := (wakers t)[unat wid := Some w]\<rparr>"
      by (auto simp: intern_waker_def split: if_splits)
    with f Some show ?thesis
      by (auto simp: wakers_ok_def free_id_def slot_get_def nth_list_update word_unat_eq_iff [symmetric])
  qed
qed

interpretation guest_wakers: slot_alloc waker_alloc wakers wakers_ok
proof
  fix t :: "'w WakerTable" and w i t' j
  assume t: "wakers_ok t" and "waker_alloc w t = Some (i, t')"
  then obtain wid where a: "intern_waker w t = Some (wid, t')" and i: "i = unat wid"
    by (auto simp: waker_alloc_def)
  note c = intern_waker_cases [OF t a]
  show "slot_get (wakers t) i = None" using c i by simp
  show "slot_get (wakers t') j = (if j = i then Some w else slot_get (wakers t) j)"
    using c i by (auto simp: slot_get_update slot_get_append free_id_def)
  show "wakers_ok t'" using c by simp
qed

section \<open>The task table is an allocator\<close>

definition task_alloc :: "'f \<Rightarrow> 'f option list \<times> TaskSet \<Rightarrow> (nat \<times> 'f option list \<times> TaskSet) option" where
  "task_alloc task s =
     map_option (Pair (case first_none (drop 1 (fst s)) of Some i \<Rightarrow> i + 1 | None \<Rightarrow> length (fst s)))
       (start_task task s)"

lemma task_alloc_cases:
  assumes "task_alloc task s = Some (i, s')"
  shows "snd s' = push_task (of_nat i) (snd s) \<and>
    (0 < i \<and> i < length (fst s) \<and> fst s ! i = None \<and> fst s' = (fst s)[i := Some task] \<or>
     i = length (fst s) \<and> fst s' = fst s @ [Some task])"
proof (cases "first_none (drop 1 (fst s))")
  case None
  with assms show ?thesis
    by (cases s) (auto simp: task_alloc_def start_task_def Let_def split: if_splits)
next
  case (Some k)
  from first_none_SomeD [OF this] assms Some show ?thesis
    by (cases s) (auto simp: task_alloc_def start_task_def Let_def)
qed

interpretation guest_slots: slot_alloc task_alloc fst "\<lambda>_. True"
proof
  fix s :: "'f option list \<times> TaskSet" and task i s' j
  assume a: "task_alloc task s = Some (i, s')"
  note c = task_alloc_cases [OF a]
  show "slot_get (fst s) i = None" using c by (auto simp: slot_get_def)
  show "slot_get (fst s') j = (if j = i then Some task else slot_get (fst s) j)"
    using c by (auto simp: slot_get_update slot_get_append)
qed simp

section \<open>Waker ids between guest and host\<close>

text \<open>
  The interleavings of a guest that polls resources and a host that uses the wakers it got. A
  guest interns a waker and passes its id in the call, upon which the host makes a cell; the
  objects polled may clone, wake and drop their handles at any time; the guest drains the
  queue. \<open>origin\<close> records, for the statement only, which waker each cell was made for.
\<close>

record 'w WakerLink =
  link_table :: "'w WakerTable"
  link_heap :: WakerHeap
  origin :: "nat \<Rightarrow> 'w option"

definition link_init :: "TaskSet \<Rightarrow> 'w WakerLink" where
  "link_init ts =
     \<lparr> link_table = \<lparr> wakers = [], cached_waker_ids = [] \<rparr>,
       link_heap = \<lparr> waker_tasks = Some (ts\<lparr>awake_wakers := []\<rparr>), cells = [], next_cell = 0,
         parents_woken = [] \<rparr>,
       origin = Map.empty \<rparr>"

inductive link_step :: "('w \<Rightarrow> TaskSet \<Rightarrow> TaskSet) \<Rightarrow> 'w WakerLink \<Rightarrow> 'w WakerLink \<Rightarrow> bool"
  for wake :: "'w \<Rightarrow> TaskSet \<Rightarrow> TaskSet" where
  poll: "intern_waker w (link_table l) = Some (wid, t') \<Longrightarrow> from_id wid task par (link_heap l) = (c, h') \<Longrightarrow>
    link_step wake l (l\<lparr>link_table := t', link_heap := h', origin := (origin l)(c \<mapsto> w)\<rparr>)"
| clone: "link_step wake l (l\<lparr>link_heap := clone_waker c (link_heap l)\<rparr>)"
| wake_ref: "link_step wake l (l\<lparr>link_heap := wake_by_ref_waker c (link_heap l)\<rparr>)"
| wake_val: "link_step wake l (l\<lparr>link_heap := wake_waker c (link_heap l)\<rparr>)"
| release: "link_step wake l (l\<lparr>link_heap := drop_waker c (link_heap l)\<rparr>)"
| drain: "waker_tasks (link_heap l) = Some ts \<Longrightarrow> drain_awake_wakers ts = (ids, ts1) \<Longrightarrow>
    process_awake wake ids (link_table l) ts1 = (t', ts2) \<Longrightarrow>
    link_step wake l (l\<lparr>link_table := t', link_heap := (link_heap l)\<lparr>waker_tasks := Some ts2\<rparr>\<rparr>)"

text \<open>
  Replaying a queue from the ids live before it: every wake-up names a live id, every drop names a
  live id and ends its life, and what is left are the ids of the cells.
\<close>

fun replay :: "nat set \<Rightarrow> i32 list \<Rightarrow> nat set \<Rightarrow> bool" where
  "replay live [] rest = (live = rest)"
| "replay live (n # q) rest =
     (if 0 \<le> sint n then unat n \<in> live \<and> replay live q rest
      else unat (- 1 - n) \<in> live \<and> replay (live - {unat (- 1 - n)}) q rest)"

lemma replay_subset: "replay live q rest \<Longrightarrow> rest \<subseteq> live"
  by (induction live q rest rule: replay.induct) (auto split: if_splits)

lemma replay_append:
  "replay live (q @ q') rest \<longleftrightarrow> (\<exists>mid. replay live q mid \<and> replay mid q' rest)"
  by (induction live q rest rule: replay.induct) auto

lemma replay_insert:
  "replay live q rest \<Longrightarrow> i \<notin> live \<Longrightarrow> replay (insert i live) q (insert i rest)"
proof (induction live q rest rule: replay.induct)
  case (2 live n q rest)
  show ?case
  proof (cases "0 \<le> sint n")
    case False
    let ?d = "unat (- 1 - n)"
    from False 2(3,4) have "?d \<in> live" "replay (live - {?d}) q rest" "i \<noteq> ?d" by auto
    moreover from this have "insert i live - {?d} = insert i (live - {?d})" by blast
    ultimately show ?thesis using 2(2) [OF False] 2(4) False by simp
  qed (use 2 in auto)
qed simp

lemma small_id_sign:
  assumes "unat (wid :: i32) < MAX_N_WAKERS"
  shows "0 \<le> sint wid" "sint (- 1 - wid) < 0" "- 1 - (- 1 - wid) = wid"
  using assms by (simp_all add: sint_i32_nonneg unat_complement MAX_N_WAKERS_def not_le [symmetric])

subsection \<open>Draining follows the replay\<close>

lemma guest_drop_waker_ok:
  assumes "wakers_ok t" "slot_get (wakers t) (unat wid) \<noteq> None"
  shows "wakers_ok (guest_drop_waker wid t) \<and>
    wakers (guest_drop_waker wid t) = slot_free (unat wid) (wakers t)"
  using assms
  by (auto simp: wakers_ok_def guest_drop_waker_def maybe_cache_waker_id_def free_id_def
      slot_get_def slot_free_def nth_list_update word_unat_eq_iff split: if_splits)

lemma process_awake_replay:
  assumes "wakers_ok t" "replay (slots_live (wakers t)) ids rest"
    and wake: "\<And>w ts. awake_wakers (wake w ts) = awake_wakers ts"
    and "process_awake wake ids t ts = (t', ts')"
  shows "wakers_ok t' \<and> slots_live (wakers t') = rest \<and> awake_wakers ts' = awake_wakers ts \<and>
    (\<forall>i \<in> rest. slot_get (wakers t') i = slot_get (wakers t) i)"
  using assms(1,2,4)
proof (induction ids arbitrary: t ts)
  case (Cons n ids)
  show ?case
  proof (cases "0 \<le> sint n")
    case True
    with Cons.prems(3) have "process_awake wake ids t (guest_wake_waker wake n t ts) = (t', ts')"
      by simp
    with True Cons.IH [OF Cons.prems(1)] Cons.prems(2) show ?thesis
      by (simp add: guest_wake_waker_def wake split: option.splits)
  next
    case False
    let ?d = "- 1 - n"
    from False Cons.prems(2) have d: "slot_get (wakers t) (unat ?d) \<noteq> None"
      and r: "replay (slots_live (wakers t) - {unat ?d}) ids rest"
      by (simp_all add: slots_live_def)
    note ok = guest_drop_waker_ok [OF Cons.prems(1) d]
    from False Cons.prems(3) have "process_awake wake ids (guest_drop_waker ?d t) ts = (t', ts')" by simp
    from Cons.IH [OF _ _ this] ok r replay_subset [OF r] show ?thesis
      by (auto simp: slots_live_free slot_get_free)
  qed
qed simp

subsection \<open>The invariant of the link\<close>

definition cell_map :: "WakerHeap \<Rightarrow> nat \<rightharpoonup> i32" where
  "cell_map h c = map_option waker_id (map_of (cells h) c)"

definition cell_ids :: "WakerHeap \<Rightarrow> nat set" where
  "cell_ids h = unat ` ran (cell_map h)"

definition heap_inv :: "'w WakerTable \<Rightarrow> (nat \<Rightarrow> 'w option) \<Rightarrow> WakerHeap \<Rightarrow> bool" where
  "heap_inv t orig h \<longleftrightarrow>
     dom (cell_map h) \<subseteq> {..<next_cell h} \<and> inj_on (cell_map h) (dom (cell_map h)) \<and>
     (\<forall>c wid. cell_map h c = Some wid \<longrightarrow> unat wid < MAX_N_WAKERS \<and>
        orig c \<noteq> None \<and> slot_get (wakers t) (unat wid) = orig c) \<and>
     (\<exists>ts. waker_tasks h = Some ts \<and> replay (slots_live (wakers t)) (awake_wakers ts) (cell_ids h))"

definition link_inv :: "'w WakerLink \<Rightarrow> bool" where
  "link_inv l \<longleftrightarrow> wakers_ok (link_table l) \<and> heap_inv (link_table l) (origin l) (link_heap l)"

lemma cell_map_simps [simp]:
  "cell_map (h\<lparr>cells := hash_insert c x (cells h)\<rparr>) = (cell_map h)(c \<mapsto> waker_id x)"
  "cell_map (h\<lparr>cells := hash_remove c (cells h)\<rparr>) = (cell_map h)(c := None)"
  "cell_map (h\<lparr>waker_tasks := ts\<rparr>) = cell_map h"
  "cell_map (h\<lparr>parents_woken := ps\<rparr>) = cell_map h"
  "cell_map (h\<lparr>next_cell := n\<rparr>) = cell_map h"
  by (auto simp: cell_map_def hash.lookup_insert hash.lookup_remove)

lemma cell_mapI: "map_of (cells h) c = Some x \<Longrightarrow> cell_map h c = Some (waker_id x)"
  by (simp add: cell_map_def)

lemma ran_fun_upd_None:
  "inj_on m (dom m) \<Longrightarrow> m c = Some w \<Longrightarrow> ran (m(c := None)) = ran m - {w}"
  unfolding ran_def inj_on_def dom_def by (auto split: if_splits) (metis option.inject)

lemma heap_inv_update:
  assumes "heap_inv t orig h" "map_of (cells h) c = Some x" "waker_id x' = waker_id x"
  shows "heap_inv t orig (h\<lparr>cells := hash_insert c x' (cells h)\<rparr>)"
proof -
  have "(cell_map h)(c \<mapsto> waker_id x') = cell_map h"
    using assms(3) cell_mapI [OF assms(2)] by (simp add: fun_upd_idem)
  with assms(1) show ?thesis by (simp add: heap_inv_def cell_ids_def)
qed

lemma heap_inv_clone: "heap_inv t orig h \<Longrightarrow> heap_inv t orig (clone_waker c h)"
  by (auto simp: clone_waker_def heap_inv_update split: option.splits)

text \<open>Waking appends the id of a live cell, dropping the last handle appends its complement.\<close>

lemma heap_inv_wake_ref:
  assumes inv: "heap_inv t orig h"
  shows "heap_inv t orig (wake_by_ref_waker c h)"
proof (cases "map_of (cells h) c")
  case (Some x)
  from inv obtain ts where ts: "waker_tasks h = Some ts"
    "replay (slots_live (wakers t)) (awake_wakers ts) (cell_ids h)" by (auto simp: heap_inv_def)
  note m = cell_mapI [OF Some]
  from inv m have "unat (waker_id x) < MAX_N_WAKERS" by (simp add: heap_inv_def)
  moreover from m have "unat (waker_id x) \<in> cell_ids h" by (auto simp: cell_ids_def ran_def)
  ultimately have "replay (slots_live (wakers t)) (awake_wakers ts @ [waker_id x]) (cell_ids h)"
    using ts(2) by (simp add: replay_append small_id_sign)
  with inv Some ts(1) show ?thesis
    by (simp add: heap_inv_def wake_by_ref_waker_def guest_wake_by_ref_def push_waker_def cell_ids_def)
qed (simp add: wake_by_ref_waker_def inv)

lemma heap_inv_last_drop:
  assumes inv: "heap_inv t orig h" and x: "map_of (cells h) c = Some x"
  shows "heap_inv t orig (guest_waker_drop x (h\<lparr>cells := hash_remove c (cells h)\<rparr>))"
proof -
  let ?m = "(cell_map h)(c := None)"
  from inv obtain ts where ts: "waker_tasks h = Some ts"
    "replay (slots_live (wakers t)) (awake_wakers ts) (cell_ids h)" by (auto simp: heap_inv_def)
  note m = cell_mapI [OF x]
  from inv have inj: "inj_on (cell_map h) (dom (cell_map h))" by (simp add: heap_inv_def)
  from inv m have small: "unat (waker_id x) < MAX_N_WAKERS" by (simp add: heap_inv_def)
  have mem: "unat (waker_id x) \<in> cell_ids h" using m by (auto simp: cell_ids_def ran_def)
  have "unat ` ran ?m = cell_ids h - {unat (waker_id x)}"
    unfolding ran_fun_upd_None [OF inj m] cell_ids_def by (auto simp: word_unat_eq_iff)
  with ts(2) small_id_sign [OF small] mem
  have "replay (slots_live (wakers t)) (awake_wakers ts @ [- 1 - waker_id x]) (unat ` ran ?m)"
    by (auto simp: replay_append)
  moreover have "inj_on ?m (dom ?m)" using inj by (auto simp: inj_on_def)
  ultimately show ?thesis
    using inv ts(1) by (auto simp: heap_inv_def guest_waker_drop_def push_waker_def cell_ids_def)
qed

lemma heap_inv_drop: "heap_inv t orig h \<Longrightarrow> heap_inv t orig (drop_waker c h)"
  by (auto simp: drop_waker_def heap_inv_last_drop heap_inv_update split: option.splits)

lemma heap_inv_poll:
  assumes t: "wakers_ok t" and inv: "heap_inv t orig h"
    and a: "intern_waker w t = Some (wid, t')" and f: "from_id wid task par h = (c, h')"
  shows "heap_inv t' (orig(c \<mapsto> w)) h'"
proof -
  note ic = intern_waker_cases [OF t a]
  have wa: "waker_alloc w t = Some (unat wid, t')" using a by (simp add: waker_alloc_def)
  note get = guest_wakers.alloc_get [OF t wa] and live = guest_wakers.alloc_live [OF t wa]
  from inv obtain ts where ts: "waker_tasks h = Some ts"
    "replay (slots_live (wakers t)) (awake_wakers ts) (cell_ids h)" by (auto simp: heap_inv_def)
  from f have c: "c = next_cell h" and h': "cell_map h' = (cell_map h)(c \<mapsto> wid)"
    "waker_tasks h' = waker_tasks h" "next_cell h' = next_cell h + 1"
    by (auto simp: from_id_def Let_def)
  from inv have dom: "dom (cell_map h) \<subseteq> {..<c}" by (simp add: heap_inv_def c)
  have fresh: "unat wid \<notin> slots_live (wakers t)" using ic by (simp add: slots_live_def)
  have old: "wid' \<noteq> wid" if "cell_map h d = Some wid'" for d wid'
    using inv that fresh unfolding heap_inv_def slots_live_def by force
  have "inj_on (cell_map h') (dom (cell_map h'))"
    using inv unfolding heap_inv_def h' inj_on_def by (auto simp: dom_def dest: old)
  moreover have "cell_map h c = None" using dom by auto
  then have "cell_ids h' = insert (unat wid) (cell_ids h)" by (simp add: cell_ids_def h')
  then have "replay (slots_live (wakers t')) (awake_wakers ts) (cell_ids h')"
    using replay_insert [OF ts(2) fresh] by (simp add: live)
  moreover have "\<forall>d wid'. cell_map h' d = Some wid' \<longrightarrow> unat wid' < MAX_N_WAKERS \<and>
      (orig(c \<mapsto> w)) d \<noteq> None \<and> slot_get (wakers t') (unat wid') = (orig(c \<mapsto> w)) d"
  proof (intro allI impI)
    fix d wid' assume d: "cell_map h' d = Some wid'"
    show "unat wid' < MAX_N_WAKERS \<and> (orig(c \<mapsto> w)) d \<noteq> None \<and>
        slot_get (wakers t') (unat wid') = (orig(c \<mapsto> w)) d"
    proof (cases "d = c")
      case False
      with d h' have d': "cell_map h d = Some wid'" by simp
      with inv old [OF d'] False show ?thesis by (simp add: heap_inv_def get word_unat_eq_iff)
    qed (use d h' ic get in simp)
  qed
  moreover have "dom (cell_map h') \<subseteq> {..<next_cell h'}" using dom by (auto simp: h' c)
  ultimately show ?thesis using ts(1) h'(2) by (auto simp: heap_inv_def)
qed

lemma link_inv_drain:
  assumes wake: "\<And>w ts. awake_wakers (wake w ts) = awake_wakers ts" and inv: "link_inv l"
    and "waker_tasks (link_heap l) = Some ts" "drain_awake_wakers ts = (ids, ts1)"
    and "process_awake wake ids (link_table l) ts1 = (t', ts2)"
  shows "link_inv (l\<lparr>link_table := t', link_heap := (link_heap l)\<lparr>waker_tasks := Some ts2\<rparr>\<rparr>)"
proof -
  from assms(4) have ids: "ids = awake_wakers ts" "awake_wakers ts1 = []"
    by (simp_all add: drain_awake_wakers_def) auto
  from inv assms(3) ids have t: "wakers_ok (link_table l)"
    and r: "replay (slots_live (wakers (link_table l))) ids (cell_ids (link_heap l))"
    by (auto simp: link_inv_def heap_inv_def)
  note p = process_awake_replay [OF t r wake assms(5)]
  then show ?thesis
    using inv ids by (auto simp: link_inv_def heap_inv_def cell_ids_def ran_def)
qed

lemma link_inv_step:
  assumes wake: "\<And>w ts. awake_wakers (wake w ts) = awake_wakers ts" and "link_step wake l l'"
  shows "link_inv l \<Longrightarrow> link_inv l'"
  using assms(2)
proof (induction rule: link_step.induct)
  case (poll w l wid t' task par c h')
  then show ?case
    using intern_waker_cases heap_inv_poll by (fastforce simp: link_inv_def)
next
  case (drain l ts ids ts1 t' ts2)
  then show ?case using link_inv_drain wake by blast
qed (simp_all add: link_inv_def heap_inv_clone heap_inv_wake_ref heap_inv_drop wake_waker_def)

lemma link_inv_reachable:
  assumes wake: "\<And>w ts. awake_wakers (wake w ts) = awake_wakers ts"
  shows "(link_step wake)\<^sup>*\<^sup>* (link_init ts) l \<Longrightarrow> link_inv l"
proof (induction rule: rtranclp_induct)
  case base
  show ?case
    by (simp add: link_inv_def link_init_def wakers_ok_def heap_inv_def cell_map_def cell_ids_def
        slots_live_def slot_get_def dom_def ran_def)
qed (use link_inv_step wake in blast)

section \<open>Properties of the link\<close>

text \<open>
  C5: a wake-up never reaches the wrong waker. In every state reachable by any interleaving of
  polls, clones, wakes, drops and drains, a waker id the host still holds refers, in
  the guest's table, to the very waker it was made for, and no two cells alive on the host have the
  same id: an id is not reused before the host has let go of it. \<open>wake\<close> is any effect of
  the guest's wakers that leaves the host's waker queue alone, as marking tasks ready does.
\<close>

theorem waker_ids_never_confused:
  assumes "\<And>w ts. awake_wakers (wake w ts) = awake_wakers ts"
    and "(link_step wake)\<^sup>*\<^sup>* (link_init ts) l"
    and "map_of (cells (link_heap l)) c = Some x"
  shows "\<exists>w. origin l c = Some w \<and> slot_get (wakers (link_table l)) (unat (waker_id x)) = Some w \<and>
    (\<forall>c' x'. map_of (cells (link_heap l)) c' = Some x' \<and> waker_id x' = waker_id x \<longrightarrow> c' = c)"
proof -
  from link_inv_reachable [OF assms(1,2)] have inv: "heap_inv (link_table l) (origin l) (link_heap l)"
    by (simp add: link_inv_def)
  note m = cell_mapI [OF assms(3)]
  moreover have "c' = c" if "map_of (cells (link_heap l)) c' = Some x'" "waker_id x' = waker_id x" for c' x'
    using inv m cell_mapI [OF that(1)] that(2) unfolding heap_inv_def by (metis domI inj_onD)
  ultimately show ?thesis using inv by (auto simp: heap_inv_def)
qed

definition link_start :: "i32 WakerLink" where
  "link_start = link_init with_task0"

definition link_demo :: "i32 WakerLink" where
  "link_demo =
     (case intern_waker 4 (link_table link_start) of
        Some (wid, t') \<Rightarrow>
          (case from_id wid 4 0 (link_heap link_start) of
             (c, h') \<Rightarrow> link_start\<lparr>link_table := t', link_heap := h', origin := (origin link_start)(c \<mapsto> 4)\<rparr>)
      | None \<Rightarrow> link_start)"

lemma link_demo_reachable: "(link_step push_task)\<^sup>*\<^sup>* (link_init with_task0) link_demo"
proof -
  have i: "intern_waker 4 (link_table link_start) =
      Some (0, \<lparr> wakers = [Some 4], cached_waker_ids = [] \<rparr>)"
    by (simp add: intern_waker_def get_free_waker_id_def link_start_def link_init_def MAX_N_WAKERS_def)
  obtain h' c where f: "from_id 0 4 0 (link_heap link_start) = (c, h')" by fastforce
  from link_step.poll [OF i f, of push_task] have "link_step push_task link_start link_demo"
    by (simp add: link_demo_def i f)
  then show ?thesis by (auto simp: link_start_def)
qed

lemma link_demo_cell:
  "map_of (cells (link_heap link_demo)) 0 = Some \<lparr> waker_id = 0, this_task = 4, parent = 0, refs = 1 \<rparr>"
  by (simp add: link_demo_def intern_waker_def get_free_waker_id_def link_start_def link_init_def
      MAX_N_WAKERS_def from_id_def Let_def hash_insert_def)

theorem waker_ids_never_confused_witness:
  "\<exists>w. origin link_demo 0 = Some w \<and> slot_get (wakers (link_table link_demo)) 0 = Some w"
  using waker_ids_never_confused [OF push_task_wakers link_demo_reachable link_demo_cell] by auto

text \<open>
  C6: every message the host queues finds its waker: in every reachable state, replaying the
  queue entry by entry, each wake-up names an id that is occupied at that point
  and each drop names an occupied id and frees it, once. After the drain exactly the ids still
  held by the host are occupied, so no id leaks.
\<close>

theorem waker_messages_are_exact:
  assumes "\<And>w ts. awake_wakers (wake w ts) = awake_wakers ts"
    and "(link_step wake)\<^sup>*\<^sup>* (link_init ts) l"
    and "waker_tasks (link_heap l) = Some ts1" "drain_awake_wakers ts1 = (ids, ts2)"
    and "process_awake wake ids (link_table l) ts2 = (t', ts3)"
  shows "replay (slots_live (wakers (link_table l))) ids (cell_ids (link_heap l)) \<and>
    slots_live (wakers t') = cell_ids (link_heap l) \<and> wakers_ok t'"
proof -
  from link_inv_reachable [OF assms(1,2)] assms(3,4)
  have "wakers_ok (link_table l)" "replay (slots_live (wakers (link_table l))) ids (cell_ids (link_heap l))"
    by (auto simp: link_inv_def heap_inv_def drain_awake_wakers_def)
  with process_awake_replay [OF this assms(1,5)] show ?thesis by simp
qed

lemma link_demo_tasks: "waker_tasks (link_heap link_demo) = Some with_task0"
  by (simp add: link_demo_def intern_waker_def get_free_waker_id_def link_start_def link_init_def
      MAX_N_WAKERS_def from_id_def Let_def with_task0_def)

theorem waker_messages_are_exact_witness:
  "slots_live (wakers (link_table link_demo)) = cell_ids (link_heap link_demo)"
  using waker_messages_are_exact [OF push_task_wakers link_demo_reachable link_demo_tasks, of "[]"
      with_task0 "link_table link_demo" with_task0]
  by (simp add: drain_awake_wakers_def with_task0_def)

section \<open>Properties of the task table\<close>

lemma start_all_alloc: "start_all sp s = map_option snd (alloc_all task_alloc (map snd sp) s)"
proof (induction sp s rule: start_all.induct)
  case (2 gsn task rest s)
  then show ?case
    by (auto simp: task_alloc_def option.map_comp comp_def case_prod_beta split: option.splits)
qed simp

lemma push_task_keeps: "set (awake_tasks ts) \<subseteq> set (awake_tasks (push_task t ts))"
  using push_task_awake [of t ts] by auto

lemma alloc_all_marks:
  "alloc_all task_alloc xs s = Some (ids, s') \<Longrightarrow> fst s \<noteq> [] \<Longrightarrow>
   0 \<notin> set ids \<and> set (awake_tasks (snd s)) \<subseteq> set (awake_tasks (snd s')) \<and>
   (\<forall>i \<in> set ids. of_nat i \<in> set (awake_tasks (snd s')))"
proof (induction xs arbitrary: s ids)
  case (Cons x xs)
  from Cons.prems(1) obtain i s1 is1 where a: "task_alloc x s = Some (i, s1)"
    and r: "alloc_all task_alloc xs s1 = Some (is1, s')" and ids: "ids = i # is1"
    by (auto split: option.splits)
  note c = task_alloc_cases [OF a]
  with Cons.prems(2) have ne: "fst s1 \<noteq> []" and i: "i \<noteq> 0" by auto
  have "snd s1 = push_task (of_nat i) (snd s)" using c by simp
  then have "set (awake_tasks (snd s)) \<subseteq> set (awake_tasks (snd s1))"
    "of_nat i \<in> set (awake_tasks (snd s1))"
    using push_task_keeps push_task_mem by simp_all
  with Cons.IH [OF r ne] i show ?case by (auto simp: ids)
qed simp

text \<open>
  Every spawned task starts: after a poll of a task that did not end the program, each
  task spawned during it has a slot of its own, never the main task's slot 0 and never a slot
  in use, and its id is in the host's ready queue; the tasks that were running keep their
  slots, and nothing stays in the spawn queue.
\<close>

lemma spawned_tasks_start:
  assumes "tasks \<noteq> []" "start_spawned_tasks tasks rt = Some (tasks', rt')"
  shows "\<exists>ids. distinct ids \<and> length ids = length (spawning_tasks rt) \<and> 0 \<notin> set ids \<and>
    (\<forall>k < length ids. slot_get tasks (ids ! k) = None \<and>
       slot_get tasks' (ids ! k) = Some (snd (spawning_tasks rt ! k)) \<and>
       of_nat (ids ! k) \<in> set (awake_tasks (host_tasks rt'))) \<and>
    (\<forall>j. j \<notin> set ids \<longrightarrow> slot_get tasks' j = slot_get tasks j) \<and> spawning_tasks rt' = []"
proof -
  from assms(2) obtain ids ts where
    a: "alloc_all task_alloc (map snd (spawning_tasks rt)) (tasks, host_tasks rt) = Some (ids, tasks', ts)"
    and rt': "rt' = rt\<lparr>spawning_tasks := [], host_tasks := ts\<rparr>"
    by (auto simp: start_spawned_tasks_def start_all_alloc)
  note snd = guest_slots.alloc_all_sound [OF TrueI a] and marks = alloc_all_marks [OF a]
  have "slot_get tasks (ids ! k) = None" if "k < length ids" for k
    using snd nth_mem [OF that] by (auto simp: slots_live_def)
  with snd marks assms(1) rt' show ?thesis by (intro exI [of _ ids]) auto
qed

lemma start_spawned_tasks_main:
  assumes "start_spawned_tasks tasks rt = Some (tasks', rt')" "tasks \<noteq> []"
  shows "tasks' \<noteq> [] \<and> hd tasks' = hd tasks"
proof -
  from assms(1) obtain ids ts where
    a: "alloc_all task_alloc (map snd (spawning_tasks rt)) (tasks, host_tasks rt) = Some (ids, tasks', ts)"
    by (auto simp: start_spawned_tasks_def start_all_alloc)
  have len: "length (fst s) \<le> length (fst s')" if "alloc_all task_alloc xs s = Some (ids, s')"
    for xs :: "'a list" and s s' ids
    using that
  proof (induction xs arbitrary: s ids)
    case (Cons x xs)
    then obtain i s1 is1 where a: "task_alloc x s = Some (i, s1)"
      and r: "alloc_all task_alloc xs s1 = Some (is1, s')"
      by (auto split: option.splits)
    from task_alloc_cases [OF a] have "length (fst s) \<le> length (fst s1)" by auto
    with Cons.IH [OF r] show ?case by simp
  qed simp
  from alloc_all_marks [OF a] guest_slots.alloc_all_sound [OF TrueI a] assms(2)
  have "slot_get tasks' 0 = slot_get tasks 0" by simp
  with len [OF a] assms(2) show ?thesis by (cases tasks'; cases tasks) (auto simp: slot_get_def)
qed

lemma poll_task_main:
  assumes g: "guest_tasks g \<noteq> []" "hd (guest_tasks g) \<noteq> None" and p: "poll_task run tid g = Some (e, g')"
  shows "e = Some True \<longleftrightarrow> slot_get (guest_tasks g') 0 = None"
proof (cases "slot_get (guest_tasks g) tid")
  case None
  with g p show ?thesis by (auto simp: poll_task_def slot_get_def hd_conv_nth)
next
  case (Some task)
  obtain ret task' rt where r: "run (of_nat tid) task (guest_rt g) = (ret, task', rt)"
    by (cases "run (of_nat tid) task (guest_rt g)") auto
  define tasks where
    "tasks = (guest_tasks g)[tid := (case ret of Pend \<Rightarrow> Some task' | Ready _ \<Rightarrow> None)]"
  have ne: "tasks \<noteq> []" using g(1) by (simp add: tasks_def)
  show ?thesis
  proof (cases "hd tasks = None")
    case True
    with p Some r have "e = Some True" "guest_tasks g' = tasks"
      by (auto simp: poll_task_def Let_def tasks_def)
    with True ne show ?thesis by (simp add: slot_get_def hd_conv_nth)
  next
    case False
    with p Some r obtain rt' where e: "e = Some False"
      and s: "start_spawned_tasks tasks rt = Some (guest_tasks g', rt')"
      by (auto simp: poll_task_def Let_def tasks_def)
    from start_spawned_tasks_main [OF s ne] False e show ?thesis
      by (auto simp: slot_get_def hd_conv_nth)
  qed
qed

text \<open>
  The guest reports that it is done exactly when the poll it made ended the main
  task: a poll returns 1 if it leaves slot 0 empty, and 0 if the main task is still there.
\<close>

lemma wapo_poll_done_iff_main_exited:
  assumes "guest_tasks g \<noteq> []" "hd (guest_tasks g) \<noteq> None" "wapo_poll wake run g = Some (r, g')"
  shows "r = (if slot_get (guest_tasks g') 0 = None then 1 else 0)"
proof -
  obtain awake ts1 table ts2 nxt ts3 where
    d: "drain_awake_wakers (host_tasks (guest_rt g)) = (awake, ts1)"
    "process_awake wake awake (waker_table (guest_rt g)) ts1 = (table, ts2)"
    "pop_task ts2 = (nxt, ts3)"
    by (metis surj_pair)
  define g1 where "g1 = g\<lparr>guest_rt := (guest_rt g)\<lparr>waker_table := table, host_tasks := ts3\<rparr>\<rparr>"
  have g1: "guest_tasks g1 = guest_tasks g" by (simp add: g1_def)
  have c: "r = 0 \<and> g' = g1 \<or>
      (\<exists>tid e. poll_task run tid g1 = Some (e, g') \<and> r = (if e = Some True then 1 else 0))"
  proof (cases nxt)
    case (Some tid)
    with assms(3) d obtain e where "poll_task run (unat tid) g1 = Some (e, g')"
      "r = (if e = Some True then 1 else 0)"
      by (auto simp: wapo_poll_def Let_def g1_def)
    then show ?thesis by blast
  qed (use assms(3) d in \<open>auto simp: wapo_poll_def Let_def g1_def\<close>)
  from c show ?thesis
  proof
    assume "r = 0 \<and> g' = g1"
    with g1 assms(1,2) show ?thesis by (simp add: slot_get_def hd_conv_nth)
  next
    assume "\<exists>tid e. poll_task run tid g1 = Some (e, g') \<and> r = (if e = Some True then 1 else 0)"
    with poll_task_main [of g1 run] g1 assms(1,2) show ?thesis by auto
  qed
qed

end
