(* ===== verification/Worker_Types.thy ===== *)
theory Worker_Types
  imports Vm_Context
begin

text \<open>
  The messages a worker exchanges with its clients and the chain (\<open>wapod-types/src\<close>): content
  types and the bytes that are signed for them, bounded vectors, app manifests and their addresses,
  prices and the cost of an app's metrics, session updates. Hash functions, signature verification
  and the SCALE codec are libraries, given as \<open>CryptoProvider\<close> and as encoding functions.
\<close>

section \<open>Signed messages\<close>

datatype ContentType =
    RpcResponse | EndpointInfo | MetricsContent | AppData | WorkerAttestation | WorkerDescription
  | SessionUpdateContent

fun content_type_u8 :: "ContentType \<Rightarrow> u8" where
  "content_type_u8 RpcResponse = 1"
| "content_type_u8 EndpointInfo = 2"
| "content_type_u8 MetricsContent = 100"
| "content_type_u8 AppData = 101"
| "content_type_u8 WorkerAttestation = 102"
| "content_type_u8 WorkerDescription = 103"
| "content_type_u8 SessionUpdateContent = 104"

definition wrap_message_iter :: "ContentType \<Rightarrow> bytes \<Rightarrow> bytes" where
  "wrap_message_iter c message = [0xff, content_type_u8 c] @ message"

definition wrap_message :: "ContentType \<Rightarrow> bytes \<Rightarrow> bytes" where
  "wrap_message c message = wrap_message_iter c message"

record CryptoProvider =
  sr25519_verify :: "bytes \<Rightarrow> bytes \<Rightarrow> bytes \<Rightarrow> bool"
  keccak_256 :: "bytes \<Rightarrow> bytes"
  blake2b_256 :: "bytes \<Rightarrow> bytes"

definition verify_message :: "CryptoProvider \<Rightarrow> ContentType \<Rightarrow> bytes \<Rightarrow> bytes \<Rightarrow> bytes \<Rightarrow> bool" where
  "verify_message crypto content_type message signature public_key =
     (let message = wrap_message content_type message
      in sr25519_verify crypto public_key message signature)"

definition wrap_app_data :: "bytes \<Rightarrow> bytes \<Rightarrow> bytes" where
  "wrap_app_data address message = wrap_message_iter AppData (address @ message)"

definition verify_app_data :: "CryptoProvider \<Rightarrow> bytes \<Rightarrow> bytes \<Rightarrow> bytes \<Rightarrow> bytes \<Rightarrow> bool" where
  "verify_app_data crypto address message signature public_key =
     (let message = wrap_app_data address message
      in sr25519_verify crypto public_key message signature)"

definition sgx_quote_app_data :: "CryptoProvider \<Rightarrow> bytes \<Rightarrow> bytes \<Rightarrow> bytes" where
  "sgx_quote_app_data crypto address message =
     (let message = wrap_app_data address message; hash = keccak_256 crypto message
      in hash @ replicate 32 0)"

text \<open>
  A signed structure verifies when its signature covers its encoding under its own content type
  (\<open>SignedAppsMetrics\<close>, \<open>SignedWorkerDescription\<close>, \<open>SignedSessionUpdate\<close>), or under the app's data
  type for a message of the benchmark app.
\<close>

record 'a Signed =
  payload :: 'a
  signature :: bytes
  signer_pubkey :: bytes

definition verify_signed ::
  "CryptoProvider \<Rightarrow> ('a \<Rightarrow> bytes) \<Rightarrow> ContentType \<Rightarrow> 'a Signed \<Rightarrow> bool" where
  "verify_signed crypto encode c s =
     (let encoded_message = encode (payload s)
      in verify_message crypto c encoded_message (signature s) (signer_pubkey s))"

definition verify_bench_message ::
  "CryptoProvider \<Rightarrow> ('a \<Rightarrow> bytes) \<Rightarrow> bytes \<Rightarrow> 'a Signed \<Rightarrow> bool" where
  "verify_bench_message crypto encode app_address s =
     (let encoded_message = encode (payload s)
      in verify_app_data crypto app_address encoded_message (signature s) (signer_pubkey s))"

section \<open>Bounded vectors and padded input\<close>

text \<open>
  The bound \<open>B\<close> is a constant parameter of the type. \<open>From<Vec<T>>\<close> takes any vector.
\<close>

datatype 'a BoundedVec = BoundedVec (inner: "'a list")

definition bounded_push :: "nat \<Rightarrow> 'a \<Rightarrow> 'a BoundedVec \<Rightarrow> (unit, 'a) result \<times> 'a BoundedVec" where
  "bounded_push B v bv =
     (if length (inner bv) \<ge> B then (Err v, bv) else (Ok (), BoundedVec (inner bv @ [v])))"

definition bounded_pop :: "'a BoundedVec \<Rightarrow> 'a option \<times> 'a BoundedVec" where
  "bounded_pop bv =
     (if inner bv = [] then (None, bv) else (Some (last (inner bv)), BoundedVec (butlast (inner bv))))"

definition bounded_clear :: "'a BoundedVec \<Rightarrow> 'a BoundedVec" where
  "bounded_clear bv = BoundedVec []"

definition bounded_from :: "'a list \<Rightarrow> 'a BoundedVec" where
  "bounded_from v = BoundedVec v"

definition bounded_decode ::
  "nat \<Rightarrow> (bytes \<Rightarrow> ('a list \<times> bytes, string) result) \<Rightarrow> bytes \<Rightarrow> ('a BoundedVec \<times> bytes, string) result" where
  "bounded_decode B decode_vec input =
     and_then (decode_vec input) (\<lambda>(vec, rest).
       if length vec > B then Err ''BoundedVec: length exceeds bound'' else Ok (BoundedVec vec, rest))"

definition bounded_string_decode ::
  "nat \<Rightarrow> (bytes \<Rightarrow> (bytes \<times> bytes, string) result) \<Rightarrow> bytes \<Rightarrow> (bytes \<times> bytes, string) result" where
  "bounded_string_decode B decode_string input =
     and_then (decode_string input) (\<lambda>(s, rest).
       if length s > B then Err ''BoundedString: length exceeds bound'' else Ok (s, rest))"

definition bounded_max_encoded_len :: "nat \<Rightarrow> nat \<Rightarrow> nat" where
  "bounded_max_encoded_len B elem_max = B * elem_max"

definition bounded_string_max_encoded_len :: "nat \<Rightarrow> nat" where
  "bounded_string_max_encoded_len B = B"

text \<open>\<open>TrailingZeroInput::read\<close> of \<open>n\<close> bytes: the bytes read and what is left.\<close>

definition trailing_zero_read :: "nat \<Rightarrow> bytes \<Rightarrow> bytes \<times> bytes" where
  "trailing_zero_read n self =
     (let len_from_inner = min n (length self)
      in (take len_from_inner self @ replicate (n - len_from_inner) 0, drop len_from_inner self))"

section \<open>Manifests, tickets and sessions\<close>

record AppManifest =
  version :: u32
  code_hash :: string
  man_args :: "string list"
  env_vars :: "(string \<times> string) list"
  on_demand :: bool
  resizable :: bool
  max_query_size :: u32
  label :: string
  required_blobs :: "(string \<times> string) list"

definition manifest_address :: "(AppManifest \<Rightarrow> bytes) \<Rightarrow> (bytes \<Rightarrow> bytes) \<Rightarrow> AppManifest \<Rightarrow> bytes" where
  "manifest_address encode blake2_256_fn self = blake2_256_fn (encode self)"

text \<open>
  The account of a ticket, for an account type that is decoded from \<open>n\<close> bytes. The encoding of the
  pair is the thirteen bytes of the tag followed by the id's eight bytes, least significant first.
\<close>

definition u64_le_bytes :: "u64 \<Rightarrow> bytes" where
  "u64_le_bytes x = map (\<lambda>i. ucast (drop_bit (8 * i) x)) [0..<8]"

definition ticket_tag :: bytes where
  "ticket_tag = map (\<lambda>c. of_nat (of_char c)) ''wapod/ticket/''"

definition ticket_account_address :: "nat \<Rightarrow> (bytes \<Rightarrow> bytes) \<Rightarrow> u64 \<Rightarrow> bytes" where
  "ticket_account_address n blake2_256_fn ticket_id =
     (let hash = blake2_256_fn (ticket_tag @ u64_le_bytes ticket_id)
      in fst (trailing_zero_read n hash))"

record SessionUpdate =
  su_session :: bytes
  su_nonce :: bytes
  su_recipient :: "u8 BoundedVec"

definition calc_session_id :: "CryptoProvider \<Rightarrow> bytes \<Rightarrow> bytes \<Rightarrow> bytes" where
  "calc_session_id crypto nonce metrics_nonce = blake2b_256 crypto (nonce @ metrics_nonce)"

definition session_update_new :: "CryptoProvider \<Rightarrow> bytes \<Rightarrow> bytes \<Rightarrow> bytes \<Rightarrow> SessionUpdate" where
  "session_update_new crypto nonce metrics_nonce recipient =
     (let session = calc_session_id crypto nonce metrics_nonce
      in \<lparr> su_session = session, su_nonce = nonce, su_recipient = bounded_from recipient \<rparr>)"

section \<open>Metrics and prices\<close>

record AppMetrics =
  am_address :: bytes
  am_session :: bytes
  am_running_time_ms :: u64
  am_gas_consumed :: u64
  am_network_ingress :: u64
  am_network_egress :: u64
  am_storage_read :: u64
  am_storage_write :: u64
  am_storage_used :: u128
  am_memory_used :: u128
  am_tip :: u64
  am_starts :: u64

record Prices =
  general_fee_per_second :: "u128 option"
  gas_price :: "u128 option"
  net_ingress_price :: "u128 option"
  net_egress_price :: "u128 option"
  storage_read_price :: "u128 option"
  storage_write_price :: "u128 option"
  storage_price :: "u128 option"
  memory_price :: "u128 option"
  tip_price :: "u128 option"

definition prices_default :: Prices where
  "prices_default = \<lparr> general_fee_per_second = None, gas_price = None, net_ingress_price = None,
     net_egress_price = None, storage_read_price = None, storage_write_price = None,
     storage_price = None, memory_price = None, tip_price = None \<rparr>"

definition prices_is_empty :: "Prices \<Rightarrow> bool" where
  "prices_is_empty self \<longleftrightarrow> self = prices_default"

definition add_mul :: "u128 option \<Rightarrow> u128 \<Rightarrow> u128 \<Rightarrow> u128" where
  "add_mul price usage tot =
     (case price of
        Some price \<Rightarrow> (let cost = saturating_mul price usage in saturating_add tot cost)
      | None \<Rightarrow> tot)"

definition cost_of :: "Prices \<Rightarrow> AppMetrics \<Rightarrow> u128" where
  "cost_of self rhs =
     (let running_time = am_running_time_ms rhs div 1000;
          tot = add_mul (general_fee_per_second self) (ucast running_time) 0;
          tot = add_mul (gas_price self) (ucast (am_gas_consumed rhs)) tot;
          tot = add_mul (net_ingress_price self) (ucast (am_network_ingress rhs)) tot;
          tot = add_mul (net_egress_price self) (ucast (am_network_egress rhs)) tot;
          tot = add_mul (storage_read_price self) (ucast (am_storage_read rhs)) tot;
          tot = add_mul (storage_write_price self) (ucast (am_storage_write rhs)) tot;
          tot = add_mul (storage_price self) (am_storage_used rhs) tot;
          tot = add_mul (memory_price self) (am_memory_used rhs) tot;
          tot = add_mul (tip_price self) (ucast (am_tip rhs)) tot
      in tot)"

definition opt_or :: "'a option \<Rightarrow> 'a option \<Rightarrow> 'a option" where
  "opt_or a b = (case a of Some v \<Rightarrow> Some v | None \<Rightarrow> b)"

definition prices_merge :: "Prices \<Rightarrow> Prices \<Rightarrow> Prices" where
  "prices_merge self other =
     \<lparr> general_fee_per_second = opt_or (general_fee_per_second self) (general_fee_per_second other),
       gas_price = opt_or (gas_price self) (gas_price other),
       net_ingress_price = opt_or (net_ingress_price self) (net_ingress_price other),
       net_egress_price = opt_or (net_egress_price self) (net_egress_price other),
       storage_read_price = opt_or (storage_read_price self) (storage_read_price other),
       storage_write_price = opt_or (storage_write_price self) (storage_write_price other),
       storage_price = opt_or (storage_price self) (storage_price other),
       memory_price = opt_or (memory_price self) (memory_price other),
       tip_price = opt_or (tip_price self) (tip_price other) \<rparr>"

section \<open>Lemmas\<close>

lemma content_type_u8_inject: "content_type_u8 c = content_type_u8 c' \<longleftrightarrow> c = c'"
  by (cases c; cases c'; simp)

lemma wrap_message_inject:
  "wrap_message c m = wrap_message c' m' \<longleftrightarrow> c = c' \<and> m = m'"
  by (simp add: wrap_message_def wrap_message_iter_def content_type_u8_inject)

lemma wrap_app_data_eq: "wrap_app_data a m = wrap_message AppData (a @ m)"
  by (simp add: wrap_app_data_def wrap_message_def)

lemma bounded_push_bound:
  "length (inner bv) \<le> B \<Longrightarrow> length (inner (snd (bounded_push B v bv))) \<le> B"
  by (simp add: bounded_push_def)

lemma bounded_push_pop:
  "bounded_push B v bv = (Ok (), bv') \<Longrightarrow> bounded_pop bv' = (Some v, bv)"
  by (cases bv) (auto simp: bounded_push_def bounded_pop_def split: if_splits)

lemma bounded_decode_bound:
  "bounded_decode B dec input = Ok (bv, rest) \<Longrightarrow> length (inner bv) \<le> B"
  by (auto simp: bounded_decode_def and_then_eq_Ok split: if_splits)

lemma trailing_zero_read_spec:
  "fst (trailing_zero_read n self) = take n (self @ replicate n 0) \<and>
   snd (trailing_zero_read n self) = drop n self"
  by (auto simp: trailing_zero_read_def Let_def min_def)

lemma trailing_zero_read_all: "length self = n \<Longrightarrow> fst (trailing_zero_read n self) = self"
  by (simp add: trailing_zero_read_spec)

text \<open>What a price list charges, computed without bounds.\<close>

definition charges :: "Prices \<Rightarrow> AppMetrics \<Rightarrow> (u128 option \<times> u128) list" where
  "charges p m =
     [(general_fee_per_second p, ucast (am_running_time_ms m div 1000)),
      (gas_price p, ucast (am_gas_consumed m)), (net_ingress_price p, ucast (am_network_ingress m)),
      (net_egress_price p, ucast (am_network_egress m)), (storage_read_price p, ucast (am_storage_read m)),
      (storage_write_price p, ucast (am_storage_write m)), (storage_price p, am_storage_used m),
      (memory_price p, am_memory_used m), (tip_price p, ucast (am_tip m))]"

definition exact_charge :: "u128 option \<times> u128 \<Rightarrow> nat" where
  "exact_charge = (\<lambda>(price, usage). case price of None \<Rightarrow> 0 | Some p \<Rightarrow> unat p * unat usage)"

lemma capped_add: "min (a + min b m) m = min (a + b) m" for a b m :: nat
  by arith

lemma unat_add_mul: "unat (add_mul price usage t) = min (unat t + exact_charge (price, usage)) (2 ^ 128 - 1)"
  using unat_le_max [of t]
  by (cases price) (simp_all add: add_mul_def exact_charge_def word_arith_simps Let_def capped_add min_def)

lemma unat_fold_add_mul:
  "unat (foldl (\<lambda>t (price, usage). add_mul price usage t) t cs) =
   min (unat t + sum_list (map exact_charge cs)) (2 ^ 128 - 1)"
proof (induction cs arbitrary: t)
  case Nil
  show ?case using unat_le_max [of t] by simp
next
  case (Cons c cs)
  obtain price usage where c: "c = (price, usage)" by (cases c)
  have "min (min (a + b) m + d) m = min (a + (b + d)) m" for a b d m :: nat by arith
  then show ?case unfolding c foldl_Cons prod.case Cons.IH unat_add_mul by simp
qed

lemma cost_of_fold: "cost_of p m = foldl (\<lambda>t (price, usage). add_mul price usage t) 0 (charges p m)"
  by (simp add: cost_of_def charges_def Let_def)

lemma opt_or_assoc: "opt_or (opt_or a b) c = opt_or a (opt_or b c)"
  by (simp add: opt_or_def split: option.splits)

lemma prices_merge_assoc: "prices_merge (prices_merge a b) c = prices_merge a (prices_merge b c)"
  by (simp add: prices_merge_def opt_or_assoc)

lemma prices_merge_default: "prices_merge prices_default p = p" "prices_merge p prices_default = p"
  by (simp_all add: prices_merge_def prices_default_def opt_or_def option.case_eq_if)

section \<open>Properties\<close>

text \<open>
  C28: signed messages cannot be confused: the bytes signed for two messages are equal only if both
  the content types and the messages are; so what is signed as one app's data is never valid as
  metrics, a session update or any other type of message, nor, addresses having 32
  bytes, as the data of another app or as other data of the same app.
\<close>

theorem signed_messages_separate:
  assumes "length a = 32" "length a' = 32"
  shows "(wrap_message c m = wrap_message c' m' \<longleftrightarrow> c = c' \<and> m = m') \<and>
    (wrap_app_data a d = wrap_app_data a' d' \<longleftrightarrow> a = a' \<and> d = d') \<and>
    (wrap_app_data a d = wrap_message c m \<longleftrightarrow> c = AppData \<and> m = a @ d)"
  using assms by (auto simp: wrap_app_data_eq wrap_message_inject)

theorem signed_messages_separate_witness:
  "wrap_app_data (replicate 32 1) [5] \<noteq> wrap_app_data (replicate 32 2) [5] \<and>
   wrap_app_data (replicate 32 1) [5] \<noteq> wrap_message MetricsContent [7]"
  using signed_messages_separate [of "replicate 32 1" "replicate 32 2" AppData "[]" MetricsContent "[7]" "[5]" "[5]"]
    signed_messages_separate [of "replicate 32 1" "replicate 32 2" MetricsContent "[7]" MetricsContent "[7]" "[5]" "[5]"]
  by (simp add: numeral_eq_Suc)

text \<open>
  The cost of metrics is exact: it is the sum, over the prices that are set, of price
  times usage (running time in whole seconds), capped at the largest 128-bit value; no
  intermediate step wraps or loses anything below the cap.
\<close>

lemma cost_of_exact:
  "unat (cost_of p m) =
   min (exact_charge (general_fee_per_second p, ucast (am_running_time_ms m div 1000)) +
        exact_charge (gas_price p, ucast (am_gas_consumed m)) +
        exact_charge (net_ingress_price p, ucast (am_network_ingress m)) +
        exact_charge (net_egress_price p, ucast (am_network_egress m)) +
        exact_charge (storage_read_price p, ucast (am_storage_read m)) +
        exact_charge (storage_write_price p, ucast (am_storage_write m)) +
        exact_charge (storage_price p, am_storage_used m) +
        exact_charge (memory_price p, am_memory_used m) +
        exact_charge (tip_price p, ucast (am_tip m))) (2 ^ 128 - 1)"
  unfolding cost_of_fold unat_fold_add_mul by (simp add: charges_def add.assoc)

end
