(* ===== verification/Vm_Properties.thy ===== *)
theory Vm_Properties
  imports Vm_Context "HOL-Library.Sublist"
begin

text \<open>
  What the ocall handlers guarantee: the step relation of all ocalls with the invariant every one of
  them keeps, the boot data round trip, replies delivered at most once, no resource leaked by a
  failed push, and the limits on what a guest may listen on and connect to.
\<close>

section \<open>Every ocall keeps the invariant\<close>

inductive ocall_step ::
  "'r RuntimeCalls \<Rightarrow> 'c Lru \<Rightarrow> HostEnv \<Rightarrow> ('r, 'c) WapoCtx \<Rightarrow> ('r, 'c) WapoCtx \<Rightarrow> bool"
  for RC :: "'r RuntimeCalls" and C :: "'c Lru" and env :: HostEnv where
  step_close: "ocall_step RC C env ctx (snd (ocall_close rid ctx))"
| step_poll: "ocall_step RC C env ctx (snd (ocall_poll env wid rid ctx))"
| step_poll_read: "ocall_poll_read env wid rid n ctx = Some (r, ctx') \<Longrightarrow> ocall_step RC C env ctx ctx'"
| step_poll_write: "ocall_poll_write env wid rid d ctx = Some (r, ctx') \<Longrightarrow> ocall_step RC C env ctx ctx'"
| step_poll_shutdown: "ocall_step RC C env ctx (snd (ocall_poll_shutdown env wid rid ctx))"
| step_poll_res: "ocall_step RC C env ctx (snd (ocall_poll_res env wid rid ctx))"
| step_mark_task_ready: "ocall_step RC C env ctx (snd (ocall_mark_task_ready tid ctx))"
| step_next_ready_task: "ocall_step RC C env ctx (snd (ocall_next_ready_task ctx))"
| step_awake_wakers: "ocall_step RC C env ctx (snd (ocall_awake_wakers ctx))"
| step_create_timer: "ocall_step RC C env ctx (snd (ocall_create_timer env tm ctx))"
| step_reset_timer: "ocall_step RC C env ctx (snd (ocall_reset_timer env rid tm ctx))"
| step_enable_ocall_trace: "ocall_step RC C env ctx (snd (ocall_enable_ocall_trace b ctx))"
| step_getrandom: "ocall_step RC C env ctx (snd (ocall_getrandom env n ctx))"
| step_tcp_listen: "ocall_step RC C env ctx (snd (ocall_tcp_listen env addr tls ctx))"
| step_tcp_accept: "ocall_step RC C env ctx (snd (ocall_tcp_accept env wid rid ctx))"
| step_tcp_accept_no_addr: "ocall_step RC C env ctx (snd (ocall_tcp_accept_no_addr env wid rid ctx))"
| step_tcp_connect: "ocall_step RC C env ctx (snd (ocall_tcp_connect RC env host port ctx))"
| step_tcp_connect_tls: "ocall_step RC C env ctx (snd (ocall_tcp_connect_tls RC env host port ctx))"
| step_tls_listen_sni: "ocall_step RC C env ctx (snd (ocall_tls_listen_sni env sni conf ctx))"
| step_oneshot_send: "ocall_step RC C env ctx (snd (ocall_oneshot_send env rid d ctx))"
| step_oneshot_send_error: "ocall_step RC C env ctx (snd (ocall_oneshot_send_error env rid msg ctx))"
| step_create_input_channel: "ocall_step RC C env ctx (snd (ocall_create_input_channel RC env ch ctx))"
| step_log: "ocall_step RC C env ctx (snd (ocall_log RC lvl msg ctx))"
| step_app_address: "ocall_step RC C env ctx (snd (ocall_app_address ctx))"
| step_emit_program_output: "ocall_step RC C env ctx (snd (ocall_emit_program_output RC d ctx))"
| step_blob_get: "ocall_step RC C env ctx (snd (ocall_blob_get env hs ctx))"
| step_sign: "ocall_step RC C env ctx (snd (ocall_sign RC d ctx))"
| step_worker_pubkey: "ocall_step RC C env ctx (snd (ocall_worker_pubkey RC ctx))"
| step_sgx_quote: "ocall_step RC C env ctx (snd (ocall_sgx_quote RC d ctx))"
| step_tip: "ocall_step RC C env ctx (snd (ocall_tip v ctx))"
| step_app_gas_consumed: "ocall_step RC C env ctx (snd (ocall_app_gas_consumed RC ctx))"
| step_derive_secret: "ocall_step RC C env ctx (snd (ocall_derive_secret RC d ctx))"
| step_read_boot_data: "ocall_step RC C env ctx (snd (ocall_read_boot_data RC C env ctx))"
| step_write_boot_data: "ocall_step RC C env ctx (snd (ocall_write_boot_data RC C env d ctx))"
| step_app_try_lock: "ocall_step RC C env ctx (snd (ocall_app_try_lock RC path ctx))"
| step_app_unlock: "ocall_step RC C env ctx (snd (ocall_app_unlock RC path ctx))"
| step_push_query: "ocall_step RC C env ctx (snd (push_query env acc path d reply ctx))"
| step_push_http_request: "ocall_step RC C env ctx (snd (push_http_request env head body ctx))"

text \<open>
  The invariant: the table is within its limit; the sender of a query or HTTP channel is set
  only once and never lost; replies and messages sent are never taken back.
\<close>

definition ctx_frame :: "('r, 'c) WapoCtx \<Rightarrow> ('r, 'c) WapoCtx \<Rightarrow> bool" where
  "ctx_frame ctx ctx' \<longleftrightarrow>
     vm_id ctx' = vm_id ctx \<and> config ctx' = config ctx \<and> weight ctx' = weight ctx \<and>
     (query_tx ctx \<noteq> None \<longrightarrow> query_tx ctx' = query_tx ctx) \<and>
     (http_connect_tx ctx \<noteq> None \<longrightarrow> http_connect_tx ctx' = http_connect_tx ctx) \<and>
     prefix (sent ctx) (sent ctx') \<and> prefix (pushed ctx) (pushed ctx')"

definition ctx_ok :: "('r, 'c) WapoCtx \<Rightarrow> bool" where
  "ctx_ok ctx \<longleftrightarrow> table_ok (resources ctx)"

definition keeps :: "('r, 'c) WapoCtx \<Rightarrow> ('r, 'c) WapoCtx \<Rightarrow> bool" where
  "keeps ctx ctx' \<longleftrightarrow> (ctx_ok ctx \<longrightarrow> ctx_ok ctx') \<and> ctx_frame ctx ctx'"

named_theorems keeps_intros \<open>handlers and updates that keep the invariant\<close>

lemma keeps_trans: "keeps a b \<Longrightarrow> keeps b c \<Longrightarrow> keeps a c"
  unfolding keeps_def ctx_frame_def by (auto intro: prefix_order.trans)

lemma table_ok_push: "table_push r t = (res, t') \<Longrightarrow> table_ok t \<Longrightarrow> table_ok t'"
  by (cases res) (auto dest: table_push_Ok table_push_Err)

lemma table_ok_take: "table_take rid t = (res, t') \<Longrightarrow> table_ok t \<Longrightarrow> table_ok t'"
  by (auto dest: table_take_lookup)

lemma table_set_ok: "table_ok t \<Longrightarrow> table_ok (table_set rid r t)"
  by (simp add: table_ok_def table_set_def)

lemmas ctx_defs =
  charge_def update_meter_def update_tasks_def ctx_push_def ctx_close_def make_poll_context_def
  end_poll_context_def push_accepted_def Let_def keeps_def ctx_frame_def ctx_ok_def

lemmas ctx_splits = prod.splits result.splits option.splits poll.splits

lemma keeps_poll [keeps_intros]:
  "keeps ctx (snd (ocall_close rid ctx))"
  "keeps ctx (snd (ocall_poll env wid rid ctx))"
  "ocall_poll_read env wid rid n ctx = Some (r, ctx') \<Longrightarrow> keeps ctx ctx'"
  "ocall_poll_write env wid rid d ctx = Some (r2, ctx') \<Longrightarrow> keeps ctx ctx'"
  "keeps ctx (snd (ocall_poll_shutdown env wid rid ctx))"
  "keeps ctx (snd (ocall_poll_res env wid rid ctx))"
  by (auto simp: ocall_close_def ocall_poll_def ocall_poll_read_def ocall_poll_write_def
      ocall_poll_shutdown_def ocall_poll_res_def ctx_defs table_set_ok split: ctx_splits
      dest: table_ok_push table_ok_take)

lemma keeps_tasks [keeps_intros]:
  "keeps ctx (snd (ocall_mark_task_ready tid ctx))"
  "keeps ctx (snd (ocall_next_ready_task ctx))"
  "keeps ctx (snd (ocall_awake_wakers ctx))"
  "keeps ctx (snd (ocall_create_timer env tm ctx))"
  "keeps ctx (snd (ocall_reset_timer env rid tm ctx))"
  "keeps ctx (snd (ocall_enable_ocall_trace b ctx))"
  "keeps ctx (snd (ocall_getrandom env n ctx))"
  by (auto simp: ocall_mark_task_ready_def ocall_next_ready_task_def ocall_awake_wakers_def
      ocall_create_timer_def ocall_reset_timer_def ocall_enable_ocall_trace_def ocall_getrandom_def
      ctx_defs split: ctx_splits Resource.splits dest: table_ok_push)

lemma keeps_network [keeps_intros]:
  "keeps ctx (snd (ocall_tcp_listen env addr tls ctx))"
  "keeps ctx (snd (ocall_tcp_accept env wid rid ctx))"
  "keeps ctx (snd (ocall_tcp_accept_no_addr env wid rid ctx))"
  "keeps ctx (snd (ocall_tcp_connect RC env host port ctx))"
  "keeps ctx (snd (ocall_tcp_connect_tls RC env host port ctx))"
  "keeps ctx (snd (ocall_tls_listen_sni env sni conf ctx))"
  by (cases conf; auto simp: ocall_tcp_listen_def ocall_tcp_accept_def ocall_tcp_accept_no_addr_def
      ocall_tcp_connect_def ocall_tcp_connect_tls_def ctx_defs split: ctx_splits Resource.splits
      dest: table_ok_push)+

lemma keeps_channels [keeps_intros]:
  "keeps ctx (snd (ocall_oneshot_send env rid d ctx))"
  "keeps ctx (snd (ocall_oneshot_send_error env rid msg ctx))"
  "keeps ctx (snd (ocall_create_input_channel RC env ch ctx))"
  by (cases ch; auto simp: ocall_oneshot_send_def ocall_oneshot_send_error_def oneshot_reply_def
      ctx_defs table_set_ok split: ctx_splits Resource.splits dest: table_ok_push)+

lemma keeps_misc [keeps_intros]:
  "keeps ctx (snd (ocall_log RC lvl msg ctx))"
  "keeps ctx (snd (ocall_app_address ctx))"
  "keeps ctx (snd (ocall_emit_program_output RC d ctx))"
  "keeps ctx (snd (ocall_blob_get env hs ctx))"
  "keeps ctx (snd (ocall_sign RC d ctx))"
  "keeps ctx (snd (ocall_worker_pubkey RC ctx))"
  "keeps ctx (snd (ocall_sgx_quote RC d ctx))"
  "keeps ctx (snd (ocall_tip v ctx))"
  "keeps ctx (snd (ocall_app_gas_consumed RC ctx))"
  "keeps ctx (snd (ocall_derive_secret RC d ctx))"
  "keeps ctx (snd (ocall_app_try_lock RC path ctx))"
  "keeps ctx (snd (ocall_app_unlock RC path ctx))"
  by (auto simp: ocall_log_def ocall_app_address_def ocall_emit_program_output_def ocall_blob_get_def
      ocall_sign_def ocall_worker_pubkey_def ocall_sgx_quote_def ocall_tip_def
      ocall_app_gas_consumed_def ocall_derive_secret_def ocall_app_try_lock_def ocall_app_unlock_def
      ctx_defs split: ctx_splits)

lemma keeps_boot_data [keeps_intros]:
  "keeps ctx (snd (ocall_read_boot_data RC C env ctx))"
  "keeps ctx (snd (ocall_write_boot_data RC C env d ctx))"
  by (auto simp: ocall_read_boot_data_def ocall_write_boot_data_def ocall_derive_secret_def ctx_defs
      split: ctx_splits if_splits)

lemma keeps_push [keeps_intros]:
  "keeps ctx (snd (push_query env acc path d reply ctx))"
  "keeps ctx (snd (push_http_request env head body ctx))"
  by (auto simp: push_query_def push_http_request_def ctx_defs split: ctx_splits
      dest: table_ok_push table_ok_take)

lemma ocall_step_keeps: "ocall_step RC C env ctx ctx' \<Longrightarrow> keeps ctx ctx'"
  by (induction rule: ocall_step.induct) (rule keeps_intros, assumption?)+

text \<open>
  C23: over every sequence of ocalls a guest can make and messages the host can push, whatever
  the environment answers, the resource table stays within its limit; an input channel,
  once created, is neither replaced nor lost; the instance's identity, limits and scheduling weight
  do not change; and what was sent is never taken back.
\<close>

theorem ocalls_keep_context:
  assumes "(\<lambda>a b. \<exists>env. ocall_step RC C env a b)\<^sup>*\<^sup>* ctx ctx'" "table_ok (resources ctx)"
  shows "table_ok (resources ctx') \<and> ctx_frame ctx ctx'"
proof -
  from assms(1) have "keeps ctx ctx'"
  proof (induction rule: rtranclp_induct)
    case base
    show ?case by (simp add: keeps_def ctx_frame_def)
  next
    case (step a b)
    then show ?case using ocall_step_keeps keeps_trans by blast
  qed
  with assms(2) show ?thesis by (simp add: keeps_def ctx_ok_def)
qed

definition demo_env :: HostEnv where
  "demo_env = IoEnv.extend io_idle (HostEnv.fields
     0 0 False 11 12 (\<lambda>_. Some 8080) (\<lambda>_. Ok 5) (\<lambda>_. Ok 6) (\<lambda>_. Pend) (\<lambda>a b. a) (\<lambda>_. Pend)
     (\<lambda>_ _. Some 7) (\<lambda>_ _ _. Some 8) (\<lambda>_. True) (\<lambda>_. True) (\<lambda>_. True) (\<lambda>_. True)
     (\<lambda>n. replicate n 0) demo_libs (\<lambda>_. False) None
     (\<lambda>k n d. Some (d @ replicate 16 0)) (\<lambda>k n d. Some (take (length d - 16) d)))"

definition demo_ctx :: "(unit, string \<Rightarrow> bytes option) WapoCtx" where
  "demo_ctx = ctx_new [1, 2] () \<lparr> files = Map.empty, tmp_files = Map.empty \<rparr> Map.empty (meter_default 0)
     \<lparr> tcp_listen_port_range = (8000, 9000), sni_tls_listener = None \<rparr>"

theorem ocalls_keep_context_witness:
  "ctx_frame demo_ctx (snd (ocall_tip 5 demo_ctx)) \<and>
   table_ok (resources (snd (ocall_tip 5 demo_ctx)))"
proof -
  have "table_ok (resources demo_ctx)" by (simp add: demo_ctx_def ctx_new_def table_ok_def)
  moreover have "(\<lambda>a b. \<exists>env. ocall_step unit_runtime_calls demo_lru env a b)\<^sup>*\<^sup>* demo_ctx
      (snd (ocall_tip 5 demo_ctx))"
    by (rule r_into_rtranclp) (blast intro: ocall_step.step_tip)
  ultimately show ?thesis using ocalls_keep_context by blast
qed

section \<open>Boot data\<close>

text \<open>
  The documented behaviour of the cipher: encryption adds a 16-byte tag and decryption
  with the same key and nonce undoes it.
\<close>

definition aead_ok :: "HostEnv \<Rightarrow> bool" where
  "aead_ok env \<longleftrightarrow>
     (\<forall>k n d. \<exists>c. aead_encrypt env k n d = Some c \<and> length c = length d + 16 \<and>
        aead_decrypt env k n c = Some d) \<and>
     (\<forall>n. length (random_bytes env n) = n)"

lemma decrypt_encrypt:
  assumes "aead_ok env" "encrypt env data key = Ok e" "length data < 2 ^ 60"
  shows "decrypt env e key = Ok data \<and> length e = length data + 28"
proof -
  let ?n = "random_bytes env 12"
  obtain c where c: "aead_encrypt env (take 32 key) ?n data = Some c" "length c = length data + 16"
    "aead_decrypt env (take 32 key) ?n c = Some data" and n: "length ?n = 12"
    using assms(1) unfolding aead_ok_def by metis
  with assms(2) have e: "e = c @ ?n" by (simp add: encrypt_def)
  have "unat (of_nat (length e) - 12 :: 64 word) = unat (of_nat (length c) :: 64 word)"
    by (simp add: e n)
  also have "take_bit LENGTH(64) (length c) = length c"
    by (rule take_bit_nat_eq_self) (use c(2) assms(3) in simp)
  then have "unat (of_nat (length c) :: 64 word) = length c" by (simp only: unsigned_of_nat of_nat_id)
  finally show ?thesis using c n by (simp add: decrypt_def e)
qed

lemma encrypt_defined: "aead_ok env \<Longrightarrow> \<exists>e. encrypt env data key = Ok e"
  unfolding aead_ok_def encrypt_def by (metis and_then_simps(1) ok_or_simps(1))

text \<open>
  Boot data that was written is read back, if it is at most 65508 bytes long. The limit of
  64 KiB is checked on the plain data when writing but on the encrypted file, 28 bytes longer,
  when reading: longer data that \<open>write_boot_data\<close> accepts cannot be read back.
\<close>

lemma boot_data_roundtrip:
  assumes "lru_ok C" "aead_ok env" "aead_decrypt env' = aead_decrypt env"
    and "blob_libs env' = blob_libs env" "fs_fails env' = (\<lambda>_. False)"
    and "ocall_write_boot_data RC C env data ctx = (Ok (), ctx')"
  shows "fst (ocall_read_boot_data RC C env' ctx') =
    (if length data \<le> 65508 then Ok (Some data) else Err IoError)"
proof -
  let ?name = "boot_filename (blob_libs env) (vm_id ctx)"
  let ?key = "rc_derive_secret RC enc_bootdata (runtime ctx)"
  have short: "length enc_bootdata \<le> 256" by (simp add: enc_bootdata_def)
  then have ds: "ocall_derive_secret RC enc_bootdata c =
      (Ok (rc_derive_secret RC enc_bootdata (runtime c)), charge (1000 + of_nat (length enc_bootdata)) c)" for c
    by (simp add: ocall_derive_secret_def charge_def)
  from assms(6) have len: "length data \<le> 65536"
    by (auto simp: ocall_write_boot_data_def MAX_BOOT_DATA_SIZE_def split: if_splits)
  obtain e where e: "encrypt env data ?key = Ok e" using encrypt_defined [OF assms(2)] by blast
  then have dec: "decrypt env e ?key = Ok data" and el: "length e = length data + 28"
    using decrypt_encrypt [OF assms(2) e] len by auto
  have "decrypt env' = decrypt env" by (intro ext) (simp only: decrypt_def assms(3))
  with dec have dec': "decrypt env' e ?key = Ok data" by simp
  from assms(6) e len obtain st cache where
    put: "put_raw C (fs_fails env) (fs_partial env) ?name e (blob_store ctx, blob_cache ctx) = (Ok (), st, cache)"
    and ctx': "blob_store ctx' = st" "blob_cache ctx' = cache" "vm_id ctx' = vm_id ctx" "runtime ctx' = runtime ctx"
    by (auto simp: ocall_write_boot_data_def MAX_BOOT_DATA_SIZE_def ds charge_def or_err_def Let_def
        split: prod.splits result.splits)
  obtain r st2 cache2 where g: "get_raw C (\<lambda>_. False) ?name MAX_BOOT_DATA_SIZE (st, cache) = (r, st2, cache2)"
    by (metis surj_pair)
  from put_raw_get_raw [OF assms(1) put, of MAX_BOOT_DATA_SIZE] g el
  have "r = (if length data \<le> 65508 then Ok (Some e) else Err TooLarge)"
    by (simp add: MAX_BOOT_DATA_SIZE_def)
  then show ?thesis
    using g dec' assms(4,5) ctx' by (simp add: ocall_read_boot_data_def ds)
qed

lemma demo_env_sel:
  "fs_fails demo_env = (\<lambda>_. False)" "blob_libs demo_env = demo_libs"
  "random_bytes demo_env = (\<lambda>n. replicate n 0)"
  "aead_encrypt demo_env = (\<lambda>k n d. Some (d @ replicate 16 0))"
  "aead_decrypt demo_env = (\<lambda>k n d. Some (take (length d - 16) d))"
  "oneshot_open demo_env = (\<lambda>_. True)" "chan_room demo_env = (\<lambda>_. True)"
  "new_handle demo_env = 11" "socket_port demo_env = (\<lambda>_. Some 8080)"
  "bind_listener demo_env = (\<lambda>_. Ok 5)" "server_name_ok demo_env = (\<lambda>_. True)"
  by (simp_all add: demo_env_def IoEnv.extend_def HostEnv.fields_def)

lemma demo_aead_ok: "aead_ok demo_env"
  by (simp add: aead_ok_def demo_env_sel)

section \<open>Replies and pushes\<close>

text \<open>
  A reply is delivered at most once: the first attempt to send on a reply resource delivers
  the message if the receiver is still there, and every attempt after it fails without
  sending anything, whatever the first one returned.
\<close>

lemma oneshot_reply_at_most_once:
  assumes "table_ok (resources ctx)" "table_get rid (resources ctx) = Ok (OneshotTx (Some s))"
    and "oneshot_reply env rid msg ctx = (r, ctx')"
  shows "sent ctx' = sent ctx @ (if r = Ok () then [(s, msg)] else []) \<and>
    (r = Ok () \<longleftrightarrow> oneshot_open env s) \<and>
    oneshot_reply env' rid msg' ctx' = (Err IoError, ctx')"
proof -
  from assms have r: "resources ctx' = table_set rid (OneshotTx None) (resources ctx)"
    and s: "r = (if oneshot_open env s then Ok () else Err IoError)"
    "sent ctx' = sent ctx @ (if oneshot_open env s then [(s, msg)] else [])"
    by (auto simp: oneshot_reply_def Let_def split: if_splits)
  from table_set_lookup [OF assms(1,2), of "OneshotTx None"]
  have "table_get rid (resources ctx') = Ok (OneshotTx None)" by (simp add: r)
  then show ?thesis using s by (simp add: oneshot_reply_def)
qed

lemma ctx_push_lookup:
  assumes "table_ok (resources ctx)" "ctx_push res ctx = (r, ctx')"
  shows "case r of
      Ok rid \<Rightarrow> table_ok (resources ctx') \<and> table_get rid (resources ctx) = Err NotFound \<and>
        (\<forall>j. table_get j (resources ctx') = (if j = rid then Ok res else table_get j (resources ctx)))
    | Err e \<Rightarrow> ctx' = ctx"
  using assms
  by (cases r) (auto simp: ctx_push_def Let_def split: prod.splits dest: table_push_Ok table_push_Err)

lemma ctx_close_lookup:
  assumes "table_ok (resources ctx)" "ctx_close rid ctx = (r, ctx')"
  shows "table_ok (resources ctx') \<and> pushed ctx' = pushed ctx \<and>
    (\<forall>j. table_get j (resources ctx') = (if j = rid then Err NotFound else table_get j (resources ctx)))"
  using assms
  by (auto simp: ctx_close_def Let_def split: prod.splits option.splits dest: table_take_lookup)

lemma ctx_push_pushed: "ctx_push res ctx = (r, ctx') \<Longrightarrow> pushed ctx' = pushed ctx \<and> query_tx ctx' = query_tx ctx"
  by (auto simp: ctx_push_def Let_def split: prod.splits)

lemma pushed_close: "pushed (snd (ctx_close rid ctx)) = pushed ctx"
  by (simp add: ctx_close_def Let_def split: prod.splits option.splits)

text \<open>
  Pushing a query leaks nothing: if it fails, every resource id means what it meant
  before and nothing was sent; if it succeeds on an open channel, exactly one message was sent, and
  the reply id in it is a new resource holding the caller's reply sender.
\<close>

lemma push_query_no_leak:
  assumes "table_ok (resources ctx)" "query_tx ctx = Some tx"
    and "push_query env acc path payload reply ctx = (r, ctx')"
  shows "case r of
      Err _ \<Rightarrow> pushed ctx' = pushed ctx \<and>
        (\<forall>j. table_get j (resources ctx') = table_get j (resources ctx))
    | Ok _ \<Rightarrow> \<exists>rid. pushed ctx' = pushed ctx @ [(tx, QueryRequest acc path payload rid)] \<and>
        table_get rid (resources ctx) = Err NotFound \<and>
        (\<forall>j. table_get j (resources ctx') =
           (if j = rid then Ok (OneshotTx (Some reply)) else table_get j (resources ctx)))"
proof -
  obtain p ctx1 where p: "ctx_push (OneshotTx (Some reply)) ctx = (p, ctx1)" by fastforce
  note look = ctx_push_lookup [OF assms(1) p] and keep = ctx_push_pushed [OF p]
  show ?thesis
  proof (cases p)
    case (Err e)
    with look assms(2,3) p show ?thesis by (auto simp: push_query_def)
  next
    case (Ok rid)
    obtain q ctx2 where q: "ctx_close rid ctx1 = (q, ctx2)" by fastforce
    from look Ok have ok1: "table_ok (resources ctx1)" by simp
    note close = ctx_close_lookup [OF ok1 q]
    show ?thesis
    proof (cases "chan_room env tx")
      case True
      with look Ok keep assms(2,3) p show ?thesis by (auto simp: push_query_def)
    next
      case False
      with look Ok keep assms(2,3) p q close show ?thesis by (auto simp: push_query_def)
    qed
  qed
qed

text \<open>
  The network a guest can reach is limited by the worker: it listens only on a port in the
  configured range, and opens a connection, plain or TLS, only to a host the worker's filter
  admits, named by at most 253 characters; otherwise no resource is created.
\<close>

lemma network_limits:
  "(fst (ocall_tcp_listen env addr tls ctx) = Ok rid \<longrightarrow>
      (\<exists>port. socket_port env addr = Some port \<and> fst (tcp_listen_port_range (config ctx)) \<le> port \<and>
         port \<le> snd (tcp_listen_port_range (config ctx)))) \<and>
   (\<not> (length host \<le> 253 \<and> rc_tcp_connect_allowed RC host (runtime ctx)) \<longrightarrow>
      \<not> is_ok (fst (ocall_tcp_connect RC env host port' ctx)) \<and>
      \<not> is_ok (fst (ocall_tcp_connect_tls RC env host port' ctx)) \<and>
      resources (snd (ocall_tcp_connect RC env host port' ctx)) = resources ctx \<and>
      resources (snd (ocall_tcp_connect_tls RC env host port' ctx)) = resources ctx)"
  by (auto simp: ocall_tcp_listen_def ocall_tcp_connect_def ocall_tcp_connect_tls_def charge_def Let_def
      split: option.splits if_splits)

end
