(* ===== verification/Vm_Service.thy ===== *)
theory Vm_Service
  imports Vm_Properties
begin

text \<open>
  The life of one instance (\<open>wapo-host/src/service.rs\<close>, \<open>wapo-host/src/run.rs\<close>): instantiating a
  module, one poll of the running code with its gas accounting, the loop that waits for the time
  limit, the code's end, commands and control messages, and restarts the code where configured,
  and the statuses and the exit reason that are reported. What wasmtime answers is the record
  \<open>WasmEnv\<close>; a \<open>moment\<close> is what one round of the loop finds: the clock, those answers and the
  running code as its own execution has left it.
\<close>

section \<open>Running a module\<close>

record 'r InstanceConfig =
  ic_id :: bytes
  ic_max_memory_pages :: u32
  ic_weight :: u32
  ic_epoch_deadline :: u64
  ic_runtime_calls :: 'r
  ic_envs :: "(string \<times> string) list"
  ic_args :: "string list"
  ic_tcp_listen_port_range :: "u16 \<times> u16"
  ic_sni_tls_listener :: "handle option"

record WasmEnv =
  ocalls_link :: bool
  args_ok :: "string list \<Rightarrow> bool"
  envs_ok :: "(string \<times> string) list \<Rightarrow> bool"
  wasi_links :: bool
  instantiates :: bool
  exports_func :: "string \<Rightarrow> bool"

datatype run_error =
    OcallsNotLinked | ArgsRejected | EnvsRejected | WasiNotLinked | MemorySizeTooLarge
  | InstantiationFailed | NoPollFunction

record ('r, 'c) WasmRun =
  wr_id :: bytes
  wr_ctx :: "('r, 'c) WapoCtx"
  wr_fuel :: u64
  wr_epoch_deadline :: u64
  wr_memory_size :: nat
  wr_entry :: string

definition usize_checked_mul :: "nat \<Rightarrow> nat \<Rightarrow> nat option" where
  "usize_checked_mul a b = (if a * b < 2 ^ 64 then Some (a * b) else None)"

definition wasm_module_run ::
  "WasmEnv \<Rightarrow> Store \<Rightarrow> 'c \<Rightarrow> Meter \<Rightarrow> 'r InstanceConfig \<Rightarrow> (('r, 'c) WasmRun, run_error) result" where
  "wasm_module_run we blobs cache m cfg =
     (let vm_config = \<lparr> tcp_listen_port_range = ic_tcp_listen_port_range cfg,
                        sni_tls_listener = ic_sni_tls_listener cfg \<rparr>;
          wapo_ctx = set_weight (ic_weight cfg)
            (ctx_new (ic_id cfg) (ic_runtime_calls cfg) blobs cache m vm_config)
      in if \<not> ocalls_link we then Err OcallsNotLinked
         else if \<not> args_ok we (ic_args cfg) then Err ArgsRejected
         else if \<not> envs_ok we (ic_envs cfg) then Err EnvsRejected
         else if \<not> wasi_links we then Err WasiNotLinked
         else case usize_checked_mul (unat (ic_max_memory_pages cfg)) (64 * 1024) of
                None \<Rightarrow> Err MemorySizeTooLarge
              | Some memory_size \<Rightarrow>
                  (if \<not> instantiates we then Err InstantiationFailed
                   else let run = (\<lambda>entry. \<lparr> wr_id = ic_id cfg, wr_ctx = wapo_ctx, wr_fuel = - 1,
                          wr_epoch_deadline = ic_epoch_deadline cfg, wr_memory_size = memory_size,
                          wr_entry = entry \<rparr>)
                     in if exports_func we ''wapo_poll'' then Ok (run ''wapo_poll'')
                        else if exports_func we ''sidevm_poll'' then Ok (run ''sidevm_poll'')
                        else Err NoPollFunction))"

text \<open>
  The ways a call into the code fails: it called \<open>proc_exit\<close>, or anything else. The callback of
  the epoch deadline interrupts code whose meter was stopped; \<open>wasm_run_sync_gas\<close> is
  \<open>WasmRun::sync_gas\<close>. In \<open>wasm_run_poll\<close>, \<open>rv\<close> is what the entry point returned and \<open>run\<close> the store
  after it; the flag in the result tells whether the executor's waker was woken.
\<close>

datatype wasm_error = I32Exit i32 | OtherError string

definition wasm_run_sync_gas :: "('r, 'c) WasmRun \<Rightarrow> ('r, 'c) WasmRun" where
  "wasm_run_sync_gas run =
     (let (fuel, m) = sync_gas (wr_fuel run, meter (wr_ctx run))
      in run\<lparr>wr_fuel := fuel, wr_ctx := (wr_ctx run)\<lparr>meter := m\<rparr>\<rparr>)"

definition epoch_deadline_callback ::
  "('r, 'c) WasmRun \<Rightarrow> (u64, wasm_error) result \<times> ('r, 'c) WasmRun" where
  "epoch_deadline_callback run =
     (if stopped (meter (wr_ctx run)) then (Err (OtherError ''stopped by meter''), run)
      else (Ok (wr_epoch_deadline run), wasm_run_sync_gas run))"

definition wasm_run_poll ::
  "(i32, wasm_error) result \<Rightarrow> ('r, 'c) WasmRun \<Rightarrow>
   (unit, wasm_error) result poll \<times> bool \<times> ('r, 'c) WasmRun" where
  "wasm_run_poll rv run =
     (let (result, woken) =
        (case rv of
           Ok v \<Rightarrow>
             if v = 0 then (Pend, has_more_ready_tasks (wr_ctx run))
             else if v = 1 then (Ready (Ok ()), False)
             else (Ready (Err (OtherError ''Invalid poll return value from wasm'')), False)
         | Err e \<Rightarrow> (Ready (Err e), False))
      in (result, woken, wasm_run_sync_gas run))"

section \<open>Statuses, commands and reasons\<close>

datatype VmStatus = LoadingCode | CreatingInstance | Running | StatusStopped string "string option"

datatype ExitReason =
    Exited i32 | Stopped | InputClosed | Trap | Cancelled | Restore | WaitingForCode
  | CodeTooLarge | FailedToStart

datatype ControlCommand = Stop | UpdateWeight u32

datatype Command =
    PushQuery (c_path: string) (c_origin: "bytes option") (c_payload: bytes) (c_reply_tx: handle)
  | PushHttp (c_head: string) (c_body_stream: handle)

record 'r InstanceStartConfig =
  sc_max_memory_pages :: u32
  sc_id :: bytes
  sc_weight :: u32
  sc_auto_restart :: bool
  sc_runtime_calls :: 'r
  sc_args :: "string list"
  sc_envs :: "(string \<times> string) list"
  sc_tcp_listen_port_range :: "u16 \<times> u16"
  sc_sni_tls_listener :: "handle option"
  sc_time_limit :: "duration option"

definition instance_config :: "'r InstanceStartConfig \<Rightarrow> 'r InstanceConfig" where
  "instance_config sc =
     \<lparr> ic_id = sc_id sc, ic_max_memory_pages = sc_max_memory_pages sc, ic_weight = sc_weight sc,
       ic_epoch_deadline = 10, ic_runtime_calls = sc_runtime_calls sc, ic_envs = sc_envs sc,
       ic_args = sc_args sc, ic_tcp_listen_port_range = sc_tcp_listen_port_range sc,
       ic_sni_tls_listener = sc_sni_tls_listener sc \<rparr>"

text \<open>The derived \<open>Debug\<close> form of a reason, which the last status carries.\<close>

fun show_digits :: "nat \<Rightarrow> string" where
  "show_digits n =
     (if n < 10 then [char_of (48 + n)] else show_digits (n div 10) @ [char_of (48 + n mod 10)])"

definition show_i32 :: "i32 \<Rightarrow> string" where
  "show_i32 i = (if sint i < 0 then CHR ''-'' # show_digits (nat (- sint i)) else show_digits (unat i))"

fun debug_reason :: "ExitReason \<Rightarrow> string" where
  "debug_reason (Exited code) = ''Exited('' @ show_i32 code @ '')''"
| "debug_reason Stopped = ''Stopped''"
| "debug_reason InputClosed = ''InputClosed''"
| "debug_reason Trap = ''Trap''"
| "debug_reason Cancelled = ''Cancelled''"
| "debug_reason Restore = ''Restore''"
| "debug_reason WaitingForCode = ''WaitingForCode''"
| "debug_reason CodeTooLarge = ''CodeTooLarge''"
| "debug_reason FailedToStart = ''FailedToStart''"

section \<open>The loop of an instance\<close>

text \<open>
  \<open>vm_iter_start\<close> is when the current round began, which is when its timer was made, and
  \<open>vm_restarts\<close> counts the restarts.
\<close>

record ('r, 'c) Vm =
  vm_run :: "('r, 'c) WasmRun"
  vm_start_time :: instant
  vm_iter_start :: instant
  vm_restarts :: nat

record ('r, 'c) moment =
  at :: instant
  h_env :: HostEnv
  w_env :: WasmEnv
  empty_cache :: 'c
  seen :: "('r, 'c) WasmRun"

datatype select_event =
    TimeUp | Exits "(unit, wasm_error) result" | Cmd "Command option" | Ctl "ControlCommand option"

datatype 's flow = Continue 's | Break ExitReason 's

definition MIN_LIVE_TIME :: duration where
  "MIN_LIVE_TIME = 10 * 1000000000"

definition exit_reason :: "(unit, wasm_error) result \<Rightarrow> ExitReason" where
  "exit_reason rv =
     (case rv of Ok _ \<Rightarrow> Exited 0 | Err (I32Exit code) \<Rightarrow> Exited code | Err (OtherError _) \<Rightarrow> Trap)"

definition run_ended ::
  "'r InstanceStartConfig \<Rightarrow> ('r, 'c) moment \<Rightarrow> (unit, wasm_error) result \<Rightarrow> ('r, 'c) Vm \<Rightarrow>
   ('r, 'c) Vm flow" where
  "run_ended sc m rv vm =
     (let ctx = wr_ctx (vm_run vm);
          live_time_allow_restart = elapsed (at m) (vm_start_time vm) > MIN_LIVE_TIME;
          need_restart = sc_auto_restart sc \<and> live_time_allow_restart \<and> \<not> stopped (meter ctx) \<and>
            sc_time_limit sc = None
      in if \<not> need_restart then Break (exit_reason rv) vm
         else let vm' = vm\<lparr>vm_start_time := at m\<rparr>
              in case wasm_module_run (w_env m) (blob_store ctx) (empty_cache m) (meter ctx)
                        (instance_config sc) of
                   Ok run \<Rightarrow> Continue (vm'\<lparr>vm_run := run, vm_restarts := Suc (vm_restarts vm)\<rparr>)
                 | Err _ \<Rightarrow> Break FailedToStart vm')"

definition update_ctx ::
  "(('r, 'c) WapoCtx \<Rightarrow> ('r, 'c) WapoCtx) \<Rightarrow> ('r, 'c) Vm \<Rightarrow> ('r, 'c) Vm" where
  "update_ctx f vm = vm\<lparr>vm_run := (vm_run vm)\<lparr>wr_ctx := f (wr_ctx (vm_run vm))\<rparr>\<rparr>"

definition select_arm ::
  "'r InstanceStartConfig \<Rightarrow> ('r, 'c) moment \<Rightarrow> select_event \<Rightarrow> ('r, 'c) Vm \<Rightarrow> ('r, 'c) Vm flow" where
  "select_arm sc m ev vm =
     (case ev of
        TimeUp \<Rightarrow> Break Stopped vm
      | Exits rv \<Rightarrow> run_ended sc m rv vm
      | Cmd None \<Rightarrow> Break InputClosed vm
      | Cmd (Some (PushQuery path origin payload reply_tx)) \<Rightarrow>
          Continue (update_ctx (\<lambda>c. snd (push_query (h_env m) origin path payload reply_tx c)) vm)
      | Cmd (Some (PushHttp head body_stream)) \<Rightarrow>
          Continue (update_ctx (\<lambda>c. snd (push_http_request (h_env m) head body_stream c)) vm)
      | Ctl None \<Rightarrow> Break InputClosed vm
      | Ctl (Some Stop) \<Rightarrow> Break Stopped vm
      | Ctl (Some (UpdateWeight w)) \<Rightarrow> Continue (update_ctx (set_weight w) vm))"

fun vm_loop ::
  "'r InstanceStartConfig \<Rightarrow> (('r, 'c) moment \<times> select_event) list \<Rightarrow> ('r, 'c) Vm \<Rightarrow>
   ExitReason option \<times> ('r, 'c) Vm" where
  "vm_loop sc [] vm = (None, vm)"
| "vm_loop sc ((m, ev) # evs) vm =
     (case select_arm sc m ev (vm\<lparr>vm_run := seen m\<rparr>) of
        Continue vm' \<Rightarrow> vm_loop sc evs (vm'\<lparr>vm_iter_start := at m\<rparr>)
      | Break reason vm' \<Rightarrow> (Some reason, vm'))"

text \<open>
  The timer of a round can only have fired once the limit has passed since the round began.
\<close>

definition time_up_enabled :: "'r InstanceStartConfig \<Rightarrow> ('r, 'c) Vm \<Rightarrow> instant \<Rightarrow> bool" where
  "time_up_enabled sc vm now \<longleftrightarrow>
     (case sc_time_limit sc of None \<Rightarrow> False | Some t \<Rightarrow> vm_iter_start vm + t \<le> now)"

text \<open>
  The task of an instance: the reason it ended with, if it has, the statuses sent and the meter it
  shares with its handle. The meter is stopped when the loop is left, however it is left.
\<close>

definition vm_task ::
  "'r InstanceStartConfig \<Rightarrow> (unit, string) result \<Rightarrow> (run_error \<Rightarrow> string) \<Rightarrow> ('r, 'c) moment \<Rightarrow>
   Store \<Rightarrow> Meter \<Rightarrow> (('r, 'c) moment \<times> select_event) list \<Rightarrow>
   ExitReason option \<times> VmStatus list \<times> Meter" where
  "vm_task sc loaded show_err m0 blobs mtr evs =
     (case loaded of
        Err e \<Rightarrow> (Some FailedToStart, [LoadingCode, StatusStopped e (Some e)], mtr)
      | Ok _ \<Rightarrow>
          (case wasm_module_run (w_env m0) blobs (empty_cache m0) mtr (instance_config sc) of
             Err e \<Rightarrow>
               (Some FailedToStart,
                [LoadingCode, CreatingInstance, StatusStopped (show_err e) (Some (show_err e))], mtr)
           | Ok run \<Rightarrow>
               (let (r, vm) = vm_loop sc evs
                      \<lparr> vm_run = run, vm_start_time = at m0, vm_iter_start = at m0, vm_restarts = 0 \<rparr>;
                    statuses = [LoadingCode, CreatingInstance, Running]
                in case r of
                     None \<Rightarrow> (None, statuses, meter (wr_ctx (vm_run vm)))
                   | Some reason \<Rightarrow>
                       (Some reason, statuses @ [StatusStopped (debug_reason reason) None],
                        meter_stop (meter (wr_ctx (vm_run vm)))))))"

text \<open>
  How the task itself ended, seen by the task that awaits it and reports: it returned, it was
  cancelled or it panicked.
\<close>

datatype 'a joined = Joined 'a | JoinCancelled | JoinPanicked

definition reported_reason :: "ExitReason joined \<Rightarrow> ExitReason" where
  "reported_reason j =
     (case j of Joined r \<Rightarrow> r | JoinCancelled \<Rightarrow> Cancelled | JoinPanicked \<Rightarrow> Trap)"

text \<open>
  The status sender is guarded: a task that is dropped or panics before it took the guard off
  reports an unknown error.
\<close>

definition guarded_statuses :: "'a joined \<Rightarrow> VmStatus list \<Rightarrow> VmStatus list" where
  "guarded_statuses j statuses =
     (case j of Joined _ \<Rightarrow> statuses | _ \<Rightarrow> statuses @ [StatusStopped ''Unknown error'' None])"

section \<open>The handle\<close>

text \<open>
  \<open>ctl_sent\<close> are the control messages in the instance's channel; \<open>ctl_open\<close> tells whether its
  receiver still exists and \<open>signalled\<close> whether the stop signal arrives rather than being dropped.
\<close>

record VmHandle =
  stop_signal :: bool
  vh_meter :: Meter
  ctl_sent :: "ControlCommand list"

definition vm_handle_stop :: "bool \<Rightarrow> bool \<Rightarrow> VmHandle \<Rightarrow> (unit, string) result \<times> VmHandle" where
  "vm_handle_stop ctl_open signalled h =
     (let h1 = h\<lparr>vh_meter := meter_stop (vh_meter h)\<rparr>
      in if \<not> ctl_open then (Err ''channel closed'', h1)
         else let h2 = h1\<lparr>ctl_sent := ctl_sent h @ [Stop]\<rparr>
              in if \<not> stop_signal h2 then (Ok (), h2)
                 else (if signalled then Ok () else Err ''channel closed'', h2\<lparr>stop_signal := False\<rparr>))"

definition is_stopped :: "VmHandle \<Rightarrow> bool" where
  "is_stopped h = (\<not> stop_signal h)"

definition update_weight :: "bool \<Rightarrow> u32 \<Rightarrow> VmHandle \<Rightarrow> (unit, string) result \<times> VmHandle" where
  "update_weight ctl_open w h =
     (if ctl_open then (Ok (), h\<lparr>ctl_sent := ctl_sent h @ [UpdateWeight w]\<rparr>)
      else (Err ''channel closed'', h))"

text \<open>Dropping the last command sender asks the instance to stop, without stopping the meter.\<close>

definition command_sender_drop :: "bool \<Rightarrow> VmHandle \<Rightarrow> VmHandle" where
  "command_sender_drop ctl_open h = (if ctl_open then h\<lparr>ctl_sent := ctl_sent h @ [Stop]\<rparr> else h)"

section \<open>Lemmas\<close>

lemma update_ctx_keeps [simp]:
  "vm_start_time (update_ctx f vm) = vm_start_time vm" "vm_restarts (update_ctx f vm) = vm_restarts vm"
  "vm_iter_start (update_ctx f vm) = vm_iter_start vm"
  by (simp_all add: update_ctx_def)

lemma run_ended_cases:
  "run_ended sc m rv vm = Break (exit_reason rv) vm \<or>
   sc_auto_restart sc \<and> sc_time_limit sc = None \<and> \<not> stopped (meter (wr_ctx (vm_run vm))) \<and>
   vm_start_time vm + MIN_LIVE_TIME < at m \<and>
   (run_ended sc m rv vm = Break FailedToStart (vm\<lparr>vm_start_time := at m\<rparr>) \<or>
    (\<exists>run. run_ended sc m rv vm =
       Continue (vm\<lparr>vm_start_time := at m, vm_run := run, vm_restarts := Suc (vm_restarts vm)\<rparr>)))"
proof -
  have "vm_start_time vm + MIN_LIVE_TIME < at m" if "MIN_LIVE_TIME < elapsed (at m) (vm_start_time vm)"
    using that unfolding elapsed_def by linarith
  then show ?thesis by (auto simp: run_ended_def Let_def split: result.splits)
qed

text \<open>
  One round either leaves start time and number of restarts alone, or it restarts (or tries to),
  more than the minimal live time after the last start, as the configuration allows.
\<close>

definition may_restart :: "'r InstanceStartConfig \<Rightarrow> ('r, 'c) moment \<Rightarrow> bool" where
  "may_restart sc m \<longleftrightarrow>
     sc_auto_restart sc \<and> sc_time_limit sc = None \<and> \<not> stopped (meter (wr_ctx (seen m)))"

fun flow_vm :: "'s flow \<Rightarrow> 's" where
  "flow_vm (Continue s) = s"
| "flow_vm (Break _ s) = s"

lemma select_arm_round:
  assumes "select_arm sc m ev (vm\<lparr>vm_run := seen m\<rparr>) = fl"
  shows "vm_start_time (flow_vm fl) = vm_start_time vm \<and> vm_restarts (flow_vm fl) = vm_restarts vm \<or>
    may_restart sc m \<and> vm_start_time (flow_vm fl) = at m \<and> vm_start_time vm + MIN_LIVE_TIME < at m \<and>
    vm_restarts (flow_vm fl) \<le> Suc (vm_restarts vm)"
proof (cases ev)
  case (Exits rv)
  with assms have fl: "fl = run_ended sc m rv (vm\<lparr>vm_run := seen m\<rparr>)" by (simp add: select_arm_def)
  from run_ended_cases [of sc m rv "vm\<lparr>vm_run := seen m\<rparr>"] show ?thesis
    unfolding fl may_restart_def by (elim disjE conjE exE) simp_all
qed (use assms in \<open>auto simp: select_arm_def split: option.splits Command.splits ControlCommand.splits\<close>)

lemma vm_loop_restarts:
  assumes "sorted (vm_start_time vm # map (\<lambda>e. at (fst e)) evs)" "vm_loop sc evs vm = (r, vm')"
  shows "vm_start_time vm + vm_restarts vm' * MIN_LIVE_TIME \<le>
      vm_start_time vm' + vm_restarts vm * MIN_LIVE_TIME \<and>
    vm_start_time vm' \<le> last (vm_start_time vm # map (\<lambda>e. at (fst e)) evs) \<and>
    ((\<forall>e \<in> set evs. \<not> may_restart sc (fst e)) \<longrightarrow> vm_restarts vm' = vm_restarts vm)"
  using assms
proof (induction evs arbitrary: vm)
  case (Cons e evs)
  obtain m ev where e: "e = (m, ev)" by (cases e)
  let ?times = "map (\<lambda>e. at (fst e)) evs"
  define fl where "fl = select_arm sc m ev (vm\<lparr>vm_run := seen m\<rparr>)"
  note round = select_arm_round [OF fl_def [symmetric]]
  have srt: "vm_start_time vm \<le> at m" "sorted (at m # ?times)" using Cons.prems(1) by (auto simp: e)
  have last_ge: "at m \<le> last (at m # ?times)"
    using srt(2) last_in_set [of "at m # ?times"] by (auto simp del: last.simps)
  from round have one: "vm_start_time vm + vm_restarts (flow_vm fl) * MIN_LIVE_TIME \<le>
      vm_start_time (flow_vm fl) + vm_restarts vm * MIN_LIVE_TIME"
  proof (elim disjE conjE)
    assume "vm_restarts (flow_vm fl) \<le> Suc (vm_restarts vm)" and at: "vm_start_time (flow_vm fl) = at m"
      and min: "vm_start_time vm + MIN_LIVE_TIME < at m"
    then have "vm_restarts (flow_vm fl) * MIN_LIVE_TIME \<le> Suc (vm_restarts vm) * MIN_LIVE_TIME"
      by (intro mult_le_mono1)
    with at min show ?thesis by simp
  qed simp
  have st: "vm_start_time (flow_vm fl) \<le> at m" using round srt(1) by auto
  show ?case
  proof (cases fl)
    case (Break reason vm1)
    then have vm': "vm' = vm1" using Cons.prems(2) by (simp add: e fl_def)
    show ?thesis using one st last_ge round by (auto simp: vm' e Break)
  next
    case (Continue vm1)
    let ?vm2 = "vm1\<lparr>vm_iter_start := at m\<rparr>"
    from Continue Cons.prems(2) have loop: "vm_loop sc evs ?vm2 = (r, vm')" by (simp add: e fl_def)
    have "sorted (vm_start_time ?vm2 # ?times)" using srt st Continue by (auto intro: order_trans)
    note ih = Cons.IH [OF this loop]
    have "last (vm_start_time ?vm2 # ?times) \<le> last (at m # ?times)"
      using st Continue by (cases "?times = []") auto
    then show ?thesis using ih one round by (auto simp: e Continue)
  qed
qed simp

section \<open>Properties\<close>

text \<open>
  C25: restarts are limited: with the clock running forward, an instance has been restarted at most
  once for every ten seconds since it was started, whatever events arrive, and it is
  never restarted when automatic restarts are off, when it has a time limit, or after its meter
  was stopped.
\<close>

theorem restarts_limited:
  assumes "sorted (vm_start_time vm # map (\<lambda>e. at (fst e)) evs)" "vm_restarts vm = 0"
    and "vm_loop sc evs vm = (r, vm')"
  shows "vm_restarts vm' * 10000000000 \<le> last (vm_start_time vm # map (\<lambda>e. at (fst e)) evs) - vm_start_time vm \<and>
    (\<not> sc_auto_restart sc \<or> sc_time_limit sc \<noteq> None \<or>
      (\<forall>e \<in> set evs. stopped (meter (wr_ctx (seen (fst e))))) \<longrightarrow> vm_restarts vm' = 0)"
  using vm_loop_restarts [OF assms(1,3)] assms(2) by (auto simp: MIN_LIVE_TIME_def may_restart_def)

definition demo_wasm :: WasmEnv where
  "demo_wasm = \<lparr> ocalls_link = True, args_ok = \<lambda>_. True, envs_ok = \<lambda>_. True, wasi_links = True,
     instantiates = True, exports_func = \<lambda>f. f = ''wapo_poll'' \<rparr>"

definition demo_start :: "duration option \<Rightarrow> unit InstanceStartConfig" where
  "demo_start t = \<lparr> sc_max_memory_pages = 16, sc_id = [1, 2], sc_weight = 1, sc_auto_restart = True,
     sc_runtime_calls = (), sc_args = [], sc_envs = [], sc_tcp_listen_port_range = (8000, 9000),
     sc_sni_tls_listener = None, sc_time_limit = t \<rparr>"

definition demo_run :: "(unit, string \<Rightarrow> bytes option) WasmRun" where
  "demo_run = \<lparr> wr_id = [1, 2], wr_ctx = demo_ctx, wr_fuel = - 1, wr_epoch_deadline = 10,
     wr_memory_size = 1048576, wr_entry = ''wapo_poll'' \<rparr>"

definition demo_moment :: "instant \<Rightarrow> (unit, string \<Rightarrow> bytes option) moment" where
  "demo_moment t = \<lparr> at = t, h_env = demo_env, w_env = demo_wasm, empty_cache = Map.empty, seen = demo_run \<rparr>"

definition demo_vm :: "(unit, string \<Rightarrow> bytes option) Vm" where
  "demo_vm = \<lparr> vm_run = demo_run, vm_start_time = 0, vm_iter_start = 0, vm_restarts = 0 \<rparr>"

lemma demo_running: "meter (wr_ctx demo_run) = meter_default 0" "blob_store (wr_ctx demo_run) =
    \<lparr> files = Map.empty, tmp_files = Map.empty \<rparr>"
  by (simp_all add: demo_run_def demo_ctx_def ctx_new_def)

lemma demo_module_run:
  "\<exists>run. wasm_module_run demo_wasm blobs cache m (instance_config (demo_start t)) = Ok run"
  by (simp add: wasm_module_run_def demo_wasm_def instance_config_def demo_start_def
      usize_checked_mul_def)

theorem restarts_limited_witness:
  "\<exists>r vm'. vm_loop (demo_start None) [(demo_moment 11000000000, Exits (Ok ()))] demo_vm = (r, vm') \<and>
     vm_restarts vm' = 1 \<and> vm_restarts vm' * 10000000000 \<le> 11000000000"
proof -
  obtain run where "wasm_module_run demo_wasm \<lparr> files = Map.empty, tmp_files = Map.empty \<rparr>
      (Map.empty :: string \<Rightarrow> bytes option) (meter_default 0) (instance_config (demo_start None)) = Ok run"
    using demo_module_run [of "\<lparr> files = Map.empty, tmp_files = Map.empty \<rparr>" Map.empty "meter_default 0" None]
    by (elim exE)
  then obtain vm' where
    l: "vm_loop (demo_start None) [(demo_moment 11000000000, Exits (Ok ()))] demo_vm = (None, vm')"
    and r: "vm_restarts vm' = 1"
    by (simp add: select_arm_def run_ended_def demo_moment_def demo_vm_def demo_running demo_start_def
        MIN_LIVE_TIME_def elapsed_def DURATION_MAX_def meter_default_def)
  from restarts_limited [OF _ _ l] have "vm_restarts vm' * 10000000000 \<le> 11000000000"
    by (simp add: demo_vm_def demo_moment_def)
  with l r show ?thesis by blast
qed

lemma vm_loop_stops:
  assumes "\<forall>e \<in> set evs. stopped (meter (wr_ctx (seen (fst e))))"
    and "\<exists>e \<in> set evs. snd e = Ctl (Some Stop) \<or> (\<exists>rv. snd e = Exits rv)"
  shows "\<exists>reason vm'. vm_loop sc evs vm = (Some reason, vm')"
  using assms
proof (induction evs arbitrary: vm)
  case (Cons e evs)
  obtain m ev where e: "e = (m, ev)" by (cases e)
  show ?case
  proof (cases "ev = Ctl (Some Stop) \<or> (\<exists>rv. ev = Exits rv)")
    case True
    with Cons.prems(1) show ?thesis by (auto simp: e select_arm_def run_ended_def)
  next
    case False
    with Cons.prems Cons.IH show ?thesis by (auto simp: e split: flow.splits)
  qed
qed simp

text \<open>
  C26: a stop request is honoured: once the meter is stopped, whatever else arrives, the task ends
  at the latest when it meets the stop message or the end of the code; it has not restarted the
  code, its last status is that it stopped, for the reason it returns, and its meter stays stopped.
\<close>

theorem stop_request_honoured:
  assumes "wasm_module_run (w_env m0) blobs (empty_cache m0) mtr (instance_config sc) = Ok run"
    and "\<forall>e \<in> set evs. stopped (meter (wr_ctx (seen (fst e))))"
    and "\<exists>e \<in> set evs. snd e = Ctl (Some Stop) \<or> (\<exists>rv. snd e = Exits rv)"
  shows "\<exists>reason m'. vm_task sc (Ok ()) show_err m0 blobs mtr evs =
    (Some reason,
     [LoadingCode, CreatingInstance, Running, StatusStopped (debug_reason reason) None], m') \<and>
    stopped m'"
proof -
  let ?vm = "\<lparr> vm_run = run, vm_start_time = at m0, vm_iter_start = at m0, vm_restarts = 0 \<rparr>"
  from vm_loop_stops [OF assms(2,3)] obtain reason vm' where "vm_loop sc evs ?vm = (Some reason, vm')"
    by blast
  then show ?thesis by (simp add: vm_task_def assms(1) meter_stop_def)
qed

theorem stop_request_honoured_witness:
  "\<exists>reason m'. vm_task (demo_start None) (Ok ()) (\<lambda>_. []) (demo_moment 0)
      \<lparr> files = Map.empty, tmp_files = Map.empty \<rparr> (meter_default 0)
      [((demo_moment 5)\<lparr>seen := demo_run\<lparr>wr_ctx := demo_ctx\<lparr>meter := meter_stop (meter_default 0)\<rparr>\<rparr>\<rparr>,
        Ctl (Some Stop))] =
    (Some reason,
     [LoadingCode, CreatingInstance, Running, StatusStopped (debug_reason reason) None], m') \<and>
    stopped m'"
proof -
  obtain run where "wasm_module_run (w_env (demo_moment 0)) \<lparr> files = Map.empty, tmp_files = Map.empty \<rparr>
      (empty_cache (demo_moment 0)) (meter_default 0) (instance_config (demo_start None)) = Ok run"
    using demo_module_run by (fastforce simp: demo_moment_def)
  then show ?thesis by (rule stop_request_honoured) (simp_all add: meter_stop_def)
qed

lemma select_arm_command:
  assumes "\<exists>c w. ev = Cmd (Some c) \<or> ev = Ctl (Some (UpdateWeight w))"
  shows "\<exists>vm'. select_arm sc m ev vm = Continue vm'"
proof -
  from assms consider c where "ev = Cmd (Some c)" | w where "ev = Ctl (Some (UpdateWeight w))" by blast
  then show ?thesis
  proof cases
    case 1
    then show ?thesis by (cases c) (simp_all only: select_arm_def select_event.case option.case
          Command.case flow.inject ex_simps simp_thms)
  next
    case 2
    then show ?thesis by (simp only: select_arm_def select_event.case option.case
          ControlCommand.case flow.inject ex_simps simp_thms)
  qed
qed

text \<open>
  The time limit is a limit on idle time, not on execution time: every command restarts it.
  After any number of commands the instance still runs, and the limit can only strike once it has
  passed since the last of them.
\<close>

lemma time_limit_restarts_with_commands:
  assumes "evs \<noteq> []"
    and "\<forall>e \<in> set evs. \<exists>c w. snd e = Cmd (Some c) \<or> snd e = Ctl (Some (UpdateWeight w))"
  shows "\<exists>vm'. vm_loop sc evs vm = (None, vm') \<and>
    (time_up_enabled sc vm' now \<longleftrightarrow>
      (\<exists>t. sc_time_limit sc = Some t \<and> at (fst (last evs)) + t \<le> now))"
  using assms
proof (induction evs arbitrary: vm)
  case (Cons e evs)
  obtain m ev where e: "e = (m, ev)" by (cases e)
  from Cons.prems(2) have cw: "\<exists>c w. ev = Cmd (Some c) \<or> ev = Ctl (Some (UpdateWeight w))"
    by (simp add: e)
  from select_arm_command [OF this] obtain vm1
    where arm: "select_arm sc m ev (vm\<lparr>vm_run := seen m\<rparr>) = Continue vm1"
    by blast
  have step: "vm_loop sc (e # evs) vm = vm_loop sc evs (vm1\<lparr>vm_iter_start := at m\<rparr>)"
    by (simp only: e vm_loop.simps arm flow.case)
  show ?case
  proof (cases "evs = []")
    case True
    show ?thesis
      by (rule exI [of _ "vm1\<lparr>vm_iter_start := at m\<rparr>"])
        (use step in \<open>cases "sc_time_limit sc"; simp add: True e time_up_enabled_def\<close>)
  next
    case False
    have "\<forall>e \<in> set evs. \<exists>c w. snd e = Cmd (Some c) \<or> snd e = Ctl (Some (UpdateWeight w))"
      using Cons.prems(2) by simp
    from Cons.IH [OF False this] show ?thesis
      unfolding step last_ConsR [OF False] .
  qed
qed simp

end
