(* ===== verification/Worker_State.thy ===== *)
theory Worker_State
  imports Worker_Types Vm_Service Rust_Collections
begin

text \<open>
  The worker (\<open>wapod/src/state.rs\<close>): the deployed apps with their running instances, the slots
  these share, the queries in progress, the worker's session. Every section that the code runs
  under the worker's lock is one function on \<open>WorkerState\<close>; the asynchronous operations are these
  sections with what they await in between given as arguments. An instance's \<open>VmHandle\<close> is the number
  of the machine it belongs to, and \<open>mt\<close> gives the metrics the meter of each machine shows at the
  time of the call. The process-wide counters \<open>NEXT_APP_SN\<close> and \<open>NEXT_RUN_SN\<close> are fields of the state.
\<close>

section \<open>State\<close>

record WorkerArgs =
  instance_memory_size :: u64
  max_instances :: nat
  module_cache_size :: nat
  no_mem_pool :: bool
  use_winch :: bool
  wa_tcp_listen_port_range :: "u16 \<times> u16"
  tls_port :: "u16 option"
  verify_tls_server_cert :: bool
  on_demand_connection_timeout :: duration

record Instance =
  sequence_number :: u64
  vm_handle :: nat

record AppState =
  app_sn :: u64
  app_session :: bytes
  manifest :: AppManifest
  hist_metrics :: Metrics
  instances :: "(u64, Instance) btree"
  on_going_queries :: u64
  last_query_done :: instant
  auto_restart :: bool
  reuse_instance :: bool

record AppInfo =
  ai_sn :: u64
  ai_address :: bytes
  ai_session :: bytes
  ai_running_instances :: nat
  ai_last_query_elapsed_secs :: nat
  ai_reuse_instances :: bool
  ai_manifest :: AppManifest

record SharedState =
  locks :: "string list"

record AppRuntimeCalls =
  arc_address :: bytes
  shared :: SharedState

record WorkerState =
  apps :: "(bytes, AppState) hashmap"
  args :: WorkerArgs
  ws_session :: "bytes option"
  metrics_sn :: u64
  bench_app :: "bytes option"
  bench_instances :: u64
  next_app_sn :: u64
  next_run_sn :: u64
  vms :: "AppRuntimeCalls InstanceStartConfig list"
  cleanups :: "(bytes \<times> u64 \<times> nat) list"

text \<open>
  \<open>vms\<close> are the machines the service was asked to start, by number, with their configurations;
  \<open>cleanups\<close> are the tasks, one per machine, that wait for its end to clean up after it.
\<close>

datatype worker_error =
    AppNotFound | QueryTooLarge | InstanceNotFound | InstanceAlreadyStarted | NoAvailableSlots
  | OnDemandNotDirect | UnsupportedManifestVersion u32 | OnDemandResizable | LabelTooLong
  | ManifestTooLarge nat | AppAlreadyExists | AppsAlreadyDeployed | TooManyInstances
  | StopFailed | StartFailed string | SendFailed | NoReply | AppReplied string

definition worker_new :: "WorkerArgs \<Rightarrow> WorkerState" where
  "worker_new a =
     \<lparr> apps = [], args = a, ws_session = None, metrics_sn = 0, bench_app = None, bench_instances = 0,
       next_app_sn = 0, next_run_sn = 0, vms = [], cleanups = [] \<rparr>"

section \<open>One app\<close>

definition app_metrics_of :: "(nat \<Rightarrow> Metrics) \<Rightarrow> AppState \<Rightarrow> Metrics" where
  "app_metrics_of mt self =
     (let init = hist_metrics self
      in foldl metrics_add init (map (\<lambda>(_, run). mt (vm_handle run)) (instances self)))"

definition on_going_query_inc :: "AppState \<Rightarrow> AppState" where
  "on_going_query_inc self = self\<lparr>on_going_queries := on_going_queries self + 1\<rparr>"

definition on_going_query_dec :: "instant \<Rightarrow> AppState \<Rightarrow> u64 \<times> AppState" where
  "on_going_query_dec now self =
     (let self' = self\<lparr>on_going_queries := on_going_queries self - 1, last_query_done := now\<rparr>
      in (on_going_queries self', self'))"

definition app_info :: "instant \<Rightarrow> bytes \<Rightarrow> AppState \<Rightarrow> AppInfo" where
  "app_info now address self =
     \<lparr> ai_sn = app_sn self, ai_address = address, ai_session = app_session self,
       ai_running_instances = length (instances self),
       ai_last_query_elapsed_secs = elapsed now (last_query_done self) div 1000000000,
       ai_reuse_instances = reuse_instance self, ai_manifest = manifest self \<rparr>"

section \<open>Slots and instances\<close>

definition running_instances :: "WorkerState \<Rightarrow> nat" where
  "running_instances w = sum_list (map (\<lambda>(_, app). length (instances app)) (apps w))"

definition available_slots :: "WorkerState \<Rightarrow> nat" where
  "available_slots w = max_instances (args w) - running_instances w"

definition to_pages :: "u64 \<Rightarrow> u64" where
  "to_pages sz = (let page_size = 1024 * 64 in (sz + page_size - 1) div page_size)"

definition put_app :: "bytes \<Rightarrow> AppState \<Rightarrow> WorkerState \<Rightarrow> WorkerState" where
  "put_app address app w = w\<lparr>apps := hash_insert address app (apps w)\<rparr>"

definition start_config ::
  "string \<Rightarrow> handle option \<Rightarrow> bytes \<Rightarrow> AppState \<Rightarrow> duration option \<Rightarrow> WorkerState \<Rightarrow>
   AppRuntimeCalls InstanceStartConfig" where
  "start_config app_name agent address app time_limit w =
     \<lparr> sc_max_memory_pages = ucast (to_pages (instance_memory_size (args w))),
       sc_id = address, sc_weight = 1, sc_auto_restart = auto_restart app,
       sc_runtime_calls = \<lparr> arc_address = address, shared = \<lparr> locks = [] \<rparr> \<rparr>,
       sc_args = app_name # man_args (manifest app), sc_envs = env_vars (manifest app),
       sc_tcp_listen_port_range = wa_tcp_listen_port_range (args w),
       sc_sni_tls_listener = agent, sc_time_limit = time_limit \<rparr>"

text \<open>
  Starting an instance. \<open>names\<close> gives the hexadecimal name of an address and \<open>agents\<close> the new agent
  that the SNI listener, if the worker has one, makes for this very instance, given the app and whether it reuses its instances. \<open>ServiceHandle::start\<close> spawns the
  instance's task and never fails. The result is the run's number and its machine.
\<close>

record Naming =
  names :: "bytes \<Rightarrow> string"
  agents :: "bytes \<Rightarrow> bool \<Rightarrow> nat \<Rightarrow> handle option"

definition start_app ::
  "Naming \<Rightarrow> bytes \<Rightarrow> duration option \<Rightarrow> WorkerState \<Rightarrow> (u64 \<times> nat, worker_error) result \<times> WorkerState" where
  "start_app nm address time_limit w =
     (case map_of (apps w) address of
        None \<Rightarrow> (Err InstanceNotFound, w)
      | Some app \<Rightarrow>
          if \<not> resizable (manifest app) \<and> instances app \<noteq> [] \<and> time_limit = None
          then (Err InstanceAlreadyStarted, w)
          else
            let vm = length (vms w);
                config = start_config (names nm address) (agents nm address (reuse_instance app) vm) address app
                  time_limit w;
                sn = next_run_sn w;
                instance = \<lparr> sequence_number = sn, vm_handle = vm \<rparr>;
                app' = app\<lparr>instances := btree_insert sn instance (instances app)\<rparr>
            in (Ok (sn, vm),
                (put_app address app' w)\<lparr>vms := vms w @ [config], next_run_sn := sn + 1,
                  cleanups := cleanups w @ [(address, sn, vm)]\<rparr>))"

text \<open>What the cleanup task does when the instance has ended.\<close>

definition instance_ended :: "(nat \<Rightarrow> Metrics) \<Rightarrow> bytes \<Rightarrow> u64 \<Rightarrow> WorkerState \<Rightarrow> WorkerState" where
  "instance_ended mt address sn w =
     (case map_of (apps w) address of
        None \<Rightarrow> w
      | Some app \<Rightarrow>
          (case map_of (instances app) sn of
             None \<Rightarrow> w
           | Some instance \<Rightarrow>
               put_app address
                 (app\<lparr>instances := btree_remove sn (instances app),
                      hist_metrics := metrics_add_assign (hist_metrics app) (mt (vm_handle instance))\<rparr>) w))"

definition stop_last :: "(nat \<Rightarrow> Metrics) \<Rightarrow> AppState \<Rightarrow> (nat \<times> AppState) option" where
  "stop_last mt app =
     (case btree_pop_last (instances app) of
        None \<Rightarrow> None
      | Some ((_, instance), rest) \<Rightarrow>
          Some (vm_handle instance,
                app\<lparr>instances := rest,
                    hist_metrics := metrics_add_assign (hist_metrics app) (mt (vm_handle instance))\<rparr>))"

fun evict_resizable ::
  "(nat \<Rightarrow> Metrics) \<Rightarrow> (bytes, AppState) hashmap \<Rightarrow> (nat \<times> (bytes, AppState) hashmap) option" where
  "evict_resizable mt [] = None"
| "evict_resizable mt ((address, app) # rest) =
     (case (if resizable (manifest app) then stop_last mt app else None) of
        Some (handle, app') \<Rightarrow> Some (handle, (address, app') # rest)
      | None \<Rightarrow> map_option (\<lambda>(handle, rest'). (handle, (address, app) # rest')) (evict_resizable mt rest))"

definition reserve_slot_if_needed ::
  "(nat \<Rightarrow> Metrics) \<Rightarrow> bytes \<Rightarrow> WorkerState \<Rightarrow> (nat option, worker_error) result \<times> WorkerState" where
  "reserve_slot_if_needed mt for_address w =
     (case map_of (apps w) for_address of
        None \<Rightarrow> (Err AppNotFound, w)
      | Some app \<Rightarrow>
          if instances app \<noteq> [] then (Ok None, w)
          else if available_slots w > 0 then (Ok None, w)
          else (case evict_resizable mt (apps w) of
                  Some (handle, apps') \<Rightarrow> (Ok (Some handle), w\<lparr>apps := apps'\<rparr>)
                | None \<Rightarrow> (Err NoAvailableSlots, w)))"

fun start_instances ::
  "Naming \<Rightarrow> nat \<Rightarrow> bytes \<Rightarrow> duration option \<Rightarrow> WorkerState \<Rightarrow>
   ((u64 \<times> nat) list, worker_error) result \<times> WorkerState" where
  "start_instances nm 0 address time_limit w = (Ok [], w)"
| "start_instances nm (Suc n) address time_limit w =
     (case start_app nm address time_limit w of
        (Err e, w1) \<Rightarrow> (Err e, w1)
      | (Ok info, w1) \<Rightarrow>
          (case start_instances nm n address time_limit w1 of
             (Err e, w2) \<Rightarrow> (Err e, w2)
           | (Ok infos, w2) \<Rightarrow> (Ok (info # infos), w2)))"

fun stop_instances :: "(nat \<Rightarrow> Metrics) \<Rightarrow> nat \<Rightarrow> AppState \<Rightarrow> nat list \<times> AppState" where
  "stop_instances mt 0 app = ([], app)"
| "stop_instances mt (Suc n) app =
     (case stop_last mt app of
        None \<Rightarrow> ([], app)
      | Some (handle, app1) \<Rightarrow>
          (let (handles, app2) = stop_instances mt n app1 in (handle # handles, app2)))"

definition resize_app_instances ::
  "Naming \<Rightarrow> (nat \<Rightarrow> Metrics) \<Rightarrow> bytes \<Rightarrow> nat \<Rightarrow> duration option \<Rightarrow> WorkerState \<Rightarrow>
   ((u64 \<times> nat) list \<times> nat list, worker_error) result \<times> WorkerState" where
  "resize_app_instances nm mt address cnt on_demand_timeout w =
     (case (if on_demand_timeout \<noteq> None then reserve_slot_if_needed mt address w else (Ok None, w)) of
        (Err e, w1) \<Rightarrow> (Err e, w1)
      | (Ok reserved, w1) \<Rightarrow>
          let removed = (case reserved of Some handle \<Rightarrow> [handle] | None \<Rightarrow> [])
          in case map_of (apps w1) address of
               None \<Rightarrow> (Err AppNotFound, w1)
             | Some app \<Rightarrow>
                 let current = length (instances app)
                 in if current < cnt then
                      (if on_demand (manifest app) \<and> on_demand_timeout = None
                       then (Err OnDemandNotDirect, w1)
                       else let creating = min (available_slots w1) (cnt - current)
                            in case start_instances nm creating address on_demand_timeout w1 of
                                 (Err e, w2) \<Rightarrow> (Err e, w2)
                               | (Ok created, w2) \<Rightarrow> (Ok (created, removed), w2))
                    else if current = cnt then (Ok ([], removed), w1)
                    else let (handles, app') = stop_instances mt (current - cnt) app
                         in (Ok ([], removed @ handles), put_app address app' w1))"

definition try_inc_instances ::
  "Naming \<Rightarrow> (nat \<Rightarrow> Metrics) \<Rightarrow> bytes \<Rightarrow> WorkerState \<Rightarrow>
   ((u64 \<times> nat) option, worker_error) result \<times> WorkerState" where
  "try_inc_instances nm mt address w =
     (case map_of (apps w) address of
        None \<Rightarrow> (Err AppNotFound, w)
      | Some app \<Rightarrow>
          if length (instances app) + 1 \<ge> 2 ^ 64 then (Err TooManyInstances, w)
          else let num = length (instances app) + 1;
                   time_limit = on_demand_connection_timeout (args w)
               in case resize_app_instances nm mt address num (Some time_limit) w of
                    (Err e, w1) \<Rightarrow> (Err e, w1)
                  | (Ok (new, _), w1) \<Rightarrow> (Ok (case new of [] \<Rightarrow> None | info # _ \<Rightarrow> Some info), w1))"

section \<open>Asynchronous operations\<close>

text \<open>
  What the operations await: whether stopping a machine succeeds, the statuses that are seen of a
  new one, in order, up to the drop of their sender, whether a command can be sent to it, and the
  reply to a query with its origin, path and payload, if one comes. \<open>others\<close> is what other tasks do to the worker's state while an
  operation does not hold the lock.
\<close>

record Waits =
  stops :: "nat \<Rightarrow> bool"
  statuses :: "nat \<Rightarrow> VmStatus list"
  accepts :: "nat \<Rightarrow> bool"
  reply :: "nat \<Rightarrow> bytes option \<Rightarrow> string \<Rightarrow> bytes \<Rightarrow> (bytes, string) result option"
  others :: "WorkerState \<Rightarrow> WorkerState"

fun wait_running :: "VmStatus list \<Rightarrow> (unit, worker_error) result" where
  "wait_running [] = Err (StartFailed ''failed to start instance'')"
| "wait_running (Running # _) = Ok ()"
| "wait_running (StatusStopped reason error # _) =
     Err (StartFailed (case error of Some e \<Rightarrow> e | None \<Rightarrow> reason))"
| "wait_running (LoadingCode # rest) = wait_running rest"
| "wait_running (CreatingInstance # rest) = wait_running rest"

fun wait_all :: "Waits \<Rightarrow> (u64 \<times> nat) list \<Rightarrow> (unit, worker_error) result" where
  "wait_all ws [] = Ok ()"
| "wait_all ws ((_, vm) # infos) = and_then (wait_running (statuses ws vm)) (\<lambda>_. wait_all ws infos)"

definition resize_and_wait ::
  "Naming \<Rightarrow> Waits \<Rightarrow> (nat \<Rightarrow> Metrics) \<Rightarrow> bytes \<Rightarrow> nat \<Rightarrow> bool \<Rightarrow> WorkerState \<Rightarrow>
   (unit, worker_error) result \<times> WorkerState" where
  "resize_and_wait nm ws mt address cnt demand w =
     (let timeout = (if demand then Some (on_demand_connection_timeout (args w)) else None)
      in case resize_app_instances nm mt address cnt timeout w of
           (Err e, w1) \<Rightarrow> (Err e, w1)
         | (Ok (created, removed), w1) \<Rightarrow>
             (if \<not> list_all (stops ws) removed then Err StopFailed else wait_all ws created, others ws w1))"

definition start_app_rpc where
  "start_app_rpc nm ws mt address demand w = resize_and_wait nm ws mt address 1 demand w"

definition stop_app_rpc where
  "stop_app_rpc nm ws mt address w = resize_and_wait nm ws mt address 0 False w"

section \<open>Queries\<close>

record QueryGuard =
  qg_address :: bytes
  qg_reuse :: bool
  qg_instance_id :: "u64 option"

definition end_query ::
  "instant \<Rightarrow> bytes \<Rightarrow> u64 option \<Rightarrow> WorkerState \<Rightarrow> (unit, worker_error) result \<times> WorkerState" where
  "end_query now address instance_id w =
     (case map_of (apps w) address of
        None \<Rightarrow> (Err AppNotFound, w)
      | Some app \<Rightarrow>
          (case instance_id of
             Some sn \<Rightarrow>
               (case map_of (instances app) sn of
                  None \<Rightarrow> (Err InstanceNotFound, w)
                | Some _ \<Rightarrow> (Ok (), put_app address (app\<lparr>instances := btree_remove sn (instances app)\<rparr>) w))
           | None \<Rightarrow>
               (let (rest, app1) = on_going_query_dec now app;
                    app2 = (if rest = 0 \<and> on_demand (manifest app1) then app1\<lparr>instances := []\<rparr> else app1)
                in (Ok (), put_app address app2 w))))"

definition drop_guard :: "instant \<Rightarrow> QueryGuard \<Rightarrow> WorkerState \<Rightarrow> WorkerState" where
  "drop_guard now g w = snd (end_query now (qg_address g) (qg_instance_id g) w)"

definition begin_query ::
  "bytes \<Rightarrow> nat \<Rightarrow> WorkerState \<Rightarrow> (QueryGuard \<times> bool, worker_error) result \<times> WorkerState" where
  "begin_query address query_size w =
     (case map_of (apps w) address of
        None \<Rightarrow> (Err AppNotFound, w)
      | Some app \<Rightarrow>
          if query_size > unat (max_query_size (manifest app)) then (Err QueryTooLarge, w)
          else
            let start_needed =
              (\<not> reuse_instance app \<or> (instances app = [] \<and> on_demand (manifest app)))
            in (Ok (\<lparr> qg_address = address, qg_reuse = reuse_instance app, qg_instance_id = None \<rparr>,
                    start_needed),
                put_app address (on_going_query_inc app) w))"

definition prepare_instance_for_query ::
  "Naming \<Rightarrow> Waits \<Rightarrow> (nat \<Rightarrow> Metrics) \<Rightarrow> instant \<Rightarrow> bytes \<Rightarrow> nat \<Rightarrow> WorkerState \<Rightarrow>
   (QueryGuard, worker_error) result \<times> WorkerState" where
  "prepare_instance_for_query nm ws mt now address query_size w =
     (case begin_query address query_size w of
        (Err e, w1) \<Rightarrow> (Err e, w1)
      | (Ok (guard, start_needed), w1) \<Rightarrow>
          let w2 = others ws w1
          in if \<not> start_needed then (Ok guard, w2)
             else if qg_reuse guard then
               (case resize_and_wait nm ws mt address 1 True w2 of
                  (Err e, w3) \<Rightarrow> (Err e, drop_guard now guard w3)
                | (Ok _, w3) \<Rightarrow> (Ok guard, w3))
             else
               (case try_inc_instances nm mt address w2 of
                  (Err e, w3) \<Rightarrow> (Err e, drop_guard now guard w3)
                | (Ok info, w3) \<Rightarrow> (Ok (guard\<lparr>qg_instance_id := map_option fst info\<rparr>), others ws w3)))"

definition query_target :: "QueryGuard \<Rightarrow> WorkerState \<Rightarrow> (nat, worker_error) result" where
  "query_target guard w =
     (case map_of (apps w) (qg_address guard) of
        None \<Rightarrow> Err AppNotFound
      | Some app \<Rightarrow>
          (case qg_instance_id guard of
             Some sn \<Rightarrow>
               (case map_of (instances app) sn of
                  None \<Rightarrow> Err InstanceNotFound | Some instance \<Rightarrow> Ok (vm_handle instance))
           | None \<Rightarrow>
               (case instances app of
                  [] \<Rightarrow> Err InstanceNotFound | (_, instance) # _ \<Rightarrow> Ok (vm_handle instance))))"

definition query ::
  "Naming \<Rightarrow> Waits \<Rightarrow> (nat \<Rightarrow> Metrics) \<Rightarrow> instant \<Rightarrow> bytes option \<Rightarrow> bytes \<Rightarrow> string \<Rightarrow> bytes \<Rightarrow> WorkerState \<Rightarrow>
   (bytes, worker_error) result \<times> WorkerState" where
  "query nm ws mt now origin address path pl w =
     (let query_size = length pl + length path
      in case prepare_instance_for_query nm ws mt now address query_size w of
           (Err e, w1) \<Rightarrow> (Err e, w1)
         | (Ok guard, w1) \<Rightarrow>
             (case query_target guard w1 of
                Err e \<Rightarrow> (Err e, drop_guard now guard w1)
              | Ok vm \<Rightarrow>
                  (if \<not> accepts ws vm then Err SendFailed
                   else case reply ws vm origin path pl of
                          None \<Rightarrow> Err NoReply | Some (Ok data) \<Rightarrow> Ok data | Some (Err e) \<Rightarrow> Err (AppReplied e),
                   drop_guard now guard (others ws w1))))"

section \<open>Deployment and sessions\<close>

definition MAX_MANIFEST_SIZE :: nat where
  "MAX_MANIFEST_SIZE = 1024 * 16"

definition check_manifest :: "(AppManifest \<Rightarrow> nat) \<Rightarrow> AppManifest \<Rightarrow> (unit, worker_error) result" where
  "check_manifest size_hint m =
     (if version m \<noteq> 1 then Err (UnsupportedManifestVersion (version m))
      else if resizable m \<and> on_demand m then Err OnDemandResizable
      else if length (label m) > 64 then Err LabelTooLong
      else if size_hint m > MAX_MANIFEST_SIZE then Err (ManifestTooLarge (size_hint m))
      else Ok ())"

definition register_app ::
  "bytes \<Rightarrow> bytes \<Rightarrow> instant \<Rightarrow> AppManifest \<Rightarrow> bool \<Rightarrow> bool \<Rightarrow> WorkerState \<Rightarrow>
   (unit, worker_error) result \<times> WorkerState" where
  "register_app address session now m restart reuse_instances w =
     (if map_of (apps w) address \<noteq> None then (Err AppAlreadyExists, w)
      else
        let state = \<lparr> app_sn = next_app_sn w, app_session = session, manifest = m,
              hist_metrics = metrics_default, instances = [], on_going_queries = 0,
              last_query_done = now, auto_restart = restart, reuse_instance = reuse_instances \<rparr>
        in (Ok (), (put_app address state w)\<lparr>next_app_sn := next_app_sn w + 1\<rparr>))"

definition deploy_app ::
  "Naming \<Rightarrow> Waits \<Rightarrow> (nat \<Rightarrow> Metrics) \<Rightarrow> (AppManifest \<Rightarrow> nat) \<Rightarrow> (AppManifest \<Rightarrow> bytes) \<Rightarrow> bytes \<Rightarrow> instant \<Rightarrow>
   AppManifest \<Rightarrow> bool \<Rightarrow> bool \<Rightarrow> WorkerState \<Rightarrow> (AppInfo, worker_error) result \<times> WorkerState" where
  "deploy_app nm ws mt size_hint generate_address session now m restart reuse_instances w =
     (case check_manifest size_hint m of
        Err e \<Rightarrow> (Err e, w)
      | Ok _ \<Rightarrow>
          let address = generate_address m
          in case register_app address session now m restart reuse_instances w of
               (Err e, w1) \<Rightarrow> (Err e, w1)
             | (Ok _, w1) \<Rightarrow>
                 (case (if \<not> on_demand m then resize_and_wait nm ws mt address 1 False (others ws w1)
                        else (Ok (), others ws w1)) of
                    (Err e, w2) \<Rightarrow> (Err e, w2)
                  | (Ok _, w2) \<Rightarrow>
                      (case map_of (apps w2) address of
                         None \<Rightarrow> (Err AppNotFound, w2)
                       | Some app \<Rightarrow> (Ok (app_info now address app), w2))))"

text \<open>
  Removing an app takes it out of the table and then stops its machines; errors of that are
  logged only. The result lists the machines.
\<close>

definition remove_app :: "bytes \<Rightarrow> WorkerState \<Rightarrow> (nat list, worker_error) result \<times> WorkerState" where
  "remove_app address w =
     (case map_of (apps w) address of
        None \<Rightarrow> (Err AppNotFound, w)
      | Some app \<Rightarrow>
          (Ok (map (\<lambda>(_, instance). vm_handle instance) (instances app)),
           w\<lparr>apps := hash_remove address (apps w)\<rparr>))"

definition clear :: "WorkerState \<Rightarrow> WorkerState" where
  "clear w = w\<lparr>apps := []\<rparr>"

definition set_bench_app :: "bytes option \<Rightarrow> u64 \<Rightarrow> WorkerState \<Rightarrow> WorkerState" where
  "set_bench_app address n w = w\<lparr>bench_app := address, bench_instances := n\<rparr>"

definition session_init ::
  "CryptoProvider \<Rightarrow> bytes \<Rightarrow> bytes \<Rightarrow> bytes \<Rightarrow> WorkerState \<Rightarrow> (SessionUpdate, worker_error) result \<times> WorkerState" where
  "session_init crypto cnonce pnonce recipient w =
     (if apps w \<noteq> [] then (Err AppsAlreadyDeployed, w)
      else let update = session_update_new crypto cnonce pnonce recipient
           in (Ok update, w\<lparr>ws_session := Some (su_session update), metrics_sn := 0\<rparr>))"

definition bump_metrics_sn :: "WorkerState \<Rightarrow> u64 \<times> WorkerState" where
  "bump_metrics_sn w = (metrics_sn w + 1, w\<lparr>metrics_sn := metrics_sn w + 1\<rparr>)"

section \<open>Reading the state\<close>

definition sender_for :: "bytes \<Rightarrow> nat \<Rightarrow> WorkerState \<Rightarrow> nat option" where
  "sender_for vmid index w =
     (case map_of (apps w) vmid of
        None \<Rightarrow> None
      | Some app \<Rightarrow> map_option vm_handle (map_of (instances app) (of_nat index)))"

definition num_instances_of :: "bytes \<Rightarrow> WorkerState \<Rightarrow> nat option" where
  "num_instances_of address w = map_option (\<lambda>app. length (instances app)) (map_of (apps w) address)"

definition list_apps :: "instant \<Rightarrow> nat \<Rightarrow> nat \<Rightarrow> WorkerState \<Rightarrow> AppInfo list" where
  "list_apps now start cnt w =
     map (\<lambda>(address, state). app_info now address state) (take cnt (drop start (apps w)))"

definition for_each_app :: "bytes list option \<Rightarrow> WorkerState \<Rightarrow> (bytes \<times> AppState) list" where
  "for_each_app addresses w =
     (case addresses of
        Some as \<Rightarrow> List.map_filter (\<lambda>a. map_option (\<lambda>state. (a, state)) (map_of (apps w) a)) as
      | None \<Rightarrow> apps w)"

record WorkerInfo =
  wi_deployed_apps :: u64
  wi_running_instances :: u64
  wi_max_instances :: u64
  wi_instance_memory_size :: u64
  wi_session :: bytes
  wi_tcp_listen_port_range :: "(u16 \<times> u16) option"
  wi_bench_app_address :: bytes
  wi_bench_app_instances :: u64

definition worker_info :: "WorkerState \<Rightarrow> WorkerInfo" where
  "worker_info w =
     \<lparr> wi_deployed_apps = of_nat (length (apps w)),
       wi_running_instances = of_nat (sum_list (map (\<lambda>(_, state). length (instances state)) (apps w))),
       wi_max_instances = of_nat (max_instances (args w)),
       wi_instance_memory_size = instance_memory_size (args w),
       wi_session = (case ws_session w of Some s \<Rightarrow> s | None \<Rightarrow> []),
       wi_tcp_listen_port_range =
         (let (start, finish) = wa_tcp_listen_port_range (args w)
          in if start > finish then None else Some (start, finish)),
       wi_bench_app_address = (case bench_app w of Some a \<Rightarrow> a | None \<Rightarrow> []),
       wi_bench_app_instances = bench_instances w \<rparr>"

section \<open>The callbacks of an app's instances\<close>

definition app_wrap_message :: "bytes \<Rightarrow> AppRuntimeCalls \<Rightarrow> bytes" where
  "app_wrap_message message self = arc_address self @ message"

definition sign_app_data :: "(ContentType \<Rightarrow> bytes \<Rightarrow> bytes) \<Rightarrow> bytes \<Rightarrow> AppRuntimeCalls \<Rightarrow> bytes" where
  "sign_app_data sign data self = sign AppData (app_wrap_message data self)"

definition app_metrics ::
  "(nat \<Rightarrow> Metrics) \<Rightarrow> bytes \<Rightarrow> AppRuntimeCalls \<Rightarrow> WorkerState \<Rightarrow> (Metrics \<times> MetricsToken) \<times> WorkerState" where
  "app_metrics mt nonce self w =
     (let metrics = (case map_of (apps w) (arc_address self) of
            None \<Rightarrow> metrics_default | Some app \<Rightarrow> app_metrics_of mt app);
          (sn, w') = bump_metrics_sn w;
          token = \<lparr> tok_sn = sn, tok_session = (case ws_session w of Some s \<Rightarrow> s | None \<Rightarrow> replicate 32 0),
                    tok_nonce = nonce \<rparr>
      in ((metrics, token), w'))"

definition derive_secret ::
  "(bytes \<Rightarrow> bytes) \<Rightarrow> (bytes list \<Rightarrow> bytes) \<Rightarrow> bytes \<Rightarrow> AppRuntimeCalls \<Rightarrow> bytes" where
  "derive_secret blake2_256 derive path self =
     (let path_hash = blake2_256 path in derive [arc_address self, path_hash])"

definition try_lock :: "string \<Rightarrow> AppRuntimeCalls \<Rightarrow> bool \<times> AppRuntimeCalls" where
  "try_lock path self =
     (if length path > 64 then (False, self)
      else let state = shared self
           in if length (locks state) > 64 then (False, self)
              else if path \<in> set (locks state) then (False, self)
              else (True, self\<lparr>shared := state\<lparr>locks := path # locks state\<rparr>\<rparr>))"

definition unlock :: "string \<Rightarrow> AppRuntimeCalls \<Rightarrow> bool \<times> AppRuntimeCalls" where
  "unlock path self =
     (path \<in> set (locks (shared self)),
      self\<lparr>shared := (shared self)\<lparr>locks := filter (\<lambda>l. l \<noteq> path) (locks (shared self))\<rparr>\<rparr>)"

end
