(* ===== verification/Transition_Systems.thy ===== *)
theory Transition_Systems
  imports Main
begin

text \<open>
  Step relations, their invariants and refinement, as interfaces: a component that is a state
  machine interprets \<open>invariant_system\<close> with its initial states, steps and invariant, and one that
  implements an abstract specification interprets \<open>refinement\<close>, which carries the
  specification's reachable states and invariants over to it.
\<close>

locale invariant_system =
  fixes init :: "'s \<Rightarrow> bool"
    and step :: "'s \<Rightarrow> 's \<Rightarrow> bool"
    and inv :: "'s \<Rightarrow> bool"
  assumes init_inv: "init s \<Longrightarrow> inv s"
    and step_inv: "inv s \<Longrightarrow> step s s' \<Longrightarrow> inv s'"
begin

lemma steps_inv: "step\<^sup>*\<^sup>* s s' \<Longrightarrow> inv s \<Longrightarrow> inv s'"
  by (induction rule: rtranclp_induct) (auto intro: step_inv)

lemma reachable_inv: "init s \<Longrightarrow> step\<^sup>*\<^sup>* s s' \<Longrightarrow> inv s'"
  using init_inv steps_inv by blast

end

locale refinement = invariant_system init step inv
  for init :: "'s \<Rightarrow> bool" and step :: "'s \<Rightarrow> 's \<Rightarrow> bool" and inv :: "'s \<Rightarrow> bool" +
  fixes abs_init :: "'a \<Rightarrow> bool"
    and abs_step :: "'a \<Rightarrow> 'a \<Rightarrow> bool"
    and abs :: "'s \<Rightarrow> 'a"
  assumes init_abs: "init s \<Longrightarrow> abs_init (abs s)"
    and step_abs: "inv s \<Longrightarrow> step s s' \<Longrightarrow> abs_step\<^sup>*\<^sup>* (abs s) (abs s')"
begin

lemma steps_abs: "step\<^sup>*\<^sup>* s s' \<Longrightarrow> inv s \<Longrightarrow> abs_step\<^sup>*\<^sup>* (abs s) (abs s')"
proof (induction rule: rtranclp_induct)
  case (step t u)
  then have "inv t" using steps_inv by blast
  with step step_abs show ?case by (meson rtranclp_trans)
qed simp

lemma reachable_abs: "init s \<Longrightarrow> step\<^sup>*\<^sup>* s s' \<Longrightarrow> abs_init (abs s) \<and> abs_step\<^sup>*\<^sup>* (abs s) (abs s')"
  using init_abs init_inv steps_abs by blast

lemma transfer_inv:
  assumes "init s" "step\<^sup>*\<^sup>* s s'"
    and "\<And>a. abs_init a \<Longrightarrow> P a" "\<And>a b. P a \<Longrightarrow> abs_step a b \<Longrightarrow> P b"
  shows "P (abs s')"
proof -
  from reachable_abs [OF assms(1,2)] have "abs_step\<^sup>*\<^sup>* (abs s) (abs s')" "P (abs s)"
    using assms(3) by auto
  then show ?thesis by (induction rule: rtranclp_induct) (auto intro: assms(4))
qed

end

end
