(* ===== verification/Worker_Properties.thy ===== *)
theory Worker_Properties
  imports Worker_State Transition_Systems
begin

text \<open>
  Properties of the worker. The state machine \<open>worker_step\<close> interleaves every locked section of the
  worker, with the queries in progress as part of the state. Slots are allotted as an abstract
  slot manager does (a refinement), the invariant makes the table of apps and the numbering of
  instances consistent, and usage is conserved except where queries end.
\<close>

section \<open>Elementary steps\<close>

text \<open>
  A resize is a sequence of two kinds of elementary steps: an instance is started in a
  slot that was free, or the youngest instance of some app is stopped.
\<close>

inductive slot_micro :: "Naming \<Rightarrow> (nat \<Rightarrow> Metrics) \<Rightarrow> bytes \<Rightarrow> WorkerState \<Rightarrow> WorkerState \<Rightarrow> bool"
  for nm mt c where
  start_one: "start_app nm c t w = (Ok info, w') \<Longrightarrow> 0 < available_slots w \<Longrightarrow> slot_micro nm mt c w w'"
| stop_one: "map_of (apps w) a = Some app \<Longrightarrow> stop_last mt app = Some (h, app') \<Longrightarrow>
    slot_micro nm mt c w (put_app a app' w)"

lemma put_app_simps [simp]:
  "map_of (apps (put_app a app w)) b = (if b = a then Some app else map_of (apps w) b)"
  "args (put_app a app w) = args w" "ws_session (put_app a app w) = ws_session w"
  "metrics_sn (put_app a app w) = metrics_sn w" "bench_app (put_app a app w) = bench_app w"
  "next_app_sn (put_app a app w) = next_app_sn w" "next_run_sn (put_app a app w) = next_run_sn w"
  "vms (put_app a app w) = vms w" "cleanups (put_app a app w) = cleanups w"
  "hash_inv (apps w) \<Longrightarrow> hash_inv (apps (put_app a app w))"
  by (simp_all add: put_app_def hash.lookup_insert hash.inv_insert)

definition slot_counts :: "WorkerState \<Rightarrow> bytes \<Rightarrow> nat option" where
  "slot_counts w a = map_option (\<lambda>app. length (instances app)) (map_of (apps w) a)"

definition slots_total :: "(bytes \<Rightarrow> nat option) \<Rightarrow> nat" where
  "slots_total m = (\<Sum>a \<in> dom m. the (m a))"

lemma slot_counts_put [simp]:
  "slot_counts (put_app a app w) = (slot_counts w)(a \<mapsto> length (instances app))"
  by (auto simp: slot_counts_def)

lemma slot_counts_cong: "apps w = apps w' \<Longrightarrow> slot_counts w = slot_counts w'"
  by (intro ext) (simp add: slot_counts_def)

lemma dom_slot_counts: "dom (slot_counts w) = fst ` set (apps w)"
  by (auto simp: slot_counts_def dom_map_of_conv_image_fst [symmetric])

lemma running_instances_total:
  assumes "hash_inv (apps w)"
  shows "running_instances w = slots_total (slot_counts w)"
proof -
  have "(\<Sum>a \<in> fst ` set m. f (the (map_of m a))) = sum_list (map (\<lambda>(_, v). f v) m)"
    if "distinct (map fst m)" for m :: "(bytes \<times> AppState) list" and f :: "AppState \<Rightarrow> nat"
    using that
  proof (induction m)
    case (Cons e m)
    obtain k v where e: "e = (k, v)" by (cases e)
    have "(\<Sum>a \<in> fst ` set m. f (the (map_of ((k, v) # m) a))) = (\<Sum>a \<in> fst ` set m. f (the (map_of m a)))"
      using Cons.prems by (intro sum.cong) (auto simp: e)
    then show ?case using Cons by (simp add: e)
  qed simp
  from this [of "apps w" "\<lambda>app. length (instances app)"] assms show ?thesis
    unfolding slots_total_def dom_slot_counts running_instances_def hash_inv_def
    by (simp add: slot_counts_def option.map_sel flip: dom_map_of_conv_image_fst cong: sum.cong)
      (metis (mono_tags, lifting) domIff option.map_sel sum.cong)
qed

lemma slots_total_upd:
  assumes "finite (dom m)"
  shows "slots_total (m(a \<mapsto> n)) + (case m a of None \<Rightarrow> 0 | Some k \<Rightarrow> k) = slots_total m + n"
proof -
  have "slots_total (m(a \<mapsto> n)) = n + (\<Sum>b \<in> dom m - {a}. the (m b))"
    unfolding slots_total_def using assms
    by (simp add: insert_Diff_if sum.insert_remove)
  moreover have "slots_total m = (case m a of None \<Rightarrow> 0 | Some k \<Rightarrow> k) + (\<Sum>b \<in> dom m - {a}. the (m b))"
  proof (cases "m a")
    case None
    then have "dom m - {a} = dom m" by auto
    with None show ?thesis by (simp add: slots_total_def)
  next
    case (Some k)
    then show ?thesis using sum.remove [OF assms, of a "\<lambda>b. the (m b)"] by (simp add: slots_total_def domI)
  qed
  ultimately show ?thesis by simp
qed

lemma finite_slot_counts [simp, intro]: "finite (dom (slot_counts w))"
  by (simp add: dom_slot_counts)

lemma running_put_app:
  assumes "hash_inv (apps w)"
  shows "running_instances (put_app a app w) + (case slot_counts w a of None \<Rightarrow> 0 | Some k \<Rightarrow> k) =
    running_instances w + length (instances app)"
  using slots_total_upd [of "slot_counts w" a "length (instances app)"] assms
  by (simp add: running_instances_total)

lemma running_cong: "apps w = apps w' \<Longrightarrow> running_instances w = running_instances w'"
  by (simp add: running_instances_def)

lemma start_app_Ok:
  assumes "start_app nm a t w = (Ok (sn, vm), w')"
  obtains app cfg where "map_of (apps w) a = Some app" "sn = next_run_sn w" "vm = length (vms w)"
    "w' = (put_app a (app\<lparr>instances := btree_insert sn \<lparr> sequence_number = sn, vm_handle = vm \<rparr> (instances app)\<rparr>) w)
       \<lparr>vms := vms w @ [cfg], next_run_sn := sn + 1, cleanups := cleanups w @ [(a, sn, vm)]\<rparr>"
    "resizable (manifest app) \<or> instances app = [] \<or> t \<noteq> None"
  using assms by (auto simp: start_app_def Let_def split: option.splits if_splits)

lemma start_app_Err: "start_app nm a t w = (Err e, w') \<Longrightarrow> w' = w"
  by (auto simp: start_app_def Let_def split: option.splits if_splits)

lemma stop_last_Some:
  assumes "stop_last mt app = Some (h, app')"
  shows "instances app \<noteq> [] \<and> h = vm_handle (snd (last (instances app))) \<and>
    app' = app\<lparr>instances := butlast (instances app), hist_metrics := metrics_merge (hist_metrics app) (mt h)\<rparr>"
  using assms by (auto simp: stop_last_def btree_pop_last_def split: if_splits option.splits prod.splits)

lemma stop_last_None: "stop_last mt app = None \<longleftrightarrow> instances app = []"
  by (auto simp: stop_last_def btree_pop_last_def split: prod.splits)

lemma evict_resizable_put:
  assumes "hash_inv as" "evict_resizable mt as = Some (h, as')"
  obtains a app app' where "map_of as a = Some app" "resizable (manifest app)"
    "stop_last mt app = Some (h, app')" "as' = hash_insert a app' as"
proof -
  have "\<exists>a app app'. map_of as a = Some app \<and> resizable (manifest app) \<and>
      stop_last mt app = Some (h, app') \<and> as' = hash_insert a app' as"
    using assms
  proof (induction as arbitrary: as')
    case (Cons e as)
    obtain a app where e: "e = (a, app)" by (cases e)
    show ?case
    proof (cases "if resizable (manifest app) then stop_last mt app else None")
      case None
      with Cons.prems(2) obtain as1 where r: "evict_resizable mt as = Some (h, as1)" "as' = (a, app) # as1"
        by (auto simp: e)
      from Cons.prems(1) have "hash_inv as" "a \<notin> fst ` set as" by (auto simp: hash_inv_def e)
      with Cons.IH [OF _ r(1)] obtain b appb app' where
        b: "map_of as b = Some appb" "resizable (manifest appb)" "stop_last mt appb = Some (h, app')"
          "as1 = hash_insert b app' as" by blast
      with \<open>a \<notin> fst ` set as\<close> have "b \<noteq> a" by (metis map_of_eq_None_iff option.distinct(1))
      with b r(2) show ?thesis by (intro exI [of _ b]) (auto simp: e hash_insert_def)
    next
      case (Some r)
      with Cons.prems(2) show ?thesis
        by (intro exI [of _ a]) (auto simp: e hash_insert_def split: if_splits prod.splits)
    qed
  qed simp
  then show thesis using that by blast
qed

lemma available_slots_micro:
  assumes "start_app nm a t w = (Ok info, w')" "hash_inv (apps w)" "available_slots w = Suc n"
  shows "n \<le> available_slots w'"
proof -
  obtain sn vm where "info = (sn, vm)" by (cases info)
  with assms(1) obtain app cfg where app: "map_of (apps w) a = Some app"
    and w': "w' = (put_app a (app\<lparr>instances := btree_insert sn \<lparr> sequence_number = sn, vm_handle = vm \<rparr> (instances app)\<rparr>) w)
       \<lparr>vms := vms w @ [cfg], next_run_sn := sn + 1, cleanups := cleanups w @ [(a, sn, vm)]\<rparr>"
    by (auto elim!: start_app_Ok)
  let ?app' = "app\<lparr>instances := btree_insert sn \<lparr> sequence_number = sn, vm_handle = vm \<rparr> (instances app)\<rparr>"
  have "running_instances w' = running_instances (put_app a ?app' w)" "args w' = args w"
    by (simp_all add: w' running_instances_def)
  moreover have "running_instances (put_app a ?app' w) \<le> Suc (running_instances w)"
    using running_put_app [OF assms(2), of a ?app'] app
      length_btree_insert_le [of sn "\<lparr> sequence_number = sn, vm_handle = vm \<rparr>" "instances app"]
    by (simp add: slot_counts_def)
  ultimately show ?thesis using assms(3) by (simp add: available_slots_def)
qed

lemma start_app_hash_inv: "start_app nm a t w = (r, w') \<Longrightarrow> hash_inv (apps w) \<Longrightarrow> hash_inv (apps w')"
  by (auto simp: start_app_def Let_def split: option.splits if_splits)

lemma start_instances_micro:
  assumes "hash_inv (apps w)" "n \<le> available_slots w"
  shows "(slot_micro nm mt a)\<^sup>*\<^sup>* w (snd (start_instances nm n a t w))"
  using assms
proof (induction n arbitrary: w)
  case (Suc n)
  obtain r w1 where s: "start_app nm a t w = (r, w1)" by fastforce
  show ?case
  proof (cases r)
    case (Ok info)
    have h1: "hash_inv (apps w1)" using start_app_hash_inv [OF s Suc.prems(1)] .
    from Suc.prems(2) obtain k where k: "available_slots w = Suc k" "n \<le> k" by (cases "available_slots w") auto
    have "n \<le> available_slots w1" using available_slots_micro [OF s [unfolded Ok] Suc.prems(1) k(1)] k(2) by simp
    from Suc.IH [OF h1 this] have "(slot_micro nm mt a)\<^sup>*\<^sup>* w1 (snd (start_instances nm n a t w1))" .
    moreover have "slot_micro nm mt a w w1" using s k(1) unfolding Ok by (intro start_one) auto
    moreover have "snd (start_instances nm (Suc n) a t w) = snd (start_instances nm n a t w1)"
      using s Ok by (auto split: prod.splits result.splits)
    ultimately show ?thesis by (metis converse_rtranclp_into_rtranclp)
  next
    case (Err e)
    with s start_app_Err show ?thesis by fastforce
  qed
qed simp

lemma stop_instances_micro:
  assumes "map_of (apps w) a = Some app"
  shows "(slot_micro nm mt c)\<^sup>*\<^sup>* w (put_app a (snd (stop_instances mt n app)) w)"
  using assms
proof (induction n arbitrary: w app)
  case 0
  then have "put_app a app w = w" by (simp add: put_app_def hash_insert_def update_triv)
  then show ?case by simp
next
  case (Suc n)
  show ?case
  proof (cases "stop_last mt app")
    case None
    have "put_app a app w = w" using Suc.prems by (simp add: put_app_def hash_insert_def update_triv)
    with None show ?thesis by simp
  next
    case (Some p)
    obtain h app1 where p: "p = (h, app1)" by (cases p)
    let ?w1 = "put_app a app1 w"
    have one: "slot_micro nm mt c w ?w1" using Suc.prems Some by (intro stop_one) (simp_all add: p)
    have "(slot_micro nm mt c)\<^sup>*\<^sup>* ?w1 (put_app a (snd (stop_instances mt n app1)) ?w1)"
      by (rule Suc.IH) simp
    moreover have "put_app a (snd (stop_instances mt n app1)) ?w1 = put_app a (snd (stop_instances mt (Suc n) app)) w"
      using Some by (simp add: p put_app_def hash_insert_def split: prod.splits)
    ultimately show ?thesis using one by (metis converse_rtranclp_into_rtranclp)
  qed
qed

lemma micro_hash_inv: "slot_micro nm mt c w w' \<Longrightarrow> hash_inv (apps w) \<Longrightarrow> hash_inv (apps w')"
  by (induction rule: slot_micro.induct) (auto dest: start_app_hash_inv)

lemma reserve_micro:
  assumes "hash_inv (apps w)" "reserve_slot_if_needed mt a w = (r, w')"
  shows "(slot_micro nm mt c)\<^sup>*\<^sup>* w w' \<and> hash_inv (apps w')"
proof (cases "w' = w")
  case False
  with assms(2) obtain h as' where ev: "evict_resizable mt (apps w) = Some (h, as')" and w': "w' = w\<lparr>apps := as'\<rparr>"
    by (auto simp: reserve_slot_if_needed_def split: option.splits if_splits)
  from assms(1) ev obtain b app app' where "map_of (apps w) b = Some app"
    "stop_last mt app = Some (h, app')" "as' = hash_insert b app' (apps w)"
    by (rule evict_resizable_put)
  then have "slot_micro nm mt c w (put_app b app' w)" and "w' = put_app b app' w"
    by (auto intro: stop_one) (simp add: w' put_app_def)
  then show ?thesis using micro_hash_inv assms(1) by blast
qed (use assms(1) in simp)

lemma resize_micro:
  assumes "hash_inv (apps w)"
  shows "(slot_micro nm mt a)\<^sup>*\<^sup>* w (snd (resize_app_instances nm mt a n t w))"
proof -
  obtain r w1 where res: "(if t \<noteq> None then reserve_slot_if_needed mt a w else (Ok None, w)) = (r, w1)"
    by fastforce
  have w1: "(slot_micro nm mt a)\<^sup>*\<^sup>* w w1" "hash_inv (apps w1)"
  proof -
    have "(slot_micro nm mt a)\<^sup>*\<^sup>* w w1 \<and> hash_inv (apps w1)"
    proof (cases "t = None")
      case True
      with res assms show ?thesis by simp
    next
      case False
      with res have "reserve_slot_if_needed mt a w = (r, w1)" by simp
      from reserve_micro [OF assms this] show ?thesis .
    qed
    then show "(slot_micro nm mt a)\<^sup>*\<^sup>* w w1" "hash_inv (apps w1)" by simp_all
  qed
  let ?out = "snd (resize_app_instances nm mt a n t w)"
  have "(slot_micro nm mt a)\<^sup>*\<^sup>* w1 ?out"
  proof (cases r)
    case (Err e)
    then have "?out = w1" by (simp only: resize_app_instances_def res prod.case result.case snd_conv)
    then show ?thesis by simp
  next
    case (Ok reserved)
    show ?thesis
    proof (cases "map_of (apps w1) a")
      case None
      then have "?out = w1"
        by (simp only: resize_app_instances_def res Ok prod.case result.case option.case Let_def snd_conv)
      then show ?thesis by simp
    next
      case (Some app)
      note out = resize_app_instances_def res Ok Some prod.case result.case option.case Let_def
      consider "length (instances app) < n" | "length (instances app) = n" | "length (instances app) > n"
        by linarith
      then show ?thesis
      proof cases
        case 1
        let ?k = "min (available_slots w1) (n - length (instances app))"
        have "?out = w1 \<or> ?out = snd (start_instances nm ?k a t w1)"
          unfolding out using 1 by (auto split: result.splits prod.splits)
        then show ?thesis using start_instances_micro [OF w1(2), of ?k] by auto
      next
        case 2
        then have "?out = w1" unfolding out by simp
        then show ?thesis by simp
      next
        case 3
        then have "?out = put_app a (snd (stop_instances mt (length (instances app) - n) app)) w1"
          unfolding out by (simp split: prod.splits)
        then show ?thesis using stop_instances_micro [OF Some] by simp
      qed
    qed
  qed
  with w1(1) show ?thesis by (rule rtranclp_trans)
qed

section \<open>The state machine\<close>

text \<open>
  The worker's state and the guards of the queries in progress. Every rule is one locked section;
  \<open>reorder\<close> is the freedom of a hash map to change its iteration order.
\<close>

type_synonym worker = "WorkerState \<times> QueryGuard list"

inductive worker_step ::
  "Naming \<Rightarrow> (AppManifest \<Rightarrow> nat) \<Rightarrow> (AppManifest \<Rightarrow> bytes) \<Rightarrow> worker \<Rightarrow> worker \<Rightarrow> bool"
  for nm size_hint gen where
  resizes: "worker_step nm size_hint gen (w, gs) (snd (resize_app_instances nm mt a n t w), gs)"
| increments: "worker_step nm size_hint gen (w, gs) (snd (try_inc_instances nm mt a w), gs)"
| ends: "(a, sn, vm) \<in> set (cleanups w) \<Longrightarrow>
    worker_step nm size_hint gen (w, gs)
      ((instance_ended mt a sn w)\<lparr>cleanups := remove1 (a, sn, vm) (cleanups w)\<rparr>, gs)"
| begins: "begin_query a query_size w = (Ok (g, b), w') \<Longrightarrow> worker_step nm size_hint gen (w, gs) (w', g # gs)"
| assigns: "g \<in> set gs \<Longrightarrow> try_inc_instances nm mt (qg_address g) w = (Ok info, w') \<Longrightarrow>
    worker_step nm size_hint gen (w, gs)
      (w', g\<lparr>qg_instance_id := map_option fst info\<rparr> # remove1 g gs)"
| guard_drops: "g \<in> set gs \<Longrightarrow> worker_step nm size_hint gen (w, gs) (drop_guard now g w, remove1 g gs)"
| registers: "check_manifest size_hint m = Ok () \<Longrightarrow>
    worker_step nm size_hint gen (w, gs) (snd (register_app (gen m) sess now m restart reuse w), gs)"
| removes: "worker_step nm size_hint gen (w, gs) (snd (remove_app a w), gs)"
| clears: "worker_step nm size_hint gen (w, gs) (clear w, gs)"
| inits: "worker_step nm size_hint gen (w, gs) (snd (session_init crypto cnonce pnonce recipient w), gs)"
| reports: "worker_step nm size_hint gen (w, gs) (snd (app_metrics mt nonce calls w), gs)"
| benches: "worker_step nm size_hint gen (w, gs) (set_bench_app a k w, gs)"
| reorder: "mset as = mset (apps w) \<Longrightarrow> worker_step nm size_hint gen (w, gs) (w\<lparr>apps := as\<rparr>, gs)"

definition app_ok :: "(AppManifest \<Rightarrow> nat) \<Rightarrow> (AppManifest \<Rightarrow> bytes) \<Rightarrow> bytes \<Rightarrow> AppState \<Rightarrow> bool" where
  "app_ok size_hint gen a app \<longleftrightarrow>
     check_manifest size_hint (manifest app) = Ok () \<and> gen (manifest app) = a \<and> btree_inv (instances app)"

definition numbered :: "WorkerState \<Rightarrow> AppState \<Rightarrow> bool" where
  "numbered w app \<longleftrightarrow> (\<forall>(sn, i) \<in> set (instances app).
     sequence_number i = sn \<and> sn = of_nat (vm_handle i) \<and> vm_handle i < length (vms w))"

definition worker_inv :: "(AppManifest \<Rightarrow> nat) \<Rightarrow> (AppManifest \<Rightarrow> bytes) \<Rightarrow> WorkerState \<Rightarrow> bool" where
  "worker_inv size_hint gen w \<longleftrightarrow>
     hash_inv (apps w) \<and> running_instances w \<le> max_instances (args w) \<and>
     next_run_sn w = of_nat (length (vms w)) \<and>
     (\<forall>a app. map_of (apps w) a = Some app \<longrightarrow> app_ok size_hint gen a app \<and> numbered w app)"

lemma worker_inv_cong:
  "worker_inv size_hint gen w \<Longrightarrow> apps w' = apps w \<Longrightarrow> args w' = args w \<Longrightarrow>
   next_run_sn w' = next_run_sn w \<Longrightarrow> vms w' = vms w \<Longrightarrow> worker_inv size_hint gen w'"
  by (simp add: worker_inv_def running_instances_def numbered_def)

lemma worker_inv_app:
  "worker_inv size_hint gen w \<Longrightarrow> map_of (apps w) a = Some app \<Longrightarrow>
   app_ok size_hint gen a app \<and> numbered w app"
  by (simp add: worker_inv_def)

lemma worker_inv_put:
  assumes "worker_inv size_hint gen w" "map_of (apps w) a = Some app"
    and "manifest app' = manifest app" "btree_inv (instances app')"
    and "set (instances app') \<subseteq> set (instances app)" "length (instances app') \<le> length (instances app)"
  shows "worker_inv size_hint gen (put_app a app' w)"
proof -
  have "running_instances (put_app a app' w) \<le> running_instances w"
    using running_put_app [of w a app'] assms(1,2,6) by (simp add: worker_inv_def slot_counts_def)
  moreover have "numbered (put_app a app' w) app'" "app_ok size_hint gen a app'"
    using worker_inv_app [OF assms(1,2)] assms(3-5) by (auto simp: numbered_def app_ok_def)
  moreover have "numbered (put_app a app' w) b" if "numbered w b" for b
    using that by (simp add: numbered_def)
  ultimately show ?thesis using assms(1) by (auto simp: worker_inv_def)
qed

lemma micro_inv:
  assumes "slot_micro nm mt c w w'" "worker_inv size_hint gen w"
  shows "worker_inv size_hint gen w'"
  using assms
proof (cases rule: slot_micro.cases)
  case (start_one t info)
  obtain sn vm where "info = (sn, vm)" by (cases info)
  with start_one(1) obtain app cfg where app: "map_of (apps w) c = Some app"
    and sn: "sn = next_run_sn w" and vm: "vm = length (vms w)"
    and w': "w' = (put_app c (app\<lparr>instances := btree_insert sn \<lparr> sequence_number = sn, vm_handle = vm \<rparr> (instances app)\<rparr>) w)
       \<lparr>vms := vms w @ [cfg], next_run_sn := sn + 1, cleanups := cleanups w @ [(c, sn, vm)]\<rparr>"
    by (auto elim!: start_app_Ok)
  let ?app' = "app\<lparr>instances := btree_insert sn \<lparr> sequence_number = sn, vm_handle = vm \<rparr> (instances app)\<rparr>"
  note inv = assms(2) [unfolded worker_inv_def]
  have "running_instances w' = running_instances (put_app c ?app' w)"
    by (simp add: w' running_instances_def)
  also have "\<dots> \<le> Suc (running_instances w)"
    using running_put_app [of w c ?app'] inv app
      length_btree_insert_le [of sn "\<lparr> sequence_number = sn, vm_handle = vm \<rparr>" "instances app"]
    by (simp add: slot_counts_def)
  also have "\<dots> \<le> max_instances (args w)" using start_one(2) by (simp add: available_slots_def)
  finally have run: "running_instances w' \<le> max_instances (args w')" by (simp add: w')
  have "numbered w' ?app'"
    using worker_inv_app [OF assms(2) app] set_btree_insert [of sn "\<lparr> sequence_number = sn, vm_handle = vm \<rparr>" "instances app"]
      inv by (fastforce simp: numbered_def w' sn vm)
  moreover have "numbered w' b" if "numbered w b" for b
    using that by (fastforce simp: numbered_def w')
  moreover have "app_ok size_hint gen c ?app'"
    using worker_inv_app [OF assms(2) app] by (simp add: app_ok_def btree.inv_insert)
  ultimately show ?thesis using run inv by (auto simp: worker_inv_def w' sn)
next
  case (stop_one a app h app')
  from stop_last_Some [OF stop_one(3)] have app': "instances app' = butlast (instances app)"
    "manifest app' = manifest app" by simp_all
  have "btree_inv (instances app)" using worker_inv_app [OF assms(2) stop_one(2)] by (simp add: app_ok_def)
  then show ?thesis
    unfolding stop_one(1)
    by (intro worker_inv_put [OF assms(2) stop_one(2)]) (auto simp: app' btree_inv_butlast dest: in_set_butlastD)
qed

lemma micros_inv: "(slot_micro nm mt c)\<^sup>*\<^sup>* w w' \<Longrightarrow> worker_inv size_hint gen w \<Longrightarrow> worker_inv size_hint gen w'"
  by (induction rule: rtranclp_induct) (auto intro: micro_inv)

lemma try_inc_resize:
  "snd (try_inc_instances nm mt a w) = w \<or>
   (\<exists>n t. snd (try_inc_instances nm mt a w) = snd (resize_app_instances nm mt a n t w))"
  by (auto simp: try_inc_instances_def Let_def split: option.splits result.splits prod.splits) (metis snd_conv)+

lemma try_inc_micro:
  "hash_inv (apps w) \<Longrightarrow> (slot_micro nm mt a)\<^sup>*\<^sup>* w (snd (try_inc_instances nm mt a w))"
  using try_inc_resize [of nm mt a w] resize_micro [of w nm mt a] by (elim disjE exE) simp_all

text \<open>
  The other sections replace one app by one with the same manifest and fewer instances, add
  an app without instances, remove apps, or leave the table as it is.
\<close>

definition shrinks :: "AppState \<Rightarrow> AppState \<Rightarrow> bool" where
  "shrinks app app' \<longleftrightarrow> manifest app' = manifest app \<and>
     (instances app' = instances app \<or> instances app' = [] \<or>
      (\<exists>sn. instances app' = btree_remove sn (instances app)))"

inductive shrink_step :: "WorkerState \<Rightarrow> WorkerState \<Rightarrow> bool" where
  keep [intro]: "shrink_step w w"
| put [intro]: "map_of (apps w) a = Some app \<Longrightarrow> shrinks app app' \<Longrightarrow> shrink_step w (put_app a app' w)"

lemma shrink_step_inv:
  assumes "shrink_step w w'" "worker_inv size_hint gen w"
  shows "worker_inv size_hint gen w'"
  using assms
proof (induction rule: shrink_step.induct)
  case (put w a app app')
  have b: "btree_inv (instances app)" using worker_inv_app [OF put(3,1)] by (simp add: app_ok_def)
  have "btree_inv []" by (rule btree.inv_empty)
  then have "btree_inv (instances app')" using put(2) b by (auto simp: shrinks_def btree.inv_remove)
  then show ?case using put(2)
    by (intro worker_inv_put [OF put(3,1)]) (auto simp: shrinks_def btree_remove_def)
qed

lemma instance_ended_shrink: "shrink_step w (instance_ended mt a sn w)"
  by (auto simp: instance_ended_def shrinks_def split: option.splits intro!: shrink_step.put)

lemma begin_query_shrink: "begin_query a n w = (Ok r, w') \<Longrightarrow> shrink_step w w'"
  by (auto simp: begin_query_def Let_def on_going_query_inc_def shrinks_def split: option.splits if_splits
      intro!: shrink_step.put)

lemma end_query_shrink: "shrink_step w (snd (end_query now a sn w))"
  by (auto simp: end_query_def Let_def on_going_query_dec_def shrinks_def split: option.splits
      intro!: shrink_step.put)

lemma drop_guard_shrink: "shrink_step w (drop_guard now g w)"
  by (simp add: drop_guard_def end_query_shrink)

lemma register_app_cases:
  obtains "snd (register_app a sess now m restart reuse w) = w"
  | app where "map_of (apps w) a = None" "manifest app = m" "instances app = []"
      "snd (register_app a sess now m restart reuse w) = (put_app a app w)\<lparr>next_app_sn := next_app_sn w + 1\<rparr>"
proof (cases "map_of (apps w) a")
  case None
  show thesis by (rule that(2) [OF None]) (simp_all add: register_app_def None Let_def)
next
  case (Some app)
  show thesis by (rule that(1)) (simp add: register_app_def Some)
qed

lemma remove_app_cases:
  "snd (remove_app a w) = w \<or> snd (remove_app a w) = w\<lparr>apps := hash_remove a (apps w)\<rparr>"
  by (auto simp: remove_app_def split: option.splits)

section \<open>Invariant and refinement\<close>

lemma worker_inv_register:
  assumes "worker_inv size_hint gen w" "check_manifest size_hint m = Ok ()"
  shows "worker_inv size_hint gen (snd (register_app (gen m) sess now m restart reuse w))"
proof (cases rule: register_app_cases [where a = "gen m" and w = w and sess = sess and now = now
      and m = m and restart = restart and reuse = reuse])
  case 1
  then show ?thesis using assms(1) by simp
next
  case (2 app)
  let ?w' = "put_app (gen m) app w"
  have "running_instances ?w' = running_instances w"
    using running_put_app [of w "gen m" app] assms(1) 2(1,3) by (simp add: worker_inv_def slot_counts_def)
  moreover have "app_ok size_hint gen (gen m) app" "numbered ?w' app"
    using 2(2,3) assms(2) btree.inv_empty by (simp_all add: app_ok_def numbered_def)
  ultimately have "worker_inv size_hint gen ?w'"
    using assms(1) by (auto simp: worker_inv_def numbered_def)
  then show ?thesis unfolding 2(4) by (rule worker_inv_cong) simp_all
qed

lemma worker_inv_sub:
  assumes "worker_inv size_hint gen w" "hash_inv as"
    and "\<And>a. map_of as a = None \<or> map_of as a = map_of (apps w) a"
  shows "worker_inv size_hint gen (w\<lparr>apps := as\<rparr>)"
proof -
  let ?w' = "w\<lparr>apps := as\<rparr>"
  have same: "slot_counts ?w' a = slot_counts w a" if "a \<in> dom (slot_counts ?w')" for a
    using assms(3) [of a] that by (auto simp: slot_counts_def)
  then have sub: "dom (slot_counts ?w') \<subseteq> dom (slot_counts w)" by (metis domIff subsetI)
  have "slots_total (slot_counts ?w') = (\<Sum>a \<in> dom (slot_counts ?w'). the (slot_counts w a))"
    unfolding slots_total_def using same by (intro sum.cong) simp_all
  also have "\<dots> \<le> slots_total (slot_counts w)"
    unfolding slots_total_def using sub by (intro sum_mono2) auto
  finally have "slots_total (slot_counts ?w') \<le> slots_total (slot_counts w)" .
  then have "running_instances ?w' \<le> running_instances w"
    using assms(1,2) by (simp add: running_instances_total worker_inv_def)
  moreover have "app_ok size_hint gen a app \<and> numbered ?w' app" if "map_of as a = Some app" for a app
    using that assms(3) [of a] worker_inv_app [OF assms(1), of a app] by (simp add: numbered_def)
  ultimately show ?thesis using assms(1,2) by (simp add: worker_inv_def)
qed

lemma map_of_mset:
  assumes "mset as = mset bs" "distinct (map fst as)"
  shows "map_of as = map_of bs"
proof -
  have "distinct (map fst bs)" using assms by (metis mset_eq_imp_distinct_iff mset_map)
  moreover have "set as = set bs" using assms(1) by (rule mset_eq_setD)
  ultimately show ?thesis using assms(2) map_of_inject_set by blast
qed

lemma worker_inv_hash: "worker_inv size_hint gen w \<Longrightarrow> hash_inv (apps w)"
  by (simp add: worker_inv_def)

lemma hash_inv_mset: "mset as = mset bs \<Longrightarrow> hash_inv as = hash_inv bs"
  by (metis hash_inv_def mset_eq_imp_distinct_iff mset_map)

lemma worker_step_inv:
  assumes "worker_step nm size_hint gen s s'" "worker_inv size_hint gen (fst s)"
  shows "worker_inv size_hint gen (fst s')"
  using assms
proof (induction rule: worker_step.induct)
  case (resizes w gs mt a n t)
  have "worker_inv size_hint gen w" using resizes by simp
  from micros_inv [OF resize_micro [OF worker_inv_hash [OF this]] this] show ?case by simp
next
  case (increments w gs mt a)
  have "worker_inv size_hint gen w" using increments by simp
  from micros_inv [OF try_inc_micro [OF worker_inv_hash [OF this]] this] show ?case by simp
next
  case (ends a sn vm w gs mt)
  have "worker_inv size_hint gen (instance_ended mt a sn w)"
    using shrink_step_inv [OF instance_ended_shrink] ends by simp
  then show ?case unfolding fst_conv by (rule worker_inv_cong) simp_all
next
  case (begins a query_size w g b w' gs)
  then show ?case using shrink_step_inv [OF begin_query_shrink [OF begins(1)]] by simp
next
  case (assigns g gs mt w info w')
  then have inv: "worker_inv size_hint gen w" by simp
  from micros_inv [OF try_inc_micro [OF worker_inv_hash [OF this]] this, of nm mt "qg_address g"] assigns(2)
  show ?case by simp
next
  case (guard_drops g gs w now)
  then show ?case using shrink_step_inv [OF drop_guard_shrink] by simp
next
  case (registers m w gs sess now restart reuse)
  then show ?case using worker_inv_register by simp
next
  case (removes w gs a)
  have "worker_inv size_hint gen (w\<lparr>apps := hash_remove a (apps w)\<rparr>)"
    using removes by (intro worker_inv_sub) (auto simp: worker_inv_def hash.inv_remove hash.lookup_remove)
  with remove_app_cases [of a w] removes show ?case by (elim disjE) simp_all
next
  case (clears w gs)
  then show ?case using worker_inv_sub [of size_hint gen w "[]"] hash.inv_empty by (simp add: clear_def)
next
  case (inits w gs crypto cnonce pnonce recipient)
  then show ?case unfolding fst_conv by (rule worker_inv_cong) (simp_all add: session_init_def Let_def)
next
  case (reports w gs mt nonce calls)
  then show ?case unfolding fst_conv
    by (rule worker_inv_cong) (simp_all add: app_metrics_def bump_metrics_sn_def Let_def)
next
  case (benches w gs a k)
  then show ?case unfolding fst_conv by (rule worker_inv_cong) (simp_all add: set_bench_app_def)
next
  case (reorder as w gs)
  then have inv: "worker_inv size_hint gen w" by simp
  have "hash_inv as" using worker_inv_hash [OF inv] hash_inv_mset [OF reorder(1)] by blast
  then have "map_of as = map_of (apps w)" using map_of_mset [OF reorder(1)] by (simp add: hash_inv_def)
  with worker_inv_sub [OF inv \<open>hash_inv as\<close>] show ?case by simp
qed

text \<open>
  The abstract slot manager: how many slots each deployed app holds, out of \<open>cap\<close> altogether. An app
  is deployed without slots, takes one more while one is free, gives some back, or leaves.
\<close>

inductive slots_step :: "nat \<Rightarrow> (bytes \<Rightarrow> nat option) \<Rightarrow> (bytes \<Rightarrow> nat option) \<Rightarrow> bool"
  for cap where
  deploy: "m a = None \<Longrightarrow> slots_step cap m (m(a \<mapsto> 0))"
| acquire: "m a = Some n \<Longrightarrow> slots_total m < cap \<Longrightarrow> slots_step cap m (m(a \<mapsto> Suc n))"
| release: "m a = Some n \<Longrightarrow> k \<le> n \<Longrightarrow> slots_step cap m (m(a \<mapsto> k))"
| leave: "slots_step cap m (m(a := None))"
| leave_all: "slots_step cap m (\<lambda>_. None)"

lemma slots_one: "slots_step cap m m' \<Longrightarrow> (slots_step cap)\<^sup>*\<^sup>* m m'"
  by (rule r_into_rtranclp [of "slots_step cap" m m'])

lemma micro_slots:
  assumes "slot_micro nm mt c w w'" "hash_inv (apps w)"
  shows "(slots_step (max_instances (args w)))\<^sup>*\<^sup>* (slot_counts w) (slot_counts w') \<and> args w' = args w"
  using assms
proof (cases rule: slot_micro.cases)
  case (start_one t info)
  obtain sn vm where "info = (sn, vm)" by (cases info)
  with start_one(1) obtain app cfg where app: "map_of (apps w) c = Some app"
    and w': "w' = (put_app c (app\<lparr>instances := btree_insert sn \<lparr> sequence_number = sn, vm_handle = vm \<rparr> (instances app)\<rparr>) w)
       \<lparr>vms := vms w @ [cfg], next_run_sn := sn + 1, cleanups := cleanups w @ [(c, sn, vm)]\<rparr>"
    by (auto elim!: start_app_Ok)
  let ?n = "length (instances app)" and ?ins = "btree_insert sn \<lparr> sequence_number = sn, vm_handle = vm \<rparr> (instances app)"
  have sc: "slot_counts w' = (slot_counts w)(c \<mapsto> length ?ins)"
    by (intro ext) (simp add: w' slot_counts_def)
  have n: "slot_counts w c = Some ?n" using app by (simp add: slot_counts_def)
  have "slots_total (slot_counts w) < max_instances (args w)"
    using start_one(2) running_instances_total [OF assms(2)] by (simp add: available_slots_def)
  then have acq: "slots_step (max_instances (args w)) (slot_counts w) ((slot_counts w)(c \<mapsto> Suc ?n))"
    by (rule slots_step.acquire [where m = "slot_counts w" and a = c, OF n])
  have same: "(slot_counts w)(c \<mapsto> ?n) = slot_counts w" using n by (simp add: fun_upd_idem)
  have "(slots_step (max_instances (args w)))\<^sup>*\<^sup>* (slot_counts w) (slot_counts w')"
    using length_btree_insert_cases [of sn "\<lparr> sequence_number = sn, vm_handle = vm \<rparr>" "instances app"]
  proof
    assume "length ?ins = Suc ?n"
    then show ?thesis unfolding sc using slots_one [OF acq] by (simp only:)
  next
    assume "length ?ins = ?n"
    then show ?thesis unfolding sc by (simp only: same rtranclp.rtrancl_refl)
  qed
  then show ?thesis by (simp add: w')
next
  case (stop_one a app h app')
  from stop_last_Some [OF stop_one(3)] have "length (instances app') \<le> length (instances app)" by simp
  moreover have "slot_counts w a = Some (length (instances app))"
    using stop_one(2) by (simp add: slot_counts_def)
  ultimately have "slots_step (max_instances (args w)) (slot_counts w) (slot_counts (put_app a app' w))"
    unfolding slot_counts_put by (intro slots_step.release [where m = "slot_counts w" and a = a])
  from slots_one [OF this] show ?thesis unfolding stop_one(1) by (intro conjI) simp_all
qed

lemma micros_slots:
  assumes "(slot_micro nm mt c)\<^sup>*\<^sup>* w w'" "hash_inv (apps w)"
  shows "(slots_step (max_instances (args w)))\<^sup>*\<^sup>* (slot_counts w) (slot_counts w') \<and> args w' = args w \<and>
    hash_inv (apps w')"
  using assms
proof (induction rule: rtranclp_induct)
  case (step u v)
  then have u: "(slots_step (max_instances (args w)))\<^sup>*\<^sup>* (slot_counts w) (slot_counts u)"
    "args u = args w" "hash_inv (apps u)" by simp_all
  from micro_slots [OF step(2) u(3)] micro_hash_inv [OF step(2) u(3)] u show ?case
    by (metis rtranclp_trans)
qed simp

lemma shrink_slots:
  assumes "shrink_step w w'"
  shows "(slots_step cap)\<^sup>*\<^sup>* (slot_counts w) (slot_counts w') \<and> args w' = args w"
  using assms
proof (induction rule: shrink_step.induct)
  case (put w a app app')
  have "length (instances app') \<le> length (instances app)"
    using put(2) by (auto simp: shrinks_def btree_remove_def)
  moreover have "slot_counts w a = Some (length (instances app))" using put(1) by (simp add: slot_counts_def)
  ultimately have "slots_step cap (slot_counts w) (slot_counts (put_app a app' w))"
    unfolding slot_counts_put by (intro slots_step.release [where m = "slot_counts w" and a = a])
  from slots_one [OF this] show ?case by (rule conjI) simp
qed simp

text \<open>
  Every step of the worker is a sequence of steps of the slot manager with the worker's capacity.
\<close>

lemma worker_step_slots:
  assumes "worker_step nm size_hint gen s s'" "worker_inv size_hint gen (fst s)"
  shows "(slots_step (max_instances (args (fst s))))\<^sup>*\<^sup>* (slot_counts (fst s)) (slot_counts (fst s')) \<and>
    args (fst s') = args (fst s)"
  using assms
proof (induction rule: worker_step.induct)
  case (resizes w gs mt a n t)
  then show ?case using micros_slots [OF resize_micro] worker_inv_hash by auto
next
  case (increments w gs mt a)
  then show ?case using micros_slots [OF try_inc_micro] worker_inv_hash by auto
next
  case (ends a sn vm w gs mt)
  have "slot_counts ((instance_ended mt a sn w)\<lparr>cleanups := c\<rparr>) = slot_counts (instance_ended mt a sn w)" for c
    by (rule slot_counts_cong) simp
  then show ?case using shrink_slots [OF instance_ended_shrink] by simp
next
  case (begins a query_size w g b w' gs)
  then show ?case using shrink_slots [OF begin_query_shrink [OF begins(1)]] by simp
next
  case (assigns g gs mt w info w')
  then have "hash_inv (apps w)" using worker_inv_hash by auto
  from micros_slots [OF try_inc_micro [OF this] this, of nm mt "qg_address g"] assigns(2) show ?case by simp
next
  case (guard_drops g gs w now)
  then show ?case using shrink_slots [OF drop_guard_shrink] by simp
next
  case (registers m w gs sess now restart reuse)
  show ?case
  proof (cases rule: register_app_cases [where a = "gen m" and w = w and sess = sess and now = now
      and m = m and restart = restart and reuse = reuse])
    case (2 app)
    have "slot_counts (snd (register_app (gen m) sess now m restart reuse w)) = (slot_counts w)(gen m \<mapsto> 0)"
      unfolding 2(4) using 2(3) by (subst slot_counts_cong [of _ "put_app (gen m) app w"]) simp_all
    moreover have "slots_step (max_instances (args w)) (slot_counts w) ((slot_counts w)(gen m \<mapsto> 0))"
      by (rule slots_step.deploy) (simp add: slot_counts_def 2(1))
    ultimately have "(slots_step (max_instances (args w)))\<^sup>*\<^sup>* (slot_counts w)
        (slot_counts (snd (register_app (gen m) sess now m restart reuse w)))"
      by (metis slots_one)
    then show ?thesis unfolding fst_conv by (rule conjI) (simp add: 2(4))
  qed simp
next
  case (removes w gs a)
  have "slot_counts (w\<lparr>apps := hash_remove a (apps w)\<rparr>) = (slot_counts w)(a := None)"
    by (intro ext) (simp add: slot_counts_def hash.lookup_remove)
  moreover have "slots_step (max_instances (args w)) (slot_counts w) ((slot_counts w)(a := None))"
    by (rule slots_step.leave)
  ultimately have "(slots_step (max_instances (args w)))\<^sup>*\<^sup>* (slot_counts w)
      (slot_counts (w\<lparr>apps := hash_remove a (apps w)\<rparr>))" by (metis slots_one)
  with remove_app_cases [of a w] show ?case unfolding fst_conv by (elim disjE) simp_all
next
  case (clears w gs)
  have "slot_counts (clear w) = (\<lambda>_. None)" by (intro ext) (simp add: slot_counts_def clear_def)
  then show ?case using slots_one [OF slots_step.leave_all] by (simp add: clear_def)
next
  case (inits w gs crypto cnonce pnonce recipient)
  have "apps (snd (session_init crypto cnonce pnonce recipient w)) = apps w"
    "args (snd (session_init crypto cnonce pnonce recipient w)) = args w"
    by (simp_all add: session_init_def Let_def)
  from slot_counts_cong [OF this(1)] this(2) show ?case by simp
next
  case (reports w gs mt nonce calls)
  have "apps (snd (app_metrics mt nonce calls w)) = apps w" "args (snd (app_metrics mt nonce calls w)) = args w"
    by (simp_all add: app_metrics_def bump_metrics_sn_def Let_def)
  from slot_counts_cong [OF this(1)] this(2) show ?case by simp
next
  case (benches w gs a k)
  have "slot_counts (set_bench_app a k w) = slot_counts w" by (rule slot_counts_cong) (simp add: set_bench_app_def)
  then show ?case by (simp add: set_bench_app_def)
next
  case (reorder as w gs)
  have "map_of as = map_of (apps w)"
    using map_of_mset [OF reorder(1)] hash_inv_mset [OF reorder(1)] worker_inv_hash reorder(2)
    by (auto simp: hash_inv_def)
  then have "slot_counts (w\<lparr>apps := as\<rparr>) = slot_counts w" by (intro ext) (simp add: slot_counts_def)
  then show ?case by simp
qed

lemma worker_new_inv: "worker_inv size_hint gen (worker_new a)"
  using hash.inv_empty by (simp add: worker_inv_def worker_new_def running_instances_def)

interpretation worker: refinement
  "\<lambda>s. s = (worker_new a, [])" "worker_step nm size_hint gen"
  "\<lambda>s. worker_inv size_hint gen (fst s) \<and> args (fst s) = a"
  "\<lambda>m. m = (\<lambda>_. None)" "slots_step (max_instances a)" "\<lambda>s. slot_counts (fst s)"
  for nm :: Naming and size_hint :: "AppManifest \<Rightarrow> nat" and gen :: "AppManifest \<Rightarrow> bytes" and a :: WorkerArgs
proof unfold_locales
  show "slot_counts (fst s) = (\<lambda>_. None)" if "s = (worker_new a, [])" for s :: worker
    using that by (auto simp: slot_counts_def worker_new_def)
  show "worker_inv size_hint gen (fst s) \<and> args (fst s) = a" if "s = (worker_new a, [])" for s :: worker
    using that worker_new_inv by (simp add: worker_new_def)
  show "worker_inv size_hint gen (fst s') \<and> args (fst s') = a"
    if "worker_inv size_hint gen (fst s) \<and> args (fst s) = a" "worker_step nm size_hint gen s s'" for s s'
    using worker_step_inv [OF that(2)] worker_step_slots [OF that(2)] that(1) by simp
  show "(slots_step (max_instances a))\<^sup>*\<^sup>* (slot_counts (fst s)) (slot_counts (fst s'))"
    if "worker_inv size_hint gen (fst s) \<and> args (fst s) = a" "worker_step nm size_hint gen s s'" for s s'
    using worker_step_slots [OF that(2)] that(1) by simp
qed

section \<open>Properties of the slots\<close>

lemma slots_step_total:
  assumes "slots_step cap m m'" "finite (dom m)" "slots_total m \<le> cap"
  shows "finite (dom m') \<and> slots_total m' \<le> cap"
  using assms
proof (cases rule: slots_step.cases)
  case (deploy a)
  then show ?thesis using slots_total_upd [OF assms(2), of a 0] assms(2,3) by simp
next
  case (acquire a n)
  then show ?thesis using slots_total_upd [OF assms(2), of a "Suc n"] assms(2) by simp
next
  case (release a n k)
  then show ?thesis using slots_total_upd [OF assms(2), of a k] assms(2,3) by simp
next
  case (leave a)
  have "slots_total (m(a := None)) \<le> slots_total m"
    unfolding slots_total_def using assms(2)
    by (simp add: sum_mono2 sum.cong [of "dom m - {a}" _ "\<lambda>b. the ((m(a := None)) b)" "\<lambda>b. the (m b)"])
  then show ?thesis using assms(2,3) unfolding leave by simp
next
  case leave_all
  then show ?thesis by (simp add: slots_total_def)
qed

text \<open>A small worker for the examples: one app deployed and started on two slots.\<close>

definition demo_args :: WorkerArgs where
  "demo_args = \<lparr> instance_memory_size = 1048576, max_instances = 2, module_cache_size = 16,
     no_mem_pool = False, use_winch = False, wa_tcp_listen_port_range = (8000, 9000), tls_port = None,
     verify_tls_server_cert = True, on_demand_connection_timeout = 60000000000 \<rparr>"

definition demo_manifest :: AppManifest where
  "demo_manifest = \<lparr> version = 1, code_hash = ''sha256:00'', man_args = [], env_vars = [],
     on_demand = False, resizable = True, max_query_size = 1024, label = ''demo'', required_blobs = [] \<rparr>"

definition demo_naming :: Naming where
  "demo_naming = \<lparr> names = \<lambda>_. ''app'', agents = \<lambda>_ _ _. None \<rparr>"

definition demo_deployed :: WorkerState where
  "demo_deployed = snd (register_app [1] [9] 0 demo_manifest False True (worker_new demo_args))"

definition demo_worker :: WorkerState where
  "demo_worker = snd (resize_app_instances demo_naming (\<lambda>_. metrics_default) [1] 1 None demo_deployed)"

lemma demo_deployed_apps:
  "demo_deployed = (worker_new demo_args)\<lparr>apps := [([1], \<lparr> app_sn = 0, app_session = [9], manifest = demo_manifest,
     hist_metrics = metrics_default, instances = [], on_going_queries = 0, last_query_done = 0,
     auto_restart = False, reuse_instance = True \<rparr>)], next_app_sn := 1\<rparr>"
  by (simp add: demo_deployed_def register_app_def put_app_def worker_new_def hash_insert_def Let_def)

lemma demo_worker_apps:
  "apps demo_worker = [([1], \<lparr> app_sn = 0, app_session = [9], manifest = demo_manifest,
     hist_metrics = metrics_default, instances = [(0, \<lparr> sequence_number = 0, vm_handle = 0 \<rparr>)],
     on_going_queries = 0, last_query_done = 0, auto_restart = False, reuse_instance = True \<rparr>)]"
  by (simp add: demo_worker_def demo_deployed_apps resize_app_instances_def start_app_def put_app_def
      hash_insert_def available_slots_def running_instances_def worker_new_def demo_args_def
      demo_manifest_def Let_def)

lemma demo_deployed_reachable:
  "(worker_step demo_naming (\<lambda>_. 100) (\<lambda>_. [1]))\<^sup>*\<^sup>* (worker_new demo_args, []) (demo_deployed, [])"
proof (rule r_into_rtranclp [of "worker_step demo_naming (\<lambda>_. 100) (\<lambda>_. [1])"])
  show "worker_step demo_naming (\<lambda>_. 100) (\<lambda>_. [1]) (worker_new demo_args, []) (demo_deployed, [])"
    unfolding demo_deployed_def
    by (rule worker_step.registers [where gen = "\<lambda>_. [1]" and m = demo_manifest, simplified])
      (simp add: check_manifest_def demo_manifest_def MAX_MANIFEST_SIZE_def)
qed

lemma demo_worker_reachable:
  "(worker_step demo_naming (\<lambda>_. 100) (\<lambda>_. [1]))\<^sup>*\<^sup>* (worker_new demo_args, []) (demo_worker, [])"
proof -
  have "worker_step demo_naming (\<lambda>_. 100) (\<lambda>_. [1]) (demo_deployed, []) (demo_worker, [])"
    unfolding demo_worker_def by (rule worker_step.resizes)
  with demo_deployed_reachable show ?thesis by (rule rtranclp.rtrancl_into_rtrancl)
qed

text \<open>
  C1: the worker implements the slot manager: every reachable state, over all interleavings of
  deployments, resizes, on-demand starts, evictions, queries, endings of instances and removals, is one
  that the abstract slot manager with the configured number of slots can be in, reached by its
  own steps.
\<close>

theorem worker_refines_slot_manager:
  assumes "(worker_step nm size_hint gen)\<^sup>*\<^sup>* (worker_new a, []) (w, gs)"
  shows "(slots_step (max_instances a))\<^sup>*\<^sup>* (\<lambda>_. None) (slot_counts w)"
proof -
  have "slot_counts (worker_new a) = (\<lambda>_. None)" by (auto simp: slot_counts_def worker_new_def)
  with worker.reachable_abs [OF refl assms] show ?thesis by simp
qed

theorem worker_refines_slot_manager_witness:
  "(slots_step 2)\<^sup>*\<^sup>* (\<lambda>_. None) (slot_counts demo_worker) \<and> slot_counts demo_worker [1] = Some 1"
  using worker_refines_slot_manager [OF demo_worker_reachable]
  by (simp add: demo_args_def) (simp add: slot_counts_def demo_worker_apps)

text \<open>
  C2: the worker never runs more instances than it has slots, whatever the order of the
  operations, the instances' ends and the iteration order of its table; every app it holds passed
  every check of deployment (version, resizing and starting on demand, length of the label, size of the manifest)
  and is stored under the address of its own manifest; and its
  instances are in the order of their numbers.
\<close>

theorem worker_within_capacity:
  assumes "(worker_step nm size_hint gen)\<^sup>*\<^sup>* (worker_new a, []) (w, gs)"
  shows "running_instances w \<le> max_instances a \<and>
    (\<forall>addr app. map_of (apps w) addr = Some app \<longrightarrow>
       version (manifest app) = 1 \<and> \<not> (resizable (manifest app) \<and> on_demand (manifest app)) \<and>
       length (label (manifest app)) \<le> 64 \<and> size_hint (manifest app) \<le> 1024 * 16 \<and> gen (manifest app) = addr \<and>
       sorted_wrt (<) (map fst (instances app)))"
proof -
  from worker.reachable_inv [OF refl assms] have inv: "worker_inv size_hint gen w" "args w = a" by simp_all
  then have "running_instances w \<le> max_instances a" by (simp add: worker_inv_def)
  moreover have "version (manifest app) = 1 \<and> \<not> (resizable (manifest app) \<and> on_demand (manifest app)) \<and>
       length (label (manifest app)) \<le> 64 \<and> size_hint (manifest app) \<le> 1024 * 16 \<and> gen (manifest app) = addr \<and>
       sorted_wrt (<) (map fst (instances app))"
    if "map_of (apps w) addr = Some app" for addr app
    using worker_inv_app [OF inv(1) that]
    by (auto simp: app_ok_def check_manifest_def MAX_MANIFEST_SIZE_def btree_inv_def split: if_splits)
  ultimately show ?thesis by blast
qed

theorem worker_within_capacity_witness:
  "running_instances demo_worker = 1 \<and> running_instances demo_worker \<le> 2"
  using worker_within_capacity [OF demo_worker_reachable]
  by (simp add: running_instances_def demo_worker_apps demo_args_def)

end
