(* ===== verification/Worker_Usage.thy ===== *)
theory Worker_Usage
  imports Worker_Properties
begin

text \<open>
  What a worker accounts for and promises to its apps: the usage of an app survives every resize and
  every end of an instance, but not the end of an on-demand query; an app that is started on demand
  gets a slot if one can be made free; the locks of an instance exclude each other.
\<close>

section \<open>Usage of an app\<close>

lemma app_metrics_of_fold:
  "app_metrics_of mt app =
   foldl metrics_merge (hist_metrics app) (map (\<lambda>e. mt (vm_handle (snd e))) (instances app))"
  by (simp add: app_metrics_of_def case_prod_beta')

text \<open>
  \<open>usage_kept mt started w w'\<close>: every app of \<open>w\<close> is still in \<open>w'\<close>, and its metrics are those it had
  together with those of the machines \<open>started\<close> for it in between.
\<close>

definition usage_kept ::
  "(nat \<Rightarrow> Metrics) \<Rightarrow> (bytes \<Rightarrow> nat list) \<Rightarrow> WorkerState \<Rightarrow> WorkerState \<Rightarrow> bool" where
  "usage_kept mt started w w' \<longleftrightarrow>
     (\<forall>b app. map_of (apps w) b = Some app \<longrightarrow>
        (\<exists>app'. map_of (apps w') b = Some app' \<and>
           app_metrics_of mt app' = foldl metrics_merge (app_metrics_of mt app) (map mt (started b))))"

definition started_for :: "bytes \<Rightarrow> WorkerState \<Rightarrow> WorkerState \<Rightarrow> bytes \<Rightarrow> nat list" where
  "started_for c w w' b = (if b = c then [length (vms w)..<length (vms w')] else [])"

lemma usage_kept_put:
  assumes "map_of (apps w) a = Some app" "app_metrics_of mt app' = app_metrics_of mt app"
  shows "usage_kept mt (\<lambda>_. []) w (put_app a app' w)"
  using assms by (auto simp: usage_kept_def)

lemma usage_kept_trans:
  assumes "usage_kept mt (started_for c u v) u v" "usage_kept mt (started_for c v w) v w"
    and "length (vms u) \<le> length (vms v)" "length (vms v) \<le> length (vms w)"
  shows "usage_kept mt (started_for c u w) u w"
proof -
  obtain d where "length (vms w) = length (vms v) + d" using assms(4) le_Suc_ex by blast
  then have app: "started_for c u w b = started_for c u v b @ started_for c v w b" for b
    using upt_add_eq_append [OF assms(3), of d] by (simp add: started_for_def)
  show ?thesis
    unfolding usage_kept_def app
  proof (intro allI impI)
    fix b app
    assume "map_of (apps u) b = Some app"
    with assms(1) obtain app1 where v: "map_of (apps v) b = Some app1"
      "app_metrics_of mt app1 = foldl metrics_merge (app_metrics_of mt app) (map mt (started_for c u v b))"
      unfolding usage_kept_def by blast
    with assms(2) obtain app2 where "map_of (apps w) b = Some app2"
      "app_metrics_of mt app2 = foldl metrics_merge (app_metrics_of mt app1) (map mt (started_for c v w b))"
      unfolding usage_kept_def by blast
    with v show "\<exists>app'. map_of (apps w) b = Some app' \<and> app_metrics_of mt app' =
        foldl metrics_merge (app_metrics_of mt app) (map mt (started_for c u v b @ started_for c v w b))"
      by simp
  qed
qed

lemma stop_last_metrics:
  assumes "stop_last mt app = Some (h, app')"
  shows "app_metrics_of mt app' = app_metrics_of mt app"
proof -
  from stop_last_Some [OF assms] have ne: "instances app \<noteq> []" and h: "h = vm_handle (snd (last (instances app)))"
    and app': "app' = app\<lparr>instances := butlast (instances app), hist_metrics := metrics_merge (hist_metrics app) (mt h)\<rparr>"
    by simp_all
  let ?f = "\<lambda>e. mt (vm_handle (snd e))"
  have "map ?f (instances app) = map ?f (butlast (instances app)) @ [mt h]"
    using arg_cong [OF append_butlast_last_id [OF ne], of "map ?f"] by (simp add: h)
  then have "app_metrics_of mt app =
      metrics_merge (foldl metrics_merge (hist_metrics app) (map ?f (butlast (instances app)))) (mt h)"
    by (simp add: app_metrics_of_fold)
  also have "\<dots> = app_metrics_of mt app'"
    by (simp add: app_metrics_of_fold app' metrics_fold_shift) (rule metrics.commute)
  finally show ?thesis ..
qed

lemma of_nat_u64_less: "m < n \<Longrightarrow> n < 2 ^ 64 \<Longrightarrow> (of_nat m :: u64) < of_nat n"
  by (simp add: word_less_nat_alt unsigned_of_nat take_bit_nat_eq_self)

lemma start_metrics:
  assumes "start_app nm c t w = (Ok info, w')" "worker_inv size_hint gen w" "length (vms w) < 2 ^ 64"
  shows "usage_kept mt (started_for c w w') w w' \<and> length (vms w') = Suc (length (vms w))"
proof -
  obtain sn vm where "info = (sn, vm)" by (cases info)
  with assms(1) obtain app cfg where app: "map_of (apps w) c = Some app"
    and sn: "sn = next_run_sn w" and vm: "vm = length (vms w)"
    and w': "w' = (put_app c (app\<lparr>instances := btree_insert sn \<lparr> sequence_number = sn, vm_handle = vm \<rparr> (instances app)\<rparr>) w)
       \<lparr>vms := vms w @ [cfg], next_run_sn := sn + 1, cleanups := cleanups w @ [(c, sn, vm)]\<rparr>"
    by (auto elim!: start_app_Ok)
  let ?i = "\<lparr> sequence_number = sn, vm_handle = vm \<rparr>"
  have "\<forall>x \<in> fst ` set (instances app). x < sn"
  proof
    fix x
    assume "x \<in> fst ` set (instances app)"
    then obtain i where "(x, i) \<in> set (instances app)" by auto
    with worker_inv_app [OF assms(2) app] have "x = of_nat (vm_handle i)" "vm_handle i < length (vms w)"
      by (auto simp: numbered_def)
    with assms(2,3) of_nat_u64_less show "x < sn" by (simp add: sn worker_inv_def)
  qed
  then have ins: "btree_insert sn ?i (instances app) = instances app @ [(sn, ?i)]" by (rule btree_insert_last)
  have "app_metrics_of mt (app\<lparr>instances := btree_insert sn ?i (instances app)\<rparr>) =
      metrics_merge (app_metrics_of mt app) (mt vm)"
    by (simp add: app_metrics_of_fold ins)
  then show ?thesis
    by (auto simp: usage_kept_def started_for_def w' vm app)
qed

lemma micro_usage:
  assumes "slot_micro nm mt c w w'" "worker_inv size_hint gen w" "length (vms w') \<le> 2 ^ 64"
  shows "usage_kept mt (started_for c w w') w w' \<and> length (vms w) \<le> length (vms w')"
  using assms
proof (cases rule: slot_micro.cases)
  case (start_one t info)
  obtain sn vm where "info = (sn, vm)" by (cases info)
  with start_one(1) have "length (vms w') = Suc (length (vms w))" by (auto elim!: start_app_Ok)
  with start_metrics [OF start_one(1) assms(2)] assms(3) show ?thesis by simp
next
  case (stop_one a app h app')
  have "started_for c w (put_app a app' w) = (\<lambda>_. [])" by (auto simp: started_for_def)
  with usage_kept_put [OF stop_one(2) stop_last_metrics [OF stop_one(3)]] show ?thesis
    unfolding stop_one(1) by simp
qed

lemma micro_vms: "slot_micro nm mt c w w' \<Longrightarrow> length (vms w) \<le> length (vms w')"
  by (induction rule: slot_micro.induct) (auto simp: start_app_def Let_def split: option.splits if_splits)

lemma micros_vms: "(slot_micro nm mt c)\<^sup>*\<^sup>* w w' \<Longrightarrow> length (vms w) \<le> length (vms w')"
  by (induction rule: rtranclp_induct) (auto dest: micro_vms)

lemma micros_usage:
  assumes "(slot_micro nm mt c)\<^sup>*\<^sup>* w w'" "worker_inv size_hint gen w" "length (vms w') \<le> 2 ^ 64"
  shows "usage_kept mt (started_for c w w') w w'"
  using assms
proof (induction rule: rtranclp_induct)
  case base
  show ?case by (simp add: usage_kept_def started_for_def)
next
  case (step u v)
  have le: "length (vms u) \<le> length (vms v)" using micro_vms [OF step(2)] .
  have inv: "worker_inv size_hint gen u" using micros_inv [OF step(1)] step.prems(1) .
  have "usage_kept mt (started_for c w u) w u" using step.IH step.prems le by simp
  moreover have "usage_kept mt (started_for c u v) u v" using micro_usage [OF step(2) inv step.prems(2)] by simp
  ultimately show ?case using micros_vms [OF step(1)] le by (rule usage_kept_trans)
qed

lemma metrics_fold_removed:
  assumes "distinct (map fst m)" "map_of m k = Some v"
  shows "foldl metrics_merge (metrics_merge h (f (k, v))) (map f (btree_remove k m)) = foldl metrics_merge h (map f m)"
proof -
  have "mset m = add_mset (k, v) (mset (btree_remove k m))"
    using assms
  proof (induction m)
    case (Cons e m)
    obtain k' v' where e: "e = (k', v')" by (cases e)
    show ?case
    proof (cases "k' = k")
      case True
      with Cons.prems(1) have "k \<notin> fst ` set m" by (simp add: e)
      then have "btree_remove k m = m" unfolding btree_remove_def by (intro filter_True) force
      with True Cons.prems(2) show ?thesis by (simp add: e btree_remove_def)
    next
      case False
      with Cons show ?thesis by (simp add: e btree_remove_def)
    qed
  qed simp
  then have "mset (map f m) = mset (f (k, v) # map f (btree_remove k m))" by simp
  from metrics_fold_perm [OF this, of h] show ?thesis by simp
qed

lemma instance_ended_usage:
  assumes "worker_inv size_hint gen w"
  shows "usage_kept mt (\<lambda>_. []) w (instance_ended mt a sn w)"
proof (cases "map_of (apps w) a")
  case None
  then show ?thesis by (simp add: instance_ended_def usage_kept_def)
next
  case (Some app)
  show ?thesis
  proof (cases "map_of (instances app) sn")
    case None
    with Some show ?thesis by (simp add: instance_ended_def usage_kept_def)
  next
    case inst: (Some i)
    have "distinct (map fst (instances app))"
      using worker_inv_app [OF assms Some] btree_distinct by (auto simp: app_ok_def)
    from metrics_fold_removed [OF this inst, of "hist_metrics app" "\<lambda>e. mt (vm_handle (snd e))"]
    have "app_metrics_of mt (app\<lparr>instances := btree_remove sn (instances app),
        hist_metrics := metrics_add_assign (hist_metrics app) (mt (vm_handle i))\<rparr>) = app_metrics_of mt app"
      by (simp add: app_metrics_of_fold)
    from usage_kept_put [OF Some this] Some inst show ?thesis by (simp add: instance_ended_def)
  qed
qed

text \<open>
  C3: usage is conserved: in every reachable state, while the counter of runs has not wrapped, a
  resize, which may stop instances of the app, start new ones and evict an instance of
  another app, leaves every app's metrics, read off the same meters, as they were, plus those of
  the machines started for the app itself; and so does the end of an instance, whichever app it
  belongs to and whether or not that app has been resized meanwhile.
\<close>

theorem usage_conserved:
  assumes "(worker_step nm size_hint gen)\<^sup>*\<^sup>* (worker_new a, []) (w, gs)"
    and "resize_app_instances nm mt addr n t w = (r, w')" "length (vms w') \<le> 2 ^ 64"
  shows "usage_kept mt (\<lambda>b. if b = addr then [length (vms w)..<length (vms w')] else []) w w' \<and>
    usage_kept mt (\<lambda>_. []) w (instance_ended mt addr sn w)"
proof -
  from worker.reachable_inv [OF refl assms(1)] have inv: "worker_inv size_hint gen w" by simp
  from resize_micro [OF worker_inv_hash [OF inv], of nm mt addr n t] assms(2)
  have "(slot_micro nm mt addr)\<^sup>*\<^sup>* w w'" by simp
  from micros_usage [OF this inv assms(3)]
  have "usage_kept mt (\<lambda>b. if b = addr then [length (vms w)..<length (vms w')] else []) w w'"
    unfolding started_for_def [abs_def] .
  with instance_ended_usage [OF inv] show ?thesis by simp
qed

theorem usage_conserved_witness:
  "\<exists>r w'. resize_app_instances demo_naming (\<lambda>_. metrics_default) [1] 0 None demo_worker = (r, w') \<and>
     usage_kept (\<lambda>_. metrics_default) (\<lambda>_. []) demo_worker w'"
proof -
  obtain r w' where
    e: "resize_app_instances demo_naming (\<lambda>_. metrics_default) [1] 0 None demo_worker = (r, w')" by fastforce
  then have "vms w' = vms demo_worker"
    by (auto simp: resize_app_instances_def demo_worker_apps stop_last_def btree_pop_last_def Let_def)
  moreover have "length (vms demo_worker) \<le> 1"
    by (simp add: demo_worker_def demo_deployed_apps resize_app_instances_def start_app_def put_app_def
      hash_insert_def available_slots_def running_instances_def worker_new_def demo_args_def
      demo_manifest_def Let_def)
  ultimately have l: "length (vms w') \<le> 2 ^ 64" and
    z: "(\<lambda>b. if b = [1] then [length (vms demo_worker)..<length (vms w')] else []) = (\<lambda>_. [])" by auto
  from usage_conserved [OF demo_worker_reachable e l, of 0] e show ?thesis unfolding z by blast
qed

section \<open>Queries\<close>

text \<open>
  C29: the usage of on-demand instances is lost: when the last query of an on-demand app ends,
  its instances are dropped without their metrics being added to the app's history, and the
  cleanup of those instances no longer finds them, so the metrics of the app fall back to what
  they were before the instances were started.
\<close>

theorem query_end_loses_usage:
  assumes "map_of (apps w) a = Some app" "on_demand (manifest app)" "on_going_queries app = 1"
    and "end_query now a None w = (r, w')"
  shows "r = Ok () \<and> (\<exists>app'. map_of (apps w') a = Some app' \<and> app_metrics_of mt app' = hist_metrics app) \<and>
    instance_ended mt a sn w' = w'"
  using assms
  by (auto simp: end_query_def on_going_query_dec_def Let_def app_metrics_of_fold instance_ended_def)

definition demo_on_demand :: WorkerState where
  "demo_on_demand = (worker_new demo_args)\<lparr>apps := [([1], \<lparr> app_sn = 0, app_session = [9],
     manifest = demo_manifest\<lparr>on_demand := True, resizable := False\<rparr>, hist_metrics = metrics_default,
     instances = [(0, \<lparr> sequence_number = 0, vm_handle = 0 \<rparr>)], on_going_queries = 1, last_query_done = 0,
     auto_restart = False, reuse_instance = True \<rparr>)]\<rparr>"

theorem query_end_loses_usage_witness:
  "\<exists>app app' w'. map_of (apps demo_on_demand) [1] = Some app \<and>
     m_starts (app_metrics_of (\<lambda>_. metrics_default\<lparr>m_starts := 1\<rparr>) app) = 1 \<and>
     snd (end_query 5 [1] None demo_on_demand) = w' \<and> map_of (apps w') [1] = Some app' \<and>
     m_starts (app_metrics_of (\<lambda>_. metrics_default\<lparr>m_starts := 1\<rparr>) app') = 0"
proof -
  obtain app where app: "map_of (apps demo_on_demand) [1] = Some app" "on_demand (manifest app)"
    "on_going_queries app = 1" "hist_metrics app = metrics_default"
    "instances app = [(0, \<lparr> sequence_number = 0, vm_handle = 0 \<rparr>)]"
    by (simp add: demo_on_demand_def)
  obtain r w' where e: "end_query 5 [1] None demo_on_demand = (r, w')" by fastforce
  from query_end_loses_usage [OF app(1-3) e] app(4) obtain app' where
    "map_of (apps w') [1] = Some app'"
    "app_metrics_of (\<lambda>_. metrics_default\<lparr>m_starts := 1\<rparr>) app' = metrics_default" by metis
  moreover have "m_starts (app_metrics_of (\<lambda>_. metrics_default\<lparr>m_starts := 1\<rparr>) app) = 1"
    using app(4,5) by (simp add: app_metrics_of_fold metrics_merge_def metrics_default_def)
  ultimately show ?thesis using app(1) e by (auto simp: metrics_default_def)
qed

section \<open>On-demand starts\<close>

lemma evict_resizable_Some:
  "map_of as b = Some app \<Longrightarrow> resizable (manifest app) \<Longrightarrow> instances app \<noteq> [] \<Longrightarrow>
   \<exists>p. evict_resizable mt as = Some p"
proof (induction as)
  case (Cons e as)
  obtain a app0 where e: "e = (a, app0)" by (cases e)
  show ?case
  proof (cases "a = b")
    case True
    with Cons.prems e have "stop_last mt app \<noteq> None" "app0 = app" by (auto simp: stop_last_None)
    with Cons.prems e show ?thesis by (auto split: prod.splits)
  next
    case False
    with Cons e obtain p where "evict_resizable mt as = Some p" by auto
    then show ?thesis by (cases p) (auto simp: e split: option.splits prod.splits)
  qed
qed simp

lemma reserve_makes_room:
  assumes inv: "worker_inv size_hint gen w" and app: "map_of (apps w) addr = Some app" "instances app = []"
    and room: "0 < available_slots w \<or>
      (\<exists>b app'. map_of (apps w) b = Some app' \<and> resizable (manifest app') \<and> instances app' \<noteq> [])"
  shows "\<exists>reserved w1. reserve_slot_if_needed mt addr w = (Ok reserved, w1) \<and>
    map_of (apps w1) addr = Some app \<and> 0 < available_slots w1 \<and>
    (reserved = None \<longleftrightarrow> 0 < available_slots w)"
proof (cases "0 < available_slots w")
  case True
  with app show ?thesis by (simp add: reserve_slot_if_needed_def)
next
  case False
  with room obtain b app' p where "map_of (apps w) b = Some app'" "evict_resizable mt (apps w) = Some p"
    using evict_resizable_Some by blast
  then obtain h as' where ev: "evict_resizable mt (apps w) = Some (h, as')" by (cases p) auto
  from worker_inv_hash [OF inv] ev obtain c appc app1 where c: "map_of (apps w) c = Some appc"
    "stop_last mt appc = Some (h, app1)" "as' = hash_insert c app1 (apps w)"
    by (rule evict_resizable_put)
  let ?w1 = "put_app c app1 w"
  from stop_last_Some [OF c(2)] have ne: "instances appc \<noteq> []"
    and l: "length (instances app1) < length (instances appc)" by simp_all
  have "running_instances ?w1 < running_instances w"
    using running_put_app [OF worker_inv_hash [OF inv], of c app1] c(1) l by (simp add: slot_counts_def)
  moreover have "running_instances w \<le> max_instances (args w)" using inv by (simp add: worker_inv_def)
  ultimately have "0 < available_slots ?w1" by (simp add: available_slots_def)
  moreover have "map_of (apps ?w1) addr = Some app" using app c(1) ne by auto
  ultimately show ?thesis
    using False app ev c(3) by (simp add: reserve_slot_if_needed_def put_app_def)
qed

text \<open>
  C4: an app that is started on demand gets its instance: in every reachable state, if the app has
  none running and a slot is free, or some resizable app has an instance that can be evicted, then
  the resize to one instance starts exactly one, after which the app has exactly one; an
  instance is evicted only when no slot was free, and then exactly one.
\<close>

theorem on_demand_start_succeeds:
  assumes "(worker_step nm size_hint gen)\<^sup>*\<^sup>* (worker_new a, []) (w, gs)"
    and "map_of (apps w) addr = Some app" "instances app = []"
    and "0 < available_slots w \<or>
      (\<exists>b app'. map_of (apps w) b = Some app' \<and> resizable (manifest app') \<and> instances app' \<noteq> [])"
  shows "\<exists>info removed w'. resize_app_instances nm mt addr 1 (Some t) w = (Ok ([info], removed), w') \<and>
    num_instances_of addr w' = Some 1 \<and> length removed = (if 0 < available_slots w then 0 else 1)"
proof -
  from worker.reachable_inv [OF refl assms(1)] have inv: "worker_inv size_hint gen w" by simp
  from reserve_makes_room [OF inv assms(2-4)] obtain reserved w1 where
    res: "reserve_slot_if_needed mt addr w = (Ok reserved, w1)" and app: "map_of (apps w1) addr = Some app"
    and av: "0 < available_slots w1" and rem: "reserved = None \<longleftrightarrow> 0 < available_slots w" by metis
  have "min (available_slots w1) 1 = Suc 0" using av by simp
  then show ?thesis
    using res app assms(3) rem
    by (auto simp: resize_app_instances_def start_app_def Let_def num_instances_of_def split: option.splits)
qed

theorem on_demand_start_succeeds_witness:
  "\<exists>info removed w'. resize_app_instances demo_naming (\<lambda>_. metrics_default) [1] 1 (Some 60) demo_deployed =
     (Ok ([info], removed), w') \<and> num_instances_of [1] w' = Some 1"
proof -
  obtain app where app: "map_of (apps demo_deployed) [1] = Some app" "instances app = []"
    by (simp add: demo_deployed_apps)
  have "0 < available_slots demo_deployed"
    by (simp add: demo_deployed_apps available_slots_def running_instances_def worker_new_def demo_args_def)
  from on_demand_start_succeeds [OF demo_deployed_reachable app, of "\<lambda>_. metrics_default" 60] this
  show ?thesis by blast
qed

section \<open>Locks\<close>

datatype lock_op = TryLock string | Unlock string

fun lock_run :: "lock_op list \<Rightarrow> AppRuntimeCalls \<Rightarrow> bool list \<times> AppRuntimeCalls" where
  "lock_run [] c = ([], c)"
| "lock_run (op # ops) c =
     (let (r, c1) = (case op of TryLock p \<Rightarrow> try_lock p c | Unlock p \<Rightarrow> unlock p c);
          (rs, c2) = lock_run ops c1
      in (r # rs, c2))"

lemma lock_run_Cons:
  "snd (lock_run (op # ops) c) =
   snd (lock_run ops (snd (case op of TryLock p \<Rightarrow> try_lock p c | Unlock p \<Rightarrow> unlock p c)))"
  by (simp add: Let_def split: prod.splits)

lemma try_lock_refused: "p \<in> set (locks (shared c)) \<Longrightarrow> \<not> fst (try_lock p c)"
  by (simp add: try_lock_def Let_def)

definition locks_ok :: "AppRuntimeCalls \<Rightarrow> bool" where
  "locks_ok c \<longleftrightarrow> distinct (locks (shared c)) \<and> length (locks (shared c)) \<le> 65 \<and>
     list_all (\<lambda>p. length p \<le> 64) (locks (shared c))"

lemma try_lock_ok: "locks_ok c \<Longrightarrow> locks_ok (snd (try_lock p c))"
  by (auto simp: locks_ok_def try_lock_def Let_def)

lemma unlock_ok: "locks_ok c \<Longrightarrow> locks_ok (snd (unlock p c))"
proof -
  assume "locks_ok c"
  moreover have "length (filter (\<lambda>l. l \<noteq> p) (locks (shared c))) \<le> length (locks (shared c))" by simp
  ultimately show ?thesis by (auto simp: locks_ok_def unlock_def list_all_iff simp del: length_filter_le)
qed

lemma lock_run_ok: "locks_ok c \<Longrightarrow> locks_ok (snd (lock_run ops c))"
proof (induction ops arbitrary: c)
  case (Cons op ops)
  have "locks_ok (snd (case op of TryLock p \<Rightarrow> try_lock p c | Unlock p \<Rightarrow> unlock p c))"
    using Cons.prems try_lock_ok unlock_ok by (cases op) simp_all
  with Cons.IH show ?case unfolding lock_run_Cons by blast
qed simp

lemma lock_stays_held:
  "p \<in> set (locks (shared c)) \<Longrightarrow> Unlock p \<notin> set ops \<Longrightarrow> p \<in> set (locks (shared (snd (lock_run ops c))))"
proof (induction ops arbitrary: c)
  case (Cons op ops)
  have "p \<in> set (locks (shared (snd (case op of TryLock q \<Rightarrow> try_lock q c | Unlock q \<Rightarrow> unlock q c))))"
    using Cons.prems by (cases op) (auto simp: try_lock_def unlock_def Let_def)
  with Cons show ?case unfolding lock_run_Cons by simp
qed simp

lemma try_lock_held: "fst (try_lock p c) \<Longrightarrow> p \<in> set (locks (shared (snd (try_lock p c))))"
  by (auto simp: try_lock_def Let_def split: if_splits)

text \<open>
  The locks of an instance exclude each other: once a lock has been taken it cannot be taken
  again until it is unlocked, whatever other locks are taken and released in between; and over
  every sequence of calls at most 65 distinct locks are held, each with a name of at most 64 bytes.
\<close>

lemma locks_exclusive:
  assumes "locks (shared c) = []" "fst (try_lock p (snd (lock_run before c)))" "Unlock p \<notin> set between"
  shows "\<not> fst (try_lock p (snd (lock_run between (snd (try_lock p (snd (lock_run before c))))))) \<and>
    locks_ok (snd (lock_run before c))"
proof -
  from lock_stays_held [OF try_lock_held [OF assms(2)] assms(3)]
  have "\<not> fst (try_lock p (snd (lock_run between (snd (try_lock p (snd (lock_run before c)))))))"
    by (rule try_lock_refused)
  moreover have "locks_ok c" using assms(1) by (simp add: locks_ok_def)
  ultimately show ?thesis using lock_run_ok by blast
qed

end
