(* ===== verification/Module_Loader.thy ===== *)
theory Module_Loader
  imports Rust_Collections Transition_Systems "HOL-Library.Multiset"
begin

text \<open>
  Loading and compiling modules (\<open>wapo-host/src/module_loader.rs\<close>): requests share one compilation per
  code hash, wait in a bounded ordered queue and are served by at most two compiler threads. The
  sections of the code under the lock are functions on the shared state; the threads and the waiting
  requests are part of the state, so that every interleaving is a sequence of steps. The
  compiler and the cache's eviction are given; a code hash is any linearly ordered type.
\<close>

section \<open>State\<close>

datatype loader_error = QueueFull | BlobFailed | CodeNotFound | CompileFailed | Disconnected

text \<open>
  \<open>compiling\<close> maps a hash to the requests subscribed to its result; \<open>threads\<close> has one entry per live
  compiler thread, the hash it compiles or \<open>None\<close> between two; \<open>answers\<close> records what each request
  received. The cache is a map that may forget any entry when one is added.
\<close>

record ('k, 'm) Loader =
  max_compilation_tasks :: nat
  queue_cap :: nat
  cache :: "'k \<rightharpoonup> 'm"
  compiling :: "('k, nat list) btree"
  compiling_tasks :: nat
  queue :: "('k, unit) btree"
  threads :: "'k option list"
  answers :: "(nat \<times> ('m, loader_error) result) list"

definition loader_new :: "('k, 'm) Loader" where
  "loader_new =
     \<lparr> max_compilation_tasks = 2, queue_cap = 128, cache = Map.empty, compiling = [],
       compiling_tasks = 0, queue = [], threads = [], answers = [] \<rparr>"

record LoaderInfo =
  li_max_compilation_tasks :: nat
  li_queue_cap :: nat
  li_queue_used :: nat
  li_cache_used :: nat
  li_compiling_handles_len :: nat
  li_compiling_tasks :: nat

definition loader_info :: "('k, 'm) Loader \<Rightarrow> LoaderInfo" where
  "loader_info s =
     \<lparr> li_max_compilation_tasks = max_compilation_tasks s, li_queue_cap = queue_cap s,
       li_queue_used = length (queue s), li_cache_used = card (dom (cache s)),
       li_compiling_handles_len = length (compiling s), li_compiling_tasks = compiling_tasks s \<rparr>"

section \<open>Operations\<close>

text \<open>
  The first part of \<open>load_module\<close>, under the lock, for request number \<open>req\<close>: answered from the
  cache, refused, or subscribed to a running or new compilation. A new thread may be needed.
\<close>

definition load_module :: "nat \<Rightarrow> 'k::linorder \<Rightarrow> ('k, 'm) Loader \<Rightarrow> ('k, 'm) Loader" where
  "load_module req code_hash s =
     (case cache s code_hash of
        Some m \<Rightarrow> s\<lparr>answers := answers s @ [(req, Ok m)]\<rparr>
      | None \<Rightarrow>
          (case map_of (compiling s) code_hash of
             Some subs \<Rightarrow> s\<lparr>compiling := btree_insert code_hash (subs @ [req]) (compiling s)\<rparr>
           | None \<Rightarrow>
               (if length (queue s) \<ge> queue_cap s
                then s\<lparr>answers := answers s @ [(req, Err QueueFull)]\<rparr>
                else
                  (let s1 = s\<lparr>queue := btree_insert code_hash () (queue s),
                              compiling := btree_insert code_hash [req] (compiling s)\<rparr>
                   in if compiling_tasks s1 < max_compilation_tasks s1
                      then s1\<lparr>compiling_tasks := compiling_tasks s1 + 1, threads := threads s1 @ [None]\<rparr>
                      else s1))))"

text \<open>\<open>compile\<close>: the blob is fetched and compiled, outside the lock.\<close>

definition loader_compile ::
  "('k \<Rightarrow> (bytes option, 'e) result) \<Rightarrow> (bytes \<Rightarrow> 'm option) \<Rightarrow> 'k \<Rightarrow> ('m, loader_error) result" where
  "loader_compile blob_get engine_compile code_hash =
     (case blob_get code_hash of
        Err _ \<Rightarrow> Err BlobFailed
      | Ok None \<Rightarrow> Err CodeNotFound
      | Ok (Some code) \<Rightarrow> ok_or (engine_compile code) CompileFailed)"

text \<open>
  The two sections of \<open>serve_compilation\<close> under the lock, for thread \<open>t\<close>: taking the next hash or
  exiting, and publishing a result. \<open>evicted\<close> are the cache entries that make room.
\<close>

definition serve_next :: "nat \<Rightarrow> ('k, 'm) Loader \<Rightarrow> ('k, 'm) Loader" where
  "serve_next t s =
     (case btree_pop_first (queue s) of
        None \<Rightarrow>
          s\<lparr>compiling_tasks := compiling_tasks s - 1,
            threads := take t (threads s) @ drop (t + 1) (threads s)\<rparr>
      | Some ((code_hash, _), q) \<Rightarrow> s\<lparr>queue := q, threads := (threads s)[t := Some code_hash]\<rparr>)"

definition serve_publish ::
  "nat \<Rightarrow> 'k::linorder \<Rightarrow> ('m, loader_error) result \<Rightarrow> 'k set \<Rightarrow> ('k, 'm) Loader \<Rightarrow> ('k, 'm) Loader" where
  "serve_publish t code_hash module evicted s =
     (let s0 = s\<lparr>threads := (threads s)[t := None]\<rparr>
      in case map_of (compiling s0) code_hash of
           None \<Rightarrow> s0
         | Some subs \<Rightarrow>
             (let s1 = s0\<lparr>compiling := btree_remove code_hash (compiling s0)\<rparr>;
                  s2 = (case module of
                          Ok m \<Rightarrow> s1\<lparr>cache := (cache s1 |` (- evicted))(code_hash \<mapsto> m)\<rparr>
                        | Err _ \<Rightarrow> s1)
              in s2\<lparr>answers := answers s2 @ map (\<lambda>req. (req, module)) subs\<rparr>))"

section \<open>Interleavings\<close>

text \<open>\<open>asked\<close> are the requests made so far, each with its own number.\<close>

inductive loader_step ::
  "('k::linorder \<Rightarrow> ('m, loader_error) result) \<Rightarrow> ('k, 'm) Loader \<times> nat set \<Rightarrow> ('k, 'm) Loader \<times> nat set \<Rightarrow> bool"
  for build :: "'k \<Rightarrow> ('m, loader_error) result" where
  request: "req \<notin> asked \<Longrightarrow> loader_step build (s, asked) (load_module req k s, insert req asked)"
| serve: "t < length (threads s) \<Longrightarrow> threads s ! t = None \<Longrightarrow>
    loader_step build (s, asked) (serve_next t s, asked)"
| publish: "t < length (threads s) \<Longrightarrow> threads s ! t = Some k \<Longrightarrow>
    loader_step build (s, asked) (serve_publish t k (build k) evicted s, asked)"

section \<open>Subscribers as a multiset\<close>

definition waiting :: "('k, nat list) btree \<Rightarrow> nat multiset" where
  "waiting m = mset (concat (map snd m))"

lemma waiting_insert_new:
  "map_of m k = None \<Longrightarrow> waiting (btree_insert k v m) = mset v + waiting m"
  by (induction m) (auto simp: waiting_def split: if_splits)

lemma waiting_insert_more:
  "btree_inv m \<Longrightarrow> map_of m k = Some v \<Longrightarrow>
   waiting (btree_insert k (v @ w) m) = mset w + waiting m"
proof (induction m)
  case (Cons e m)
  obtain k' v' where e: "e = (k', v')" by (cases e)
  have m: "btree_inv m" and low: "\<forall>x \<in> fst ` set m. k' < x"
    using Cons.prems(1) by (auto simp: btree_inv_def e)
  show ?case
  proof (cases "k = k'")
    case False
    with Cons.prems(2) have "map_of m k = Some v" by (simp add: e)
    moreover from this have "k' < k" using low by (metis map_of_SomeD fst_conv image_eqI)
    ultimately show ?thesis using Cons.IH [OF m] by (auto simp: e waiting_def)
  qed (use Cons.prems in \<open>auto simp: e waiting_def\<close>)
qed simp

lemma waiting_remove:
  "distinct (map fst m) \<Longrightarrow> map_of m k = Some v \<Longrightarrow>
   waiting m = mset v + waiting (btree_remove k m)"
proof (induction m)
  case (Cons e m)
  obtain k' v' where e: "e = (k', v')" by (cases e)
  show ?case
  proof (cases "k = k'")
    case True
    with Cons.prems(1) have "btree_remove k m = m"
      by (force simp: e btree_remove_def filter_id_conv)
    with Cons.prems(2) True show ?thesis by (simp add: e waiting_def btree_remove_def)
  qed (use Cons in \<open>simp add: e waiting_def btree_remove_def\<close>)
qed simp

lemma keys_remove: "fst ` set (btree_remove k m) = fst ` set m - {k}"
  by (auto simp: btree_remove_def)

section \<open>The invariant\<close>

definition in_progress :: "('k, 'm) Loader \<Rightarrow> 'k set" where
  "in_progress s = {k. Some k \<in> set (threads s)}"

definition threads_ok :: "('k::linorder, 'm) Loader \<Rightarrow> bool" where
  "threads_ok s \<longleftrightarrow>
     compiling_tasks s = length (threads s) \<and> length (threads s) \<le> max_compilation_tasks s \<and>
     0 < max_compilation_tasks s \<and>
     (\<forall>k. count (mset (threads s)) (Some k) \<le> 1) \<and> (queue s \<noteq> [] \<longrightarrow> threads s \<noteq> [])"

definition queue_ok :: "('k::linorder, 'm) Loader \<Rightarrow> bool" where
  "queue_ok s \<longleftrightarrow>
     btree_inv (queue s) \<and> btree_inv (compiling s) \<and> length (queue s) \<le> queue_cap s \<and>
     fst ` set (compiling s) = fst ` set (queue s) \<union> in_progress s \<and>
     fst ` set (queue s) \<inter> in_progress s = {}"

definition requests_ok :: "('k, 'm) Loader \<times> nat set \<Rightarrow> bool" where
  "requests_ok = (\<lambda>(s, asked).
     finite asked \<and> waiting (compiling s) + mset (map fst (answers s)) = mset_set asked)"

definition loader_inv :: "('k::linorder, 'm) Loader \<times> nat set \<Rightarrow> bool" where
  "loader_inv st \<longleftrightarrow> threads_ok (fst st) \<and> queue_ok (fst st) \<and> requests_ok st"

lemma load_module_threads: "threads_ok s \<Longrightarrow> threads_ok (load_module req k s)"
  by (auto simp: threads_ok_def load_module_def Let_def split: option.splits)

lemma load_module_queue:
  assumes "queue_ok s"
  shows "queue_ok (load_module req k s)"
proof (cases "cache s k = None \<and> map_of (compiling s) k = None \<and> length (queue s) < queue_cap s")
  case True
  then have "k \<notin> fst ` set (compiling s)" by (simp add: map_of_eq_None_iff)
  with True assms length_btree_insert_le [of k "()" "queue s"] show ?thesis
    by (auto simp: queue_ok_def load_module_def Let_def in_progress_def btree_inv_insert
        fst_set_btree_insert)
next
  case False
  have "fst ` set (btree_insert k v (compiling s)) = fst ` set (compiling s)"
    if "map_of (compiling s) k = Some subs" for v subs
    using map_of_SomeD [OF that] by (force simp: fst_set_btree_insert)
  with False assms show ?thesis
    by (auto simp: queue_ok_def load_module_def in_progress_def btree_inv_insert split: option.splits)
qed

lemma load_module_requests:
  assumes "queue_ok s" "requests_ok (s, asked)" "req \<notin> asked"
  shows "requests_ok (load_module req k s, insert req asked)"
  using assms
  by (auto simp: requests_ok_def load_module_def Let_def queue_ok_def waiting_insert_new
      waiting_insert_more split: option.splits)

lemma serve_next_threads:
  assumes "threads_ok s" "t < length (threads s)" "threads s ! t = None"
    and "queue_ok s"
  shows "threads_ok (serve_next t s)"
proof (cases "queue s")
  case Nil
  have split: "mset (threads s) = add_mset None (mset (take t (threads s) @ drop (t + 1) (threads s)))"
    using id_take_nth_drop [OF assms(2)] assms(3)
    by (metis Suc_eq_plus1 mset.simps(2) mset_append union_mset_add_mset_right)
  then have "count (mset (take t (threads s) @ drop (t + 1) (threads s))) (Some k) =
      count (mset (threads s)) (Some k)" for k
    by simp
  with assms Nil show ?thesis
    by (auto simp: threads_ok_def serve_next_def btree_pop_first_def)
next
  case (Cons e q)
  obtain k where e: "e = (k, ())" by (cases e) simp
  from assms(4) Cons e have "k \<notin> in_progress s" by (auto simp: queue_ok_def)
  then have "count (mset (threads s)) (Some k) = 0" by (simp add: in_progress_def)
  with assms Cons e show ?thesis
    by (auto simp: threads_ok_def serve_next_def btree_pop_first_def mset_update)
qed

lemma in_set_upd_cases: "x \<in> set (xs[i := y]) \<Longrightarrow> (x = y \<Longrightarrow> P) \<Longrightarrow> (x \<in> set xs \<Longrightarrow> P) \<Longrightarrow> P"
  by (metis insert_iff set_update_subset_insert subsetD)

lemma set_upd_other: "i < length xs \<Longrightarrow> z \<noteq> xs ! i \<Longrightarrow> z \<in> set xs \<Longrightarrow> z \<in> set (xs[i := y])"
  by (metis in_set_conv_nth length_list_update nth_list_update_neq)

lemma serve_next_queue:
  assumes "t < length (threads s)" "threads s ! t = None" "queue_ok s"
  shows "queue_ok (serve_next t s)"
proof (cases "queue s")
  case Nil
  have "set (threads s) = {None} \<union> set (take t (threads s) @ drop (t + 1) (threads s))"
    using id_take_nth_drop [OF assms(1)] assms(2)
    by (metis Suc_eq_plus1 Un_insert_right list.simps(15) set_append sup_bot_left Un_commute insert_is_Un)
  then have "{k. Some k \<in> set (take t (threads s) @ drop (t + 1) (threads s))} = in_progress s"
    unfolding in_progress_def by auto
  with assms(3) Nil show ?thesis
    by (simp add: queue_ok_def serve_next_def btree_pop_first_def in_progress_def)
next
  case (Cons e q)
  obtain k where e: "e = (k, ())" by (cases e) simp
  have p: "in_progress (serve_next t s) = insert k (in_progress s)"
    using assms(1,2) Cons e
    by (auto simp: in_progress_def serve_next_def btree_pop_first_def set_update_memI
        set_upd_other elim!: in_set_upd_cases)
  from assms(3) Cons e have q: "btree_inv q" "k \<notin> fst ` set q"
    by (auto simp: queue_ok_def btree_inv_def)
  show ?thesis
    using assms(3) Cons e p q unfolding queue_ok_def
    by (auto simp: serve_next_def btree_pop_first_def)
qed

lemma serve_next_requests: "requests_ok (s, asked) \<Longrightarrow> requests_ok (serve_next t s, asked)"
  by (auto simp: requests_ok_def serve_next_def split: option.splits)

lemma publish_in_progress:
  assumes "threads_ok s" "t < length (threads s)" "threads s ! t = Some k"
  shows "{j. Some j \<in> set ((threads s)[t := None])} = in_progress s - {k}"
proof -
  have m: "mset ((threads s)[t := None]) = add_mset None (mset (threads s) - {#Some k#})"
    using assms(2,3) by (simp add: mset_update)
  have k: "count (mset (threads s)) (Some k) \<le> 1" using assms(1) by (simp add: threads_ok_def)
  have "Some j \<in># mset ((threads s)[t := None]) \<longleftrightarrow> j \<noteq> k \<and> Some j \<in># mset (threads s)" for j
  proof (cases "j = k")
    case True
    with k show ?thesis unfolding m by (simp add: in_diff_count)
  qed (simp add: m in_diff_count)
  then show ?thesis by (auto simp: in_progress_def)
qed

lemma publish_subscribed:
  assumes "queue_ok s" "t < length (threads s)" "threads s ! t = Some k"
  obtains subs where "map_of (compiling s) k = Some subs"
proof -
  have "Some k \<in> set (threads s)" using assms(2,3) by (metis nth_mem)
  with assms(1) have "k \<in> fst ` set (compiling s)" by (auto simp: queue_ok_def in_progress_def)
  then show thesis using that by (metis map_of_eq_None_iff not_None_eq)
qed

lemma serve_publish_inv:
  assumes "loader_inv (s, asked)" "t < length (threads s)" "threads s ! t = Some k"
  shows "loader_inv (serve_publish t k r evicted s, asked)"
proof -
  let ?s = "serve_publish t k r evicted s"
  from assms(1) have th: "threads_ok s" and qu: "queue_ok s" and rq: "requests_ok (s, asked)"
    by (simp_all add: loader_inv_def)
  obtain subs where subs: "map_of (compiling s) k = Some subs"
    using publish_subscribed [OF qu assms(2,3)] .
  have f: "threads ?s = (threads s)[t := None]" "queue ?s = queue s" "queue_cap ?s = queue_cap s"
    "compiling_tasks ?s = compiling_tasks s" "max_compilation_tasks ?s = max_compilation_tasks s"
    "compiling ?s = btree_remove k (compiling s)"
    "answers ?s = answers s @ map (\<lambda>req. (req, r)) subs"
    by (simp_all add: serve_publish_def subs Let_def split: result.split)
  have p: "in_progress ?s = in_progress s - {k}"
    using publish_in_progress [OF th assms(2,3)] by (simp add: in_progress_def f)
  have "Some k \<in> set (threads s)" using assms(2,3) by (metis nth_mem)
  then have kq: "k \<notin> fst ` set (queue s)" using qu by (auto simp: queue_ok_def in_progress_def)
  have "count (mset ((threads s)[t := None])) (Some j) \<le> count (mset (threads s)) (Some j)" for j
    using assms(2) by (simp add: mset_update)
  then have "threads_ok ?s" using th assms(2) by (auto simp: threads_ok_def f intro: le_trans)
  moreover have "queue_ok ?s"
    using qu kq p by (auto simp: queue_ok_def f keys_remove btree_inv_remove)
  moreover have "requests_ok (?s, asked)"
  proof -
    have "distinct (map fst (compiling s))" using qu btree_distinct by (auto simp: queue_ok_def)
    moreover have "map fst (map (\<lambda>req. (req, r)) subs) = subs" by (simp add: comp_def)
    ultimately show ?thesis
      using rq waiting_remove [OF _ subs]
      by (simp only: requests_ok_def f prod.case map_append mset_append ac_simps)
  qed
  ultimately show ?thesis by (simp add: loader_inv_def)
qed

lemma loader_inv_step: "loader_step build st st' \<Longrightarrow> loader_inv st \<Longrightarrow> loader_inv st'"
proof (induction rule: loader_step.induct)
  case (request req asked s k)
  then show ?case
    by (simp add: loader_inv_def load_module_threads load_module_queue load_module_requests)
next
  case (serve t s asked)
  then show ?case
    by (simp add: loader_inv_def serve_next_threads serve_next_queue serve_next_requests)
next
  case (publish t s k asked evicted)
  then show ?case by (simp add: serve_publish_inv)
qed

lemma loader_limits: "loader_step build st st' \<Longrightarrow>
   max_compilation_tasks (fst st') = max_compilation_tasks (fst st) \<and>
   queue_cap (fst st') = queue_cap (fst st)"
  by (induction rule: loader_step.induct)
    (auto simp: load_module_def serve_next_def serve_publish_def Let_def split: option.splits result.splits)

interpretation loader: invariant_system
  "\<lambda>st. st = (loader_new, {})" "loader_step build"
  "\<lambda>st. loader_inv st \<and> max_compilation_tasks (fst st) = 2 \<and> queue_cap (fst st) = 128"
  for build :: "'k::linorder \<Rightarrow> ('m, loader_error) result"
proof unfold_locales
  show "loader_inv st \<and> max_compilation_tasks (fst st) = 2 \<and> queue_cap (fst st) = 128"
    if "st = (loader_new, {})" for st :: "('k, 'm) Loader \<times> nat set"
    unfolding that by (simp add: loader_inv_def loader_new_def threads_ok_def queue_ok_def requests_ok_def
        in_progress_def waiting_def btree_inv_def)
qed (use loader_inv_step loader_limits in fastforce)

section \<open>Properties\<close>

text \<open>
  Compilation is bounded and shared: in every reachable state at most two compiler threads
  are alive, counted exactly, at most 128 modules are queued, no module is compiled by two threads
  at once or queued while it is being compiled, and a thread that finishes always finds the
  subscribers of its module.
\<close>

lemma loader_bounded:
  assumes "(loader_step build)\<^sup>*\<^sup>* (loader_new, {}) (s, asked)"
  shows "compiling_tasks s = length (threads s) \<and> length (threads s) \<le> 2 \<and> length (queue s) \<le> 128 \<and>
    (\<forall>k. count (mset (threads s)) (Some k) \<le> 1) \<and>
    (\<forall>k. Some k \<in> set (threads s) \<longrightarrow>
       k \<notin> fst ` set (queue s) \<and> map_of (compiling s) k \<noteq> None)"
proof -
  from loader.reachable_inv [OF refl assms]
  have "threads_ok s" "queue_ok s" "max_compilation_tasks s = 2" "queue_cap s = 128"
    by (simp_all add: loader_inv_def)
  then show ?thesis
    by (auto simp: threads_ok_def queue_ok_def in_progress_def map_of_eq_None_iff)
qed

definition loader_demo :: "(nat, nat) Loader" where
  "loader_demo = load_module 0 7 loader_new"

lemma loader_demo_reachable:
  "(loader_step (\<lambda>_. Err CodeNotFound))\<^sup>*\<^sup>* (loader_new, {}) (loader_demo, {0})"
  unfolding loader_demo_def using loader_step.request [of 0 "{}"] by blast

text \<open>
  C21: no request is lost: in every reachable state each request made has received exactly one
  answer or is waiting, exactly once, for a module that is queued or being compiled; and as long as a
  request waits, a compiler thread is alive to serve it.
\<close>

theorem loader_no_request_lost:
  assumes "(loader_step build)\<^sup>*\<^sup>* (loader_new, {}) (s, asked)" "req \<in> asked"
  shows "(if req \<in> fst ` set (answers s)
     then count (mset (map fst (answers s))) req = 1 \<and> req \<notin># waiting (compiling s)
     else (\<exists>k subs. map_of (compiling s) k = Some subs \<and> req \<in> set subs \<and>
            (k \<in> fst ` set (queue s) \<or> Some k \<in> set (threads s))) \<and> threads s \<noteq> [])"
proof -
  from loader.reachable_inv [OF refl assms(1)] have th: "threads_ok s" and qu: "queue_ok s"
    and rq: "waiting (compiling s) + mset (map fst (answers s)) = mset_set asked" "finite asked"
    by (simp_all add: loader_inv_def requests_ok_def)
  from rq assms(2) have "count (waiting (compiling s) + mset (map fst (answers s))) req = 1" by simp
  then have one: "count (waiting (compiling s)) req + count (mset (map fst (answers s))) req = 1" by simp
  show ?thesis
  proof (cases "req \<in> fst ` set (answers s)")
    case True
    then have "0 < count (mset (map fst (answers s))) req" by simp
    with one have "count (mset (map fst (answers s))) req = 1" "count (waiting (compiling s)) req = 0"
      by linarith+
    with True show ?thesis by (simp add: count_eq_zero_iff)
  next
    case False
    then have "count (mset (map fst (answers s))) req = 0" by (simp add: count_eq_zero_iff)
    with one have "req \<in># waiting (compiling s)" by (metis add.right_neutral count_greater_zero_iff zero_less_one)
    then obtain k subs where "(k, subs) \<in> set (compiling s)" "req \<in> set subs"
      by (auto simp: waiting_def)
    moreover from this qu have "map_of (compiling s) k = Some subs"
      by (simp add: queue_ok_def btree_lookup_mem)
    moreover from calculation(1) qu have "k \<in> fst ` set (queue s) \<or> Some k \<in> set (threads s)"
      by (force simp: queue_ok_def in_progress_def)
    moreover from this th have "threads s \<noteq> []" by (auto simp: threads_ok_def)
    ultimately show ?thesis using False by auto
  qed
qed

theorem loader_no_request_lost_witness:
  "\<exists>k subs. map_of (compiling loader_demo) k = Some subs \<and> 0 \<in> set subs"
  using loader_no_request_lost [OF loader_demo_reachable, of 0]
  by (auto simp: loader_demo_def load_module_def loader_new_def Let_def split: if_splits)

end
