(* ===== verification/Linear_Memory.thy ===== *)
theory Linear_Memory
  imports Wapo_Prelude Transition_Systems
begin

text \<open>
  The memories of the instances (\<open>wapo-host/src/linear_memory.rs\<close>): a pool of byte vectors that
  are reused from one instance to the next, or no pool, in which case every memory is allocated
  afresh. What an instance writes into its memory is arbitrary. The claims are that reuse leaks
  nothing and that the pool neither loses nor duplicates a vector.
\<close>

section \<open>Model\<close>

record MemoryPool =
  limit :: nat
  pool :: "bytes list option"

record Memory =
  mem_limit :: nat
  memory :: bytes
  mem_pooled :: bool

record MemoryType =
  is_64 :: bool
  is_shared :: bool

datatype mem_error =
    UnsupportedMemoryType | ReservedNotSupported | ReservedTooLarge | GuardNotSupported
  | OutOfMemory | LimitExceeded

text \<open>\<open>Vec::resize\<close>.\<close>

definition vec_resize :: "nat \<Rightarrow> 'a \<Rightarrow> 'a list \<Rightarrow> 'a list" where
  "vec_resize n x v = (if n \<le> length v then take n v else v @ replicate (n - length v) x)"

definition pool_new :: "nat \<Rightarrow> nat \<Rightarrow> MemoryPool" where
  "pool_new lim pool_size =
     \<lparr> limit = lim,
       pool = (if pool_size > 0 then Some (replicate pool_size (replicate lim 0)) else None) \<rparr>"

definition byte_size :: "Memory \<Rightarrow> nat" where
  "byte_size m = length (memory m)"

definition maximum_byte_size :: "Memory \<Rightarrow> nat option" where
  "maximum_byte_size m = Some (mem_limit m)"

definition grow_to :: "nat \<Rightarrow> Memory \<Rightarrow> (unit, mem_error) result \<times> Memory" where
  "grow_to new_size m =
     (if new_size > mem_limit m then (Err LimitExceeded, m)
      else (Ok (), if new_size > length (memory m)
                   then m\<lparr>memory := vec_resize new_size 0 (memory m)\<rparr> else m))"

definition new_memory ::
  "MemoryType \<Rightarrow> nat \<Rightarrow> nat option \<Rightarrow> nat option \<Rightarrow> nat \<Rightarrow> MemoryPool \<Rightarrow>
   (Memory, mem_error) result \<times> MemoryPool" where
  "new_memory ty minimum maximum reserved guard_size p =
     (if is_64 ty \<or> is_shared ty then (Err UnsupportedMemoryType, p)
      else if pool p = None \<and> reserved \<noteq> None then (Err ReservedNotSupported, p)
      else if pool p \<noteq> None \<and> case_option 0 (\<lambda>n. n) reserved > limit p then (Err ReservedTooLarge, p)
      else if guard_size \<noteq> 0 then (Err GuardNotSupported, p)
      else
        let lim = min (case_option (limit p) (\<lambda>n. n) maximum) (limit p)
        in case pool p of
             Some vs \<Rightarrow>
               (if vs = [] then (Err OutOfMemory, p)
                else let v = last vs; cleared = take 0 v
                     in (Ok \<lparr> mem_limit = lim, memory = vec_resize minimum 0 cleared, mem_pooled = True \<rparr>,
                         p\<lparr>pool := Some (butlast vs)\<rparr>))
           | None \<Rightarrow> (Ok \<lparr> mem_limit = lim, memory = replicate minimum 0, mem_pooled = False \<rparr>, p))"

definition drop_memory :: "Memory \<Rightarrow> MemoryPool \<Rightarrow> MemoryPool" where
  "drop_memory m p =
     (case pool p of
        Some vs \<Rightarrow> if mem_pooled m then p\<lparr>pool := Some (vs @ [memory m])\<rparr> else p
      | None \<Rightarrow> p)"

text \<open>
  Instances come, write, grow and go: the state is the pool and the memories that are alive, each
  with the size it was asked for.
\<close>

inductive mem_step :: "MemoryPool \<times> (Memory \<times> nat) list \<Rightarrow> MemoryPool \<times> (Memory \<times> nat) list \<Rightarrow> bool" where
  create: "new_memory ty minimum maximum reserved guard_size p = (Ok m, p') \<Longrightarrow>
    mem_step (p, ms) (p', (m, minimum) # ms)"
| guest_write: "length contents = length (memory m) \<Longrightarrow>
    mem_step (p, ms @ (m, n) # ms') (p, ms @ (m\<lparr>memory := contents\<rparr>, n) # ms')"
| grow: "mem_step (p, ms @ (m, n) # ms') (p, ms @ (snd (grow_to new_size m), n) # ms')"
| drops: "mem_step (p, ms @ (m, n) # ms') (drop_memory m p, ms @ ms')"

section \<open>Lemmas\<close>

lemma vec_resize_nil [simp]: "vec_resize n x [] = replicate n x"
  by (simp add: vec_resize_def)

lemma new_memory_Ok:
  assumes "new_memory ty minimum maximum reserved guard_size p = (Ok m, p')"
  shows "m = \<lparr> mem_limit = min (case_option (limit p) (\<lambda>n. n) maximum) (limit p),
      memory = replicate minimum 0, mem_pooled = (pool p \<noteq> None) \<rparr> \<and>
    limit p' = limit p \<and>
    (case pool p of None \<Rightarrow> p' = p
     | Some vs \<Rightarrow> vs \<noteq> [] \<and> pool p' = Some (butlast vs))"
  using assms by (auto simp: new_memory_def Let_def split: if_splits option.splits)

lemma grow_to_keeps:
  "mem_limit (snd (grow_to new_size m)) = mem_limit m" "mem_pooled (snd (grow_to new_size m)) = mem_pooled m"
  "length (memory (snd (grow_to new_size m))) \<le> max (length (memory m)) (mem_limit m)"
  by (auto simp: grow_to_def vec_resize_def)

definition mem_inv :: "nat \<Rightarrow> nat \<Rightarrow> MemoryPool \<times> (Memory \<times> nat) list \<Rightarrow> bool" where
  "mem_inv lim sz = (\<lambda>(p, ms). limit p = lim \<and>
     (case pool p of
        None \<Rightarrow> sz = 0 \<and> (\<forall>(m, n) \<in> set ms. \<not> mem_pooled m)
      | Some vs \<Rightarrow> sz > 0 \<and> length vs + length ms = sz \<and> (\<forall>(m, n) \<in> set ms. mem_pooled m)) \<and>
     (\<forall>(m, n) \<in> set ms. mem_limit m \<le> lim \<and> length (memory m) \<le> max n lim))"

lemma mem_step_inv: "mem_step s s' \<Longrightarrow> mem_inv lim sz s \<Longrightarrow> mem_inv lim sz s'"
proof (induction rule: mem_step.induct)
  case (create ty minimum maximum reserved guard_size p m p' ms)
  from new_memory_Ok [OF create(1)] create(2) show ?case
    by (cases "pool p") (auto simp: mem_inv_def split: option.splits)
next
  case (guest_write contents m p ms n ms')
  then show ?case by (auto simp: mem_inv_def split: option.splits)
next
  case (grow p ms m n ms' n')
  have "length (memory (snd (grow_to n' m))) \<le> max n lim"
    if "length (memory m) \<le> max n lim" "mem_limit m \<le> lim"
    using grow_to_keeps(3) [of n' m] that by linarith
  with grow show ?case by (auto simp: mem_inv_def grow_to_keeps split: option.splits)
next
  case (drops p ms m n ms')
  then show ?case by (auto simp: mem_inv_def drop_memory_def split: option.splits)
qed

interpretation mem_pool: invariant_system "\<lambda>s. s = (pool_new lim sz, [])" mem_step "mem_inv lim sz" for lim sz
proof unfold_locales
  show "mem_inv lim sz s" if "s = (pool_new lim sz, [])" for s
    unfolding that by (simp add: mem_inv_def pool_new_def)
qed (rule mem_step_inv)

section \<open>Properties\<close>

text \<open>
  C27: nothing leaks from one instance to the next and nothing an instance wrote is lost: whatever earlier
  instances left in the pooled vectors, a new memory is all zeros and of the size asked for; whatever
  the instance then wrote into it, growing keeps every byte, fills the rest with zeros and never passes
  the memory's limit, or fails and changes nothing. The same holds for growing any memory at any time.
\<close>

theorem memory_starts_zeroed:
  assumes "new_memory ty minimum maximum reserved guard_size p = (Ok m, p')"
  shows "memory m = replicate minimum 0 \<and> mem_limit m \<le> limit p \<and>
    (case grow_to new_size m of
       (Ok _, m') \<Rightarrow> new_size \<le> mem_limit m \<and> memory m' = replicate (max new_size minimum) 0
     | (Err _, m') \<Rightarrow> new_size > mem_limit m \<and> m' = m) \<and>
    (case grow_to new_size w of
       (Ok _, w') \<Rightarrow> new_size \<le> mem_limit w \<and> memory w' = memory w @ replicate (new_size - byte_size w) 0 \<and>
         maximum_byte_size w' = maximum_byte_size w \<and> mem_pooled w' = mem_pooled w
     | (Err _, w') \<Rightarrow> new_size > mem_limit w \<and> w' = w)"
  using new_memory_Ok [OF assms]
  by (auto simp: grow_to_def vec_resize_def byte_size_def maximum_byte_size_def max_def simp flip: replicate_add)

definition dirty_pool :: MemoryPool where
  "dirty_pool = \<lparr> limit = 4, pool = Some [[9, 9, 9, 9]] \<rparr>"

theorem memory_starts_zeroed_witness:
  "\<exists>m p'. new_memory \<lparr> is_64 = False, is_shared = False \<rparr> 2 None None 0 dirty_pool = (Ok m, p') \<and>
     memory m = [0, 0] \<and> memory (snd (grow_to 3 (m\<lparr>memory := [7, 8]\<rparr>))) = [7, 8, 0]"
proof -
  obtain m p' where
    n: "new_memory \<lparr> is_64 = False, is_shared = False \<rparr> 2 None None 0 dirty_pool = (Ok m, p')"
    by (simp add: new_memory_def dirty_pool_def Let_def)
  from memory_starts_zeroed [OF n, of 3 "m\<lparr>memory := [7, 8]\<rparr>"] new_memory_Ok [OF n]
  have "memory m = [0, 0] \<and> memory (snd (grow_to 3 (m\<lparr>memory := [7, 8]\<rparr>))) = [7, 8, 0]"
    by (auto simp: numeral_2_eq_2 dirty_pool_def byte_size_def split: prod.splits result.splits)
  with n show ?thesis by blast
qed

text \<open>
  The pool is conserved: over every sequence of creations, writes, growths and drops the
  pooled vectors and the live memories are together as many as the pool was created with, so at
  most that many instances have a memory at a time, and no memory exceeds the larger of the limit
  and the size it was created with.
\<close>

lemma memory_pool_conserved:
  assumes "mem_step\<^sup>*\<^sup>* (pool_new lim sz, []) (p, ms)" "sz > 0"
  shows "\<exists>vs. pool p = Some vs \<and> length vs + length ms = sz \<and>
    (\<forall>(m, minimum) \<in> set ms. byte_size m \<le> max minimum lim)"
  using mem_pool.reachable_inv [OF refl assms(1)] assms(2)
  by (auto simp: mem_inv_def byte_size_def split: option.splits)

end
