(* ===== verification/Sni_Listener.thy ===== *)
theory Sni_Listener
  imports Tls_Stream Meter_Metrics Rust_Collections Transition_Systems
    "HOL-Library.Char_ord" "HOL-Library.List_Lexorder"
begin

text \<open>
  The TLS listener that shares one port among the apps by server name
  (\<open>sni-tls-listener/src/listener.rs\<close>) and the agents through which instances subscribe to a
  domain (\<open>agent.rs\<close>). The listener keeps one subscriber per domain with the key its
  connections are accepted with; an agent keeps, per domain, the instances that wait for
  connections and the connections that wait for an instance, and runs a task that forwards what
  the listener delivers. Certificates, handshakes and the answers of \<open>try_send\<close> belong to
  libraries and are given; the receivers of channels are part of the state, so that every
  interleaving of agents, tasks and clients is a sequence of steps.
\<close>

section \<open>Certified keys\<close>

datatype sni_error =
    InvalidCertificate | NoKeyFound | InvalidKey | NoCryptoProvider | LoadKeyFailed
  | VerifierFailed | NoEndEntity | InvalidDnsName | CertificateRejected | KeysMismatch
  | NameNotSubscribed | NameAlreadySubscribed | NoSubscribers | NoSubscription
  | SubscriberFull | SubscriberClosed | AgentDropped

record CertifiedKey =
  ck_cert :: "bytes list"
  ck_key :: handle
  ck_ocsp :: "bytes option"

text \<open>
  What the TLS library answers: the PEM reader, the provider of signing keys if one is installed,
  the verifier with the built-in roots, names, the comparison of a key with its certificate and
  the time.
\<close>

record Rustls =
  read_certs :: "bytes \<Rightarrow> (bytes, io_error) result list"
  read_items :: "bytes \<Rightarrow> (pem_item, io_error) result list"
  key_provider :: "(private_key \<Rightarrow> (handle, io_error) result) option"
  server_verifier :: "(bytes \<Rightarrow> bytes list \<Rightarrow> handle \<Rightarrow> bytes \<Rightarrow> nat \<Rightarrow> bool) option"
  server_name_of :: "string \<Rightarrow> handle option"
  keys_match :: "CertifiedKey \<Rightarrow> bool"
  unix_now :: nat

definition wrap_certified_key ::
  "Rustls \<Rightarrow> bytes \<Rightarrow> bytes \<Rightarrow> (CertifiedKey, sni_error) result" where
  "wrap_certified_key tls cert_pem key_pem =
     and_then (or_err (collect_results (read_certs tls cert_pem)) InvalidCertificate) (\<lambda>cert.
     and_then (ok_or (case read_items tls key_pem of [] \<Rightarrow> None | x # _ \<Rightarrow> Some x) NoKeyFound) (\<lambda>item.
     and_then (or_err item InvalidKey) (\<lambda>item.
     and_then (case item of
         Pkcs1Key k \<Rightarrow> Ok (Pkcs1 k)
       | Pkcs8Key k \<Rightarrow> Ok (Pkcs8 k)
       | Sec1Key k \<Rightarrow> Ok (Sec1 k)
       | OtherItem \<Rightarrow> Err InvalidKey) (\<lambda>key.
     and_then (ok_or (key_provider tls) NoCryptoProvider) (\<lambda>load.
     and_then (or_err (load key) LoadKeyFailed) (\<lambda>key.
       Ok \<lparr> ck_cert = cert, ck_key = key, ck_ocsp = None \<rparr>))))))"

definition verify_certifacate ::
  "Rustls \<Rightarrow> CertifiedKey \<Rightarrow> string \<Rightarrow> (unit, sni_error) result" where
  "verify_certifacate tls certified_key server_name =
     and_then (ok_or (server_verifier tls) VerifierFailed) (\<lambda>verifier.
     and_then (case ck_cert certified_key of
         [] \<Rightarrow> Err NoEndEntity
       | end_entity # intermediates \<Rightarrow> Ok (end_entity, intermediates)) (\<lambda>(end_entity, intermediates).
     and_then (ok_or (server_name_of tls server_name) InvalidDnsName) (\<lambda>name.
       if \<not> verifier end_entity intermediates name
              (case ck_ocsp certified_key of Some ocsp \<Rightarrow> ocsp | None \<Rightarrow> []) (unix_now tls)
       then Err CertificateRejected
       else if \<not> keys_match tls certified_key then Err KeysMismatch
       else Ok ())))"

section \<open>The listener\<close>

text \<open>
  A connection's server name is read off its TLS session. A sender is the number of the task that
  holds the receiver.
\<close>

record Connection =
  conn_stream :: handle
  conn_server_name :: "string option"
  remote_addr :: string

record SubscribeInfo =
  si_key :: CertifiedKey
  si_tx :: nat

record SniTlsListenerState =
  sni_subscribers :: "(string, SubscribeInfo) hashmap"
  verify_flag :: bool

datatype send_outcome = Sent | SendFull | SendClosed

definition sni_bind :: "bool \<Rightarrow> SniTlsListenerState" where
  "sni_bind verify = \<lparr> sni_subscribers = [], verify_flag = verify \<rparr>"

definition check_key :: "Rustls \<Rightarrow> string \<Rightarrow> CertifiedKey \<Rightarrow> SniTlsListenerState \<Rightarrow> (unit, sni_error) result" where
  "check_key tls server_name key l =
     (if verify_flag l then verify_certifacate tls key server_name else Ok ())"

definition update_key ::
  "Rustls \<Rightarrow> string \<Rightarrow> CertifiedKey \<Rightarrow> SniTlsListenerState \<Rightarrow>
   (unit, sni_error) result \<times> SniTlsListenerState" where
  "update_key tls server_name key l =
     (case check_key tls server_name key l of
        Err e \<Rightarrow> (Err e, l)
      | Ok _ \<Rightarrow>
          (case map_of (sni_subscribers l) server_name of
             None \<Rightarrow> (Err NameNotSubscribed, l)
           | Some subscriber \<Rightarrow>
               (Ok (), l\<lparr>sni_subscribers :=
                  hash_insert server_name (subscriber\<lparr>si_key := key\<rparr>) (sni_subscribers l)\<rparr>)))"

definition sni_subscribe ::
  "Rustls \<Rightarrow> string \<Rightarrow> CertifiedKey \<Rightarrow> nat \<Rightarrow> SniTlsListenerState \<Rightarrow>
   (unit, sni_error) result \<times> SniTlsListenerState" where
  "sni_subscribe tls server_name key tx l =
     (case check_key tls server_name key l of
        Err e \<Rightarrow> (Err e, l)
      | Ok _ \<Rightarrow>
          if map_of (sni_subscribers l) server_name \<noteq> None then (Err NameAlreadySubscribed, l)
          else (Ok (), l\<lparr>sni_subscribers :=
                  hash_insert server_name \<lparr> si_key = key, si_tx = tx \<rparr> (sni_subscribers l)\<rparr>))"

text \<open>Dropping the listener's subscription.\<close>

definition sni_drop :: "string \<Rightarrow> SniTlsListenerState \<Rightarrow> SniTlsListenerState" where
  "sni_drop sni l = l\<lparr>sni_subscribers := hash_remove sni (sni_subscribers l)\<rparr>"

definition resolve :: "string option \<Rightarrow> SniTlsListenerState \<Rightarrow> CertifiedKey option" where
  "resolve hello_name l =
     (case hello_name of
        None \<Rightarrow> None
      | Some name \<Rightarrow> map_option si_key (map_of (sni_subscribers l) name))"

definition unwrap_name :: "string option \<Rightarrow> string" where
  "unwrap_name name = (case name of Some n \<Rightarrow> n | None \<Rightarrow> [])"

text \<open>
  The task of one incoming TCP connection: whether a permit was free and the connection if the
  handshake succeeded in time. The result is the task the connection was sent to.
\<close>

definition serve_incoming ::
  "bool \<Rightarrow> Connection option \<Rightarrow> (nat \<Rightarrow> send_outcome) \<Rightarrow> SniTlsListenerState \<Rightarrow>
   (nat \<times> Connection) option \<times> SniTlsListenerState" where
  "serve_incoming permit handshake try_send l =
     (if \<not> permit then (None, l)
      else case handshake of
        None \<Rightarrow> (None, l)
      | Some conn \<Rightarrow>
          let server_name = unwrap_name (conn_server_name conn)
          in case map_of (sni_subscribers l) server_name of
               None \<Rightarrow> (None, l)
             | Some subscriber \<Rightarrow>
                 (case try_send (si_tx subscriber) of
                    Sent \<Rightarrow> (Some (si_tx subscriber, conn), l)
                  | SendFull \<Rightarrow> (None, l)
                  | SendClosed \<Rightarrow> (None, sni_drop (unwrap_name (conn_server_name conn)) l)))"

section \<open>Agents\<close>

text \<open>
  \<open>sub_cancel\<close> is the task whose cancellation channel the entry holds: dropping the entry cancels
  it. \<open>create_calls\<close> counts the calls of \<open>create_instance\<close>.
\<close>

record SubState =
  sub_queue :: "(instant \<times> Connection) list"
  sub_subscriptions :: "(u64, nat) btree"
  sub_cancel :: nat

record AgentState =
  ag_subscribers :: "(string, SubState) btree"
  reuse_subscriber :: bool
  connect_timeout :: duration
  create_calls :: nat

record SniSubscription =
  sb_id :: u64
  sb_domain :: string
  sb_agent :: nat
  sb_rx :: "Connection list"
  sb_live :: bool

record Forwarder =
  fw_agent :: nat
  fw_domain :: string
  fw_rx :: "Connection list"
  fw_live :: bool

text \<open>
  The whole: the listener, the agents by number (dropped ones are \<open>None\<close>), the forwarding tasks
  with the receivers of the listener's channels and the subscriptions handed out with theirs.
\<close>

record Sni =
  listener :: SniTlsListenerState
  agent_list :: "AgentState option list"
  forwarders :: "Forwarder list"
  subs :: "SniSubscription list"
  next_sub_id :: u64

definition sni_new :: "bool \<Rightarrow> Sni" where
  "sni_new verify =
     \<lparr> listener = sni_bind verify, agent_list = [], forwarders = [], subs = [], next_sub_id = 0 \<rparr>"

definition agent_new :: "bool \<Rightarrow> duration \<Rightarrow> AgentState" where
  "agent_new reuse timeout =
     \<lparr> ag_subscribers = [], reuse_subscriber = reuse, connect_timeout = timeout, create_calls = 0 \<rparr>"

definition sub_state_new :: "nat \<Rightarrow> SubState" where
  "sub_state_new cancel = \<lparr> sub_queue = [], sub_subscriptions = [], sub_cancel = cancel \<rparr>"

definition clear_timeout_connections :: "instant \<Rightarrow> duration \<Rightarrow> SubState \<Rightarrow> SubState" where
  "clear_timeout_connections now threshold st =
     st\<lparr>sub_queue := filter (\<lambda>(inst, _). elapsed now inst < threshold) (sub_queue st)\<rparr>"

text \<open>\<open>sub_channel\<close> and \<open>Subscription::new\<close>: the next id and an empty channel.\<close>

definition sub_channel :: "nat \<Rightarrow> string \<Rightarrow> Connection list \<Rightarrow> Sni \<Rightarrow> u64 \<times> nat \<times> Sni" where
  "sub_channel a domain sent s =
     (next_sub_id s, length (subs s),
      s\<lparr>subs := subs s @ [\<lparr> sb_id = next_sub_id s, sb_domain = domain, sb_agent = a, sb_rx = sent, sb_live = True \<rparr>],
        next_sub_id := next_sub_id s + 1\<rparr>)"

definition put_agent :: "nat \<Rightarrow> AgentState \<Rightarrow> Sni \<Rightarrow> Sni" where
  "put_agent a ag s = s\<lparr>agent_list := (agent_list s)[a := Some ag]\<rparr>"

definition put_sub :: "string \<Rightarrow> SubState \<Rightarrow> AgentState \<Rightarrow> AgentState" where
  "put_sub domain st ag = ag\<lparr>ag_subscribers := btree_insert domain st (ag_subscribers ag)\<rparr>"

definition agent_subscribe ::
  "Rustls \<Rightarrow> send_outcome \<Rightarrow> nat \<Rightarrow> string \<Rightarrow> CertifiedKey \<Rightarrow> Sni \<Rightarrow> (nat, sni_error) result \<times> Sni" where
  "agent_subscribe tls try_send a domain key s =
     (case slot_get (agent_list s) a of
        None \<Rightarrow> (Err AgentDropped, s)
      | Some ag \<Rightarrow>
          (case map_of (ag_subscribers ag) domain of
             Some st \<Rightarrow>
               (case update_key tls domain key (listener s) of
                  (Err e, l) \<Rightarrow> (Err e, s\<lparr>listener := l\<rparr>)
                | (Ok _, l) \<Rightarrow>
                    let sent = (case sub_queue st of
                          [] \<Rightarrow> [] | (_, conn) # _ \<Rightarrow> if try_send = Sent then [conn] else []);
                        (sid, n, s1) = sub_channel a domain sent (s\<lparr>listener := l\<rparr>);
                        st' = st\<lparr>sub_queue := tl (sub_queue st),
                                 sub_subscriptions := btree_insert sid n (sub_subscriptions st)\<rparr>
                    in (Ok n, put_agent a (put_sub domain st' ag) s1))
           | None \<Rightarrow>
               (case sni_subscribe tls domain key (length (forwarders s)) (listener s) of
                  (Err e, l) \<Rightarrow> (Err e, s\<lparr>listener := l\<rparr>)
                | (Ok _, l) \<Rightarrow>
                    let (sid, n, s1) = sub_channel a domain [] (s\<lparr>listener := l\<rparr>);
                        st = (sub_state_new (length (forwarders s)))
                               \<lparr>sub_subscriptions := btree_insert sid n []\<rparr>;
                        task = \<lparr> fw_agent = a, fw_domain = domain, fw_rx = [], fw_live = True \<rparr>
                    in (Ok n, put_agent a (put_sub domain st ag)
                                (s1\<lparr>forwarders := forwarders s1 @ [task]\<rparr>)))))"

definition sub_send :: "send_outcome \<Rightarrow> nat \<Rightarrow> Connection \<Rightarrow> Sni \<Rightarrow> (unit, sni_error) result \<times> Sni" where
  "sub_send try_send n conn s =
     (case try_send of
        Sent \<Rightarrow> (Ok (), s\<lparr>subs := (subs s)[n := (subs s ! n)\<lparr>sb_rx := sb_rx (subs s ! n) @ [conn]\<rparr>]\<rparr>)
      | SendFull \<Rightarrow> (Err SubscriberFull, s)
      | SendClosed \<Rightarrow> (Err SubscriberClosed, s))"

definition dispatch_connection ::
  "instant \<Rightarrow> send_outcome \<Rightarrow> nat \<Rightarrow> string \<Rightarrow> Connection \<Rightarrow> Sni \<Rightarrow> (unit, sni_error) result \<times> Sni" where
  "dispatch_connection now try_send a domain conn s =
     (case slot_get (agent_list s) a of
        None \<Rightarrow> (Err AgentDropped, s)
      | Some ag \<Rightarrow>
          (case map_of (ag_subscribers ag) domain of
             None \<Rightarrow> (Err NoSubscribers, s)
           | Some st \<Rightarrow>
               (case (if reuse_subscriber ag
                      then (case sub_subscriptions st of [] \<Rightarrow> None | (_, n) # _ \<Rightarrow> Some n) else None) of
                  Some n \<Rightarrow> sub_send try_send n conn s
                | None \<Rightarrow>
                    (Ok (), put_agent a
                      ((put_sub domain (st\<lparr>sub_queue := sub_queue st @ [(now, conn)]\<rparr>) ag)
                         \<lparr>create_calls := create_calls ag + 1\<rparr>) s))))"

definition agent_unsubscribe :: "nat \<Rightarrow> string \<Rightarrow> Sni \<Rightarrow> (unit, sni_error) result \<times> Sni" where
  "agent_unsubscribe a domain s =
     (case slot_get (agent_list s) a of
        None \<Rightarrow> (Err AgentDropped, s)
      | Some ag \<Rightarrow>
          (case map_of (ag_subscribers ag) domain of
             None \<Rightarrow> (Err NoSubscribers, s)
           | Some _ \<Rightarrow>
               (Ok (), put_agent a (ag\<lparr>ag_subscribers := btree_remove domain (ag_subscribers ag)\<rparr>) s)))"

definition remove_sub :: "nat \<Rightarrow> string \<Rightarrow> u64 \<Rightarrow> Sni \<Rightarrow> (unit, sni_error) result \<times> Sni" where
  "remove_sub a domain sid s =
     (case slot_get (agent_list s) a of
        None \<Rightarrow> (Err AgentDropped, s)
      | Some ag \<Rightarrow>
          (case map_of (ag_subscribers ag) domain of
             None \<Rightarrow> (Err NoSubscribers, s)
           | Some st \<Rightarrow>
               if map_of (sub_subscriptions st) sid = None then (Err NoSubscription, s)
               else
                 let st' = st\<lparr>sub_subscriptions := btree_remove sid (sub_subscriptions st)\<rparr>;
                     s1 = put_agent a (put_sub domain st' ag) s
                 in if sub_subscriptions st' = [] then agent_unsubscribe a domain s1 else (Ok (), s1)))"

text \<open>Dropping a subscription: its removal from the agent, if that is alive, then its channel.\<close>

definition drop_subscription :: "nat \<Rightarrow> Sni \<Rightarrow> Sni" where
  "drop_subscription n s =
     (let sub = subs s ! n;
          s1 = snd (remove_sub (sb_agent sub) (sb_domain sub) (sb_id sub) s)
      in s1\<lparr>subs := (subs s1)[n := sub\<lparr>sb_rx := [], sb_live := False\<rparr>]\<rparr>)"

definition sub_next :: "nat \<Rightarrow> Sni \<Rightarrow> Connection option \<times> Sni" where
  "sub_next n s =
     (case sb_rx (subs s ! n) of
        [] \<Rightarrow> (None, s)
      | conn # rest \<Rightarrow> (Some conn, s\<lparr>subs := (subs s)[n := (subs s ! n)\<lparr>sb_rx := rest\<rparr>]\<rparr>))"

section \<open>The forwarding task\<close>

text \<open>
  The end of the task drops the listener's subscription with the receiver. One round of its loop
  dispatches the next connection; an error of that is logged. The second loop drops connections
  that waited too long. The task is cancelled once no entry holds its cancellation channel.
\<close>

definition end_forwarder :: "nat \<Rightarrow> Sni \<Rightarrow> Sni" where
  "end_forwarder t s =
     s\<lparr>listener := sni_drop (fw_domain (forwarders s ! t)) (listener s),
       forwarders := (forwarders s)[t := (forwarders s ! t)\<lparr>fw_rx := [], fw_live := False\<rparr>]\<rparr>"

definition forward_next :: "instant \<Rightarrow> send_outcome \<Rightarrow> nat \<Rightarrow> Sni \<Rightarrow> Sni" where
  "forward_next now try_send t s =
     (let f = forwarders s ! t
      in case fw_rx f of
           [] \<Rightarrow> s
         | conn # rest \<Rightarrow>
             let s1 = s\<lparr>forwarders := (forwarders s)[t := f\<lparr>fw_rx := rest\<rparr>]\<rparr>
             in if slot_get (agent_list s) (fw_agent f) = None then end_forwarder t s1
                else snd (dispatch_connection now try_send (fw_agent f) (fw_domain f) conn s1))"

definition check_timeouts :: "instant \<Rightarrow> nat \<Rightarrow> Sni \<Rightarrow> Sni" where
  "check_timeouts now t s =
     (let f = forwarders s ! t
      in case slot_get (agent_list s) (fw_agent f) of
           None \<Rightarrow> s
         | Some ag \<Rightarrow>
             (case map_of (ag_subscribers ag) (fw_domain f) of
                None \<Rightarrow> s
              | Some st \<Rightarrow>
                  put_agent (fw_agent f)
                    (put_sub (fw_domain f) (clear_timeout_connections now (connect_timeout ag) st) ag) s))"

definition forwarder_cancelled :: "nat \<Rightarrow> Sni \<Rightarrow> bool" where
  "forwarder_cancelled t s \<longleftrightarrow>
     list_all (\<lambda>slot. case slot of
         None \<Rightarrow> True
       | Some ag \<Rightarrow> list_all (\<lambda>(_, st). sub_cancel st \<noteq> t) (ag_subscribers ag)) (agent_list s)"

definition sender_dropped :: "nat \<Rightarrow> Sni \<Rightarrow> bool" where
  "sender_dropped t s \<longleftrightarrow> list_all (\<lambda>(_, info). si_tx info \<noteq> t) (sni_subscribers (listener s))"

definition accept_connection :: "bool \<Rightarrow> Connection option \<Rightarrow> (nat \<Rightarrow> send_outcome) \<Rightarrow> Sni \<Rightarrow> Sni" where
  "accept_connection permit handshake try_send s =
     (case serve_incoming permit handshake try_send (listener s) of
        (None, l) \<Rightarrow> s\<lparr>listener := l\<rparr>
      | (Some (t, conn), l) \<Rightarrow>
          s\<lparr>listener := l,
            forwarders := (forwarders s)[t := (forwarders s ! t)\<lparr>fw_rx := fw_rx (forwarders s ! t) @ [conn]\<rparr>]\<rparr>)"

section \<open>Steps\<close>

text \<open>
  A send is refused as closed only when its receiver is gone, which is what the channels'
  documentation says.
\<close>

definition closed_if_dropped :: "Sni \<Rightarrow> (nat \<Rightarrow> send_outcome) \<Rightarrow> bool" where
  "closed_if_dropped s try_send \<longleftrightarrow>
     (\<forall>t < length (forwarders s). fw_live (forwarders s ! t) \<longrightarrow> try_send t \<noteq> SendClosed)"

inductive sni_step :: "Rustls \<Rightarrow> Sni \<Rightarrow> Sni \<Rightarrow> bool" for tls where
  on_agent: "sni_step tls s (s\<lparr>agent_list := agent_list s @ [Some (agent_new reuse timeout)]\<rparr>)"
| on_subscribe: "sni_step tls s (snd (agent_subscribe tls try_send a domain key s))"
| on_unsubscribe: "sni_step tls s (snd (agent_unsubscribe a domain s))"
| on_drop_agent: "sni_step tls s (s\<lparr>agent_list := slot_free a (agent_list s)\<rparr>)"
| on_drop_subscription:
    "n < length (subs s) \<Longrightarrow> sb_live (subs s ! n) \<Longrightarrow> sni_step tls s (drop_subscription n s)"
| on_next: "n < length (subs s) \<Longrightarrow> sb_live (subs s ! n) \<Longrightarrow> sni_step tls s (snd (sub_next n s))"
| on_incoming:
    "closed_if_dropped s try_send \<Longrightarrow>
     sni_step tls s (accept_connection permit handshake try_send s)"
| on_forward:
    "t < length (forwarders s) \<Longrightarrow> fw_live (forwarders s ! t) \<Longrightarrow>
     sni_step tls s (forward_next now outcome t s)"
| on_timeouts:
    "t < length (forwarders s) \<Longrightarrow> fw_live (forwarders s ! t) \<Longrightarrow>
     sni_step tls s (check_timeouts now t s)"
| on_end:
    "t < length (forwarders s) \<Longrightarrow> fw_live (forwarders s ! t) \<Longrightarrow>
     forwarder_cancelled t s \<or> (sender_dropped t s \<and> fw_rx (forwarders s ! t) = []) \<Longrightarrow>
     sni_step tls s (end_forwarder t s)"

section \<open>The invariant\<close>

text \<open>
  \<open>sub_state\<close> is an agent's entry for a domain and \<open>served\<close> the task the listener delivers the
  domain's connections to. An entry is sound if its task is alive and the agent's own, it has
  subscriptions, all the agent's own for the domain, and only connections for the domain wait.
\<close>

definition sub_state :: "Sni \<Rightarrow> nat \<Rightarrow> string \<Rightarrow> SubState option" where
  "sub_state s a d = (case slot_get (agent_list s) a of None \<Rightarrow> None | Some ag \<Rightarrow> map_of (ag_subscribers ag) d)"

definition served :: "Sni \<Rightarrow> string \<Rightarrow> nat option" where
  "served s d = map_option si_tx (map_of (sni_subscribers (listener s)) d)"

definition conn_name :: "Connection \<Rightarrow> string" where
  "conn_name c = unwrap_name (conn_server_name c)"

definition forwards :: "Sni \<Rightarrow> nat \<Rightarrow> string \<Rightarrow> bool" where
  "forwards s t d \<longleftrightarrow>
     t < length (forwarders s) \<and> fw_live (forwarders s ! t) \<and> fw_domain (forwarders s ! t) = d"

definition sub_ok :: "Sni \<Rightarrow> nat \<Rightarrow> string \<Rightarrow> SubState \<Rightarrow> bool" where
  "sub_ok s a d st \<longleftrightarrow>
     forwards s (sub_cancel st) d \<and> fw_agent (forwarders s ! sub_cancel st) = a \<and>
     sub_subscriptions st \<noteq> [] \<and>
     (\<forall>n \<in> snd ` set (sub_subscriptions st).
        n < length (subs s) \<and> sb_agent (subs s ! n) = a \<and> sb_domain (subs s ! n) = d) \<and>
     (\<forall>c \<in> snd ` set (sub_queue st). conn_name c = d)"

definition agent_ok :: "AgentState \<Rightarrow> bool" where
  "agent_ok ag \<longleftrightarrow>
     (reuse_subscriber ag \<longrightarrow> create_calls ag = 0 \<and> (\<forall>d st. map_of (ag_subscribers ag) d = Some st \<longrightarrow> sub_queue st = []))"

definition routed :: "Sni \<Rightarrow> bool" where
  "routed s \<longleftrightarrow>
     (\<forall>f \<in> set (forwarders s). \<forall>c \<in> set (fw_rx f). conn_name c = fw_domain f) \<and>
     (\<forall>b \<in> set (subs s). \<forall>c \<in> set (sb_rx b). conn_name c = sb_domain b)"

definition sni_inv :: "Sni \<Rightarrow> bool" where
  "sni_inv s \<longleftrightarrow>
     (\<forall>d t. served s d = Some t \<longleftrightarrow> forwards s t d) \<and>
     (\<forall>a d st. sub_state s a d = Some st \<longrightarrow> sub_ok s a d st) \<and>
     (\<forall>a ag. slot_get (agent_list s) a = Some ag \<longrightarrow> agent_ok ag) \<and>
     routed s"

section \<open>Lemmas\<close>

lemma sub_state_put:
  "slot_get (agent_list s) a = Some ag \<Longrightarrow>
   sub_state (put_agent a ag' s) b d = (if b = a then map_of (ag_subscribers ag') d else sub_state s b d)"
  by (auto simp: sub_state_def put_agent_def slot_get_update dest!: slot_get_SomeD)

lemma slot_get_put:
  "slot_get (agent_list s) a = Some ag \<Longrightarrow>
   slot_get (agent_list (put_agent a ag' s)) b = (if b = a then Some ag' else slot_get (agent_list s) b)"
  by (auto simp: put_agent_def slot_get_update dest!: slot_get_SomeD)

lemma put_agent_others [simp]:
  "listener (put_agent a ag s) = listener s" "forwarders (put_agent a ag s) = forwarders s"
  "subs (put_agent a ag s) = subs s" "served (put_agent a ag s) = served s"
  "forwards (put_agent a ag s) = forwards s" "sub_ok (put_agent a ag s) = sub_ok s"
  "routed (put_agent a ag s) = routed s"
  by (simp_all add: put_agent_def served_def forwards_def sub_ok_def routed_def fun_eq_iff)

lemma map_of_put_sub: "map_of (ag_subscribers (put_sub d st ag)) d' = (if d' = d then Some st else map_of (ag_subscribers ag) d')"
  by (simp add: put_sub_def map_of_btree_insert)

lemma put_sub_others [simp]:
  "reuse_subscriber (put_sub d st ag) = reuse_subscriber ag" "create_calls (put_sub d st ag) = create_calls ag"
  "connect_timeout (put_sub d st ag) = connect_timeout ag"
  by (simp_all add: put_sub_def)

lemma sub_stateI: "slot_get (agent_list s) a = Some ag \<Longrightarrow> map_of (ag_subscribers ag) d = Some st \<Longrightarrow> sub_state s a d = Some st"
  by (simp add: sub_state_def)

lemma sub_state_cong: "agent_list s' = agent_list s \<Longrightarrow> sub_state s' = sub_state s"
  by (simp add: sub_state_def fun_eq_iff)

lemma served_cong: "listener s' = listener s \<Longrightarrow> served s' = served s"
  by (simp add: served_def fun_eq_iff)

lemma forwards_cong: "forwarders s' = forwarders s \<Longrightarrow> forwards s' = forwards s"
  by (simp add: forwards_def fun_eq_iff)

text \<open>What keeps entries sound: tasks and subscriptions stay and keep what they belong to.\<close>

definition extends :: "Sni \<Rightarrow> Sni \<Rightarrow> bool" where
  "extends s s' \<longleftrightarrow>
     length (forwarders s) \<le> length (forwarders s') \<and>
     (\<forall>t < length (forwarders s).
        fw_agent (forwarders s' ! t) = fw_agent (forwarders s ! t) \<and>
        fw_domain (forwarders s' ! t) = fw_domain (forwarders s ! t) \<and>
        fw_live (forwarders s' ! t) = fw_live (forwarders s ! t)) \<and>
     length (subs s) \<le> length (subs s') \<and>
     (\<forall>n < length (subs s).
        sb_agent (subs s' ! n) = sb_agent (subs s ! n) \<and> sb_domain (subs s' ! n) = sb_domain (subs s ! n))"

lemma sub_ok_extends: "extends s s' \<Longrightarrow> sub_ok s a d st \<Longrightarrow> sub_ok s' a d st"
  by (auto simp: extends_def sub_ok_def forwards_def)

lemma extends_refl [simp]: "extends s s"
  by (simp add: extends_def)

text \<open>
  A change of one agent's entries and of the buffers keeps the invariant if the new entries are
  sound and the buffers routed.
\<close>

lemma sni_inv_put:
  assumes inv: "sni_inv s" and ag: "slot_get (agent_list s) a = Some ag"
    and ext: "extends s s'" and serv: "\<And>d t. served s' d = Some t \<longleftrightarrow> forwards s' t d"
    and lst: "agent_list s' = agent_list s" and r: "routed s'"
    and subs: "\<And>d st. map_of (ag_subscribers ag') d = Some st \<Longrightarrow> sub_ok s' a d st"
    and ok: "agent_ok ag'"
  shows "sni_inv (put_agent a ag' s')"
proof -
  have ag': "slot_get (agent_list s') a = Some ag" using ag lst by simp
  have "sub_ok s' b d st" if "sub_state (put_agent a ag' s') b d = Some st" for b d st
  proof (cases "b = a")
    case False
    with that sub_state_put [OF ag'] have "sub_state s b d = Some st"
      by (simp add: sub_state_cong [OF lst])
    with inv show ?thesis by (simp add: sni_inv_def sub_ok_extends [OF ext])
  qed (use that subs sub_state_put [OF ag'] in simp)
  moreover have "agent_ok ag1" if "slot_get (agent_list (put_agent a ag' s')) b = Some ag1" for b ag1
    using that ok inv by (auto simp: slot_get_put [OF ag'] lst sni_inv_def split: if_splits)
  ultimately show ?thesis using serv r by (simp add: sni_inv_def)
qed

lemma sni_inv_put_same:
  assumes "sni_inv s" "slot_get (agent_list s) a = Some ag"
    and "\<And>d st. map_of (ag_subscribers ag') d = Some st \<Longrightarrow> sub_ok s a d st" "agent_ok ag'"
  shows "sni_inv (put_agent a ag' s)"
  using assms by (intro sni_inv_put [where s = s]) (auto simp: sni_inv_def)

lemma sni_invD:
  assumes "sni_inv s"
  shows "served s d = Some t \<longleftrightarrow> forwards s t d"
    and "sub_state s a d = Some st \<Longrightarrow> sub_ok s a d st"
    and "slot_get (agent_list s) a = Some ag \<Longrightarrow> agent_ok ag"
    and "routed s"
    and "slot_get (agent_list s) a = Some ag \<Longrightarrow> map_of (ag_subscribers ag) d = Some st \<Longrightarrow> sub_ok s a d st"
  using assms by (auto simp: sni_inv_def sub_state_def)

text \<open>Only buffers changed, and no agent.\<close>

lemma sni_inv_buffers:
  assumes inv: "sni_inv s" and ext: "extends s s'" and lst: "agent_list s' = agent_list s"
    and serv: "\<And>d t. served s' d = Some t \<longleftrightarrow> forwards s' t d" and r: "routed s'"
  shows "sni_inv s'"
  using inv serv r by (auto simp: sni_inv_def sub_state_cong [OF lst] lst intro: sub_ok_extends [OF ext])

lemma update_key_served: "map_option si_tx \<circ> map_of (sni_subscribers (snd (update_key tls d key l))) = map_option si_tx \<circ> map_of (sni_subscribers l)"
  by (auto simp: update_key_def fun_eq_iff hash.lookup_insert split: result.splits option.splits)

lemma sni_new_inv: "sni_inv (sni_new v)"
  by (simp add: sni_inv_def sni_new_def sni_bind_def served_def forwards_def sub_state_def slot_get_def routed_def)

subsection \<open>Every step keeps the invariant\<close>

lemma agent_okD: "agent_ok ag \<Longrightarrow> reuse_subscriber ag \<Longrightarrow> map_of (ag_subscribers ag) d = Some st \<Longrightarrow> sub_queue st = []"
  by (simp add: agent_ok_def)

lemma agent_ok_put_sub:
  "agent_ok ag \<Longrightarrow> (reuse_subscriber ag \<Longrightarrow> sub_queue st = []) \<Longrightarrow> agent_ok (put_sub d st ag)"
  by (auto simp: agent_ok_def map_of_put_sub split: if_splits)

lemma served_listener [simp]: "served (s\<lparr>listener := l\<rparr>) d = map_option si_tx (map_of (sni_subscribers l) d)"
  by (simp add: served_def)

lemma update_key_failed: "update_key tls d key l = (Err e, l') \<Longrightarrow> l' = l"
  by (auto simp: update_key_def split: result.splits option.splits)

lemma sni_subscribe_failed: "sni_subscribe tls d key tx l = (Err e, l') \<Longrightarrow> l' = l"
  by (auto simp: sni_subscribe_def split: result.splits if_splits)

lemma sni_subscribe_Ok:
  "sni_subscribe tls d key tx l = (Ok u, l') \<Longrightarrow>
   map_of (sni_subscribers l) d = None \<and> l' = l\<lparr>sni_subscribers := hash_insert d \<lparr> si_key = key, si_tx = tx \<rparr> (sni_subscribers l)\<rparr>"
  by (auto simp: sni_subscribe_def split: result.splits if_splits)

lemma subscribe_again_inv:
  assumes inv: "sni_inv s" and ag: "slot_get (agent_list s) a = Some ag"
    and st: "map_of (ag_subscribers ag) domain = Some st"
    and upd: "update_key tls domain key (listener s) = (Ok u, l)"
  shows "sni_inv (snd (agent_subscribe tls outcome a domain key s))"
proof -
  define sent where "sent = (case sub_queue st of [] \<Rightarrow> [] | (_, conn) # _ \<Rightarrow> if outcome = Sent then [conn] else [])"
  define s1 where "s1 = snd (snd (sub_channel a domain sent (s\<lparr>listener := l\<rparr>)))"
  define st' where "st' = st\<lparr>sub_queue := tl (sub_queue st),
    sub_subscriptions := btree_insert (next_sub_id s) (length (subs s)) (sub_subscriptions st)\<rparr>"
  have eq: "snd (agent_subscribe tls outcome a domain key s) = put_agent a (put_sub domain st' ag) s1"
    by (simp add: agent_subscribe_def ag st upd sent_def s1_def st'_def sub_channel_def Let_def)
  note ok = sni_invD(5) [OF inv ag st]
  have fw: "forwarders s1 = forwarders s" "agent_list s1 = agent_list s" "listener s1 = l"
    by (simp_all add: s1_def sub_channel_def)
  have subs: "subs s1 = subs s @ [\<lparr> sb_id = next_sub_id s, sb_domain = domain, sb_agent = a, sb_rx = sent, sb_live = True \<rparr>]"
    by (simp add: s1_def sub_channel_def)
  have ext: "extends s s1" by (auto simp: extends_def fw subs nth_append)
  have q: "\<forall>c \<in> snd ` set (sub_queue st). conn_name c = domain" using ok by (simp add: sub_ok_def)
  then have sent: "\<forall>c \<in> set sent. conn_name c = domain"
    by (cases "sub_queue st") (auto simp: sent_def)
  have "served s1 d = served s d" for d
    using fun_cong [OF update_key_served [of tls domain key "listener s"], of d] upd
    by (simp add: served_def fw)
  then have serv: "served s1 d = Some t \<longleftrightarrow> forwards s1 t d" for d t
    using sni_invD(1) [OF inv] by (simp add: forwards_cong [OF fw(1)])
  have r: "routed s1" using sni_invD(4) [OF inv] sent by (auto simp: routed_def fw subs)
  have "set (sub_queue st') \<subseteq> set (sub_queue st)"
    by (cases "sub_queue st") (auto simp: st'_def)
  then have q': "\<forall>c \<in> snd ` set (sub_queue st'). conn_name c = domain" using q by blast
  define own where "own n \<longleftrightarrow> n < length (subs s1) \<and> sb_agent (subs s1 ! n) = a \<and> sb_domain (subs s1 ! n) = domain" for n
  have old: "\<forall>n \<in> snd ` set (sub_subscriptions st). own n"
    using sub_ok_extends [OF ext ok] by (simp add: sub_ok_def own_def)
  have new: "own (length (subs s))" by (simp add: subs own_def)
  have set: "set (sub_subscriptions st') \<subseteq> {(next_sub_id s, length (subs s))} \<union> set (sub_subscriptions st)"
    using set_btree_insert [of "next_sub_id s" "length (subs s)" "sub_subscriptions st"] by (simp add: st'_def)
  have n': "\<forall>n \<in> snd ` set (sub_subscriptions st'). own n"
  proof
    fix n assume "n \<in> snd ` set (sub_subscriptions st')"
    then obtain e where e: "e \<in> set (sub_subscriptions st')" and n: "n = snd e" by auto
    from subsetD [OF set e] have "e = (next_sub_id s, length (subs s)) \<or> e \<in> set (sub_subscriptions st)" by simp
    with old new show "own n" by (auto simp: n)
  qed
  have "sub_subscriptions st' \<noteq> []"
    using fst_set_btree_insert [of "next_sub_id s" "length (subs s)" "sub_subscriptions st"]
    by (auto simp: st'_def)
  moreover have "forwards s1 (sub_cancel st') domain" "fw_agent (forwarders s1 ! sub_cancel st') = a"
    using ok by (simp_all add: sub_ok_def forwards_cong [OF fw(1)] fw(1) st'_def)
  ultimately have ok': "sub_ok s1 a domain st'"
    using q' n' unfolding sub_ok_def own_def by blast
  have "agent_ok (put_sub domain st' ag)"
    using agent_okD [OF sni_invD(3) [OF inv ag] _ st]
    by (intro agent_ok_put_sub sni_invD(3) [OF inv ag]) (simp add: st'_def)
  moreover have "sub_ok s1 a d st1" if "map_of (ag_subscribers (put_sub domain st' ag)) d = Some st1" for d st1
    using that ok' sub_ok_extends [OF ext sni_invD(5) [OF inv ag]]
    by (auto simp: map_of_put_sub split: if_splits)
  ultimately show ?thesis
    unfolding eq by (intro sni_inv_put [OF inv ag ext serv fw(2) r])
qed

lemma subscribe_first_inv:
  assumes inv: "sni_inv s" and ag: "slot_get (agent_list s) a = Some ag"
    and st: "map_of (ag_subscribers ag) domain = None"
    and sub: "sni_subscribe tls domain key (length (forwarders s)) (listener s) = (Ok u, l)"
  shows "sni_inv (snd (agent_subscribe tls outcome a domain key s))"
proof -
  define st' where "st' = (sub_state_new (length (forwarders s)))
    \<lparr>sub_subscriptions := btree_insert (next_sub_id s) (length (subs s)) []\<rparr>"
  define task where "task = \<lparr> fw_agent = a, fw_domain = domain, fw_rx = [], fw_live = True \<rparr>"
  define s1 where "s1 = (snd (snd (sub_channel a domain [] (s\<lparr>listener := l\<rparr>))))\<lparr>forwarders := forwarders s @ [task]\<rparr>"
  have eq: "snd (agent_subscribe tls outcome a domain key s) = put_agent a (put_sub domain st' ag) s1"
    by (simp add: agent_subscribe_def ag st sub s1_def st'_def task_def sub_channel_def Let_def)
  have fw: "forwarders s1 = forwarders s @ [task]" "agent_list s1 = agent_list s" "listener s1 = l"
    and subs: "subs s1 = subs s @ [\<lparr> sb_id = next_sub_id s, sb_domain = domain, sb_agent = a, sb_rx = [], sb_live = True \<rparr>]"
    by (simp_all add: s1_def sub_channel_def)
  have ext: "extends s s1" by (auto simp: extends_def fw subs nth_append)
  note l = sni_subscribe_Ok [OF sub]
  then have none: "\<not> forwards s t domain" for t
    using sni_invD(1) [OF inv, of domain t] by (auto simp: served_def)
  have serv: "served s1 d = Some t \<longleftrightarrow> forwards s1 t d" for d t
  proof -
    have "served s1 d = (if d = domain then Some (length (forwarders s)) else served s d)"
      using l by (simp add: served_def fw hash.lookup_insert)
    moreover have "forwards s1 t d \<longleftrightarrow> forwards s t d \<or> (t = length (forwarders s) \<and> d = domain)"
      by (auto simp: forwards_def fw nth_append task_def less_Suc_eq)
    ultimately show ?thesis using none sni_invD(1) [OF inv, of d t] by (auto simp: forwards_def)
  qed
  have r: "routed s1" using sni_invD(4) [OF inv] by (auto simp: routed_def fw subs task_def)
  have ok': "sub_ok s1 a domain st'"
    by (simp add: sub_ok_def forwards_def fw subs st'_def sub_state_new_def task_def nth_append)
  have "agent_ok (put_sub domain st' ag)"
    by (intro agent_ok_put_sub sni_invD(3) [OF inv ag]) (simp add: st'_def sub_state_new_def)
  moreover have "sub_ok s1 a d st1" if "map_of (ag_subscribers (put_sub domain st' ag)) d = Some st1" for d st1
    using that ok' sub_ok_extends [OF ext sni_invD(5) [OF inv ag]]
    by (auto simp: map_of_put_sub split: if_splits)
  ultimately show ?thesis
    unfolding eq by (intro sni_inv_put [OF inv ag ext serv fw(2) r])
qed

lemma subscribe_unchanged:
  assumes "slot_get (agent_list s) a = None \<or>
    (\<exists>ag. slot_get (agent_list s) a = Some ag \<and>
      (case map_of (ag_subscribers ag) domain of
         None \<Rightarrow> \<not> is_ok (fst (sni_subscribe tls domain key (length (forwarders s)) (listener s)))
       | Some _ \<Rightarrow> \<not> is_ok (fst (update_key tls domain key (listener s)))))"
  shows "snd (agent_subscribe tls outcome a domain key s) = s"
  using assms
  by (auto simp: agent_subscribe_def dest: update_key_failed sni_subscribe_failed split: option.splits prod.splits result.splits)

lemma subscribe_inv:
  assumes "sni_inv s" shows "sni_inv (snd (agent_subscribe tls outcome a domain key s))"
proof (cases "slot_get (agent_list s) a")
  case None
  then show ?thesis using assms by (simp add: agent_subscribe_def)
next
  case ag: (Some ag)
  show ?thesis
  proof (cases "map_of (ag_subscribers ag) domain")
    case None
    obtain r l where r: "sni_subscribe tls domain key (length (forwarders s)) (listener s) = (r, l)" by force
    show ?thesis
    proof (cases r)
      case (Ok u)
      with r show ?thesis by (intro subscribe_first_inv [OF assms ag None]) simp
    next
      case (Err e)
      have "snd (agent_subscribe tls outcome a domain key s) = s"
        by (rule subscribe_unchanged) (simp add: ag None r Err)
      with assms show ?thesis by simp
    qed
  next
    case st: (Some st)
    obtain r l where r: "update_key tls domain key (listener s) = (r, l)" by force
    show ?thesis
    proof (cases r)
      case (Ok u)
      with r show ?thesis by (intro subscribe_again_inv [OF assms ag st]) simp
    next
      case (Err e)
      have "snd (agent_subscribe tls outcome a domain key s) = s"
        by (rule subscribe_unchanged) (simp add: ag st r Err)
      with assms show ?thesis by simp
    qed
  qed
qed

lemma unsubscribe_inv:
  assumes inv: "sni_inv s" shows "sni_inv (snd (agent_unsubscribe a domain s))"
proof (cases "slot_get (agent_list s) a")
  case (Some ag)
  have "agent_ok (ag\<lparr>ag_subscribers := btree_remove domain (ag_subscribers ag)\<rparr>)"
    using sni_invD(3) [OF inv Some] by (auto simp: agent_ok_def map_of_btree_remove split: if_splits)
  then have "sni_inv (put_agent a (ag\<lparr>ag_subscribers := btree_remove domain (ag_subscribers ag)\<rparr>) s)"
    using sni_invD(5) [OF inv Some]
    by (intro sni_inv_put_same [OF inv Some]) (auto simp: map_of_btree_remove split: if_splits)
  then show ?thesis using inv Some by (simp add: agent_unsubscribe_def split: option.split)
qed (use inv in \<open>simp add: agent_unsubscribe_def\<close>)

lemma put_agent_put_agent [simp]: "put_agent a ag' (put_agent a ag s) = put_agent a ag' s"
  by (simp add: put_agent_def)

text \<open>Removing the last subscription of a domain is unsubscribing from it.\<close>

lemma remove_last_sub:
  assumes "slot_get (agent_list s) a = Some ag" "map_of (ag_subscribers ag) domain = Some st"
    and "map_of (sub_subscriptions st) sid \<noteq> None" "btree_remove sid (sub_subscriptions st) = []"
  shows "remove_sub a domain sid s = agent_unsubscribe a domain s"
  using assms
  by (auto simp: remove_sub_def agent_unsubscribe_def slot_get_put map_of_put_sub Let_def)
    (simp add: put_sub_def btree_remove_insert)

lemma remove_sub_inv:
  assumes inv: "sni_inv s" shows "sni_inv (snd (remove_sub a domain sid s))"
proof (cases "\<exists>ag st. slot_get (agent_list s) a = Some ag \<and> map_of (ag_subscribers ag) domain = Some st \<and>
    map_of (sub_subscriptions st) sid \<noteq> None")
  case True
  then obtain ag st where ag: "slot_get (agent_list s) a = Some ag"
    and st: "map_of (ag_subscribers ag) domain = Some st" and m: "map_of (sub_subscriptions st) sid \<noteq> None"
    by auto
  define st' where "st' = st\<lparr>sub_subscriptions := btree_remove sid (sub_subscriptions st)\<rparr>"
  show ?thesis
  proof (cases "btree_remove sid (sub_subscriptions st) = []")
    case True
    show ?thesis unfolding remove_last_sub [OF ag st m True] by (rule unsubscribe_inv [OF inv])
  next
    case False
    have "sub_ok s a domain st'"
      using sni_invD(5) [OF inv ag st] False btree_remove_subset [of sid "sub_subscriptions st"]
      by (auto simp: sub_ok_def st'_def)
    moreover have "agent_ok (put_sub domain st' ag)"
      using agent_okD [OF sni_invD(3) [OF inv ag] _ st]
      by (intro agent_ok_put_sub sni_invD(3) [OF inv ag]) (simp add: st'_def)
    ultimately have "sni_inv (put_agent a (put_sub domain st' ag) s)"
      using sni_invD(5) [OF inv ag]
      by (intro sni_inv_put_same [OF inv ag]) (auto simp: map_of_put_sub split: if_splits)
    with False show ?thesis using ag st m by (auto simp: remove_sub_def st'_def Let_def)
  qed
qed (use inv in \<open>auto simp: remove_sub_def split: option.splits\<close>)

text \<open>Changing what a receiver holds.\<close>

lemma sub_rx_inv:
  assumes inv: "sni_inv s" and same: "sb_agent b = sb_agent (subs s ! n)" "sb_domain b = sb_domain (subs s ! n)"
    and r: "\<forall>c \<in> set (sb_rx b). conn_name c = sb_domain b"
  shows "sni_inv (s\<lparr>subs := (subs s)[n := b]\<rparr>)"
proof (rule sni_inv_buffers [OF inv])
  show "extends s (s\<lparr>subs := (subs s)[n := b]\<rparr>)"
    using same by (simp add: extends_def nth_update_lt)
  have "set ((subs s)[n := b]) \<subseteq> insert b (set (subs s))" by (rule set_update_subset_insert)
  then show "routed (s\<lparr>subs := (subs s)[n := b]\<rparr>)"
    using sni_invD(4) [OF inv] r by (fastforce simp: routed_def)
qed (use sni_invD(1) [OF inv] in \<open>simp_all add: served_def forwards_def\<close>)

lemma forwarder_rx_inv:
  assumes inv: "sni_inv s" and r: "\<forall>c \<in> set rx. conn_name c = fw_domain (forwarders s ! t)"
  shows "sni_inv (s\<lparr>forwarders := (forwarders s)[t := (forwarders s ! t)\<lparr>fw_rx := rx\<rparr>]\<rparr>)"
    (is "sni_inv ?s")
proof (rule sni_inv_buffers [OF inv])
  show "extends s ?s" by (simp add: extends_def nth_update_lt)
  have "set (forwarders ?s) \<subseteq> insert ((forwarders s ! t)\<lparr>fw_rx := rx\<rparr>) (set (forwarders s))"
    using set_update_subset_insert [of "forwarders s"] by simp
  then show "routed ?s" using sni_invD(4) [OF inv] r by (fastforce simp: routed_def)
  have "forwards ?s = forwards s" by (auto simp: forwards_def fun_eq_iff nth_update_lt split: if_splits)
  then show "\<And>d t'. served ?s d = Some t' \<longleftrightarrow> forwards ?s t' d"
    using sni_invD(1) [OF inv] by (simp add: served_def)
qed simp

lemma subs_remove_sub: "subs (snd (remove_sub a domain sid s)) = subs s"
  by (simp add: remove_sub_def agent_unsubscribe_def Let_def split: option.split)

lemma drop_subscription_inv: "sni_inv s \<Longrightarrow> sni_inv (drop_subscription n s)"
  unfolding drop_subscription_def Let_def
  by (rule sub_rx_inv [OF remove_sub_inv]) (simp_all add: subs_remove_sub)

lemma routed_sub: "routed s \<Longrightarrow> n < length (subs s) \<Longrightarrow> c \<in> set (sb_rx (subs s ! n)) \<Longrightarrow> conn_name c = sb_domain (subs s ! n)"
  using nth_mem by (fastforce simp: routed_def)

lemma routed_forwarder:
  "routed s \<Longrightarrow> t < length (forwarders s) \<Longrightarrow> c \<in> set (fw_rx (forwarders s ! t)) \<Longrightarrow> conn_name c = fw_domain (forwarders s ! t)"
  using nth_mem by (fastforce simp: routed_def)

lemma sub_next_inv:
  assumes "sni_inv s" "n < length (subs s)" shows "sni_inv (snd (sub_next n s))"
proof (cases "sb_rx (subs s ! n)")
  case (Cons c rest)
  have "\<forall>c \<in> set rest. conn_name c = sb_domain (subs s ! n)"
    using routed_sub [OF sni_invD(4) [OF assms(1)] assms(2)] Cons by simp
  then have "sni_inv (s\<lparr>subs := (subs s)[n := (subs s ! n)\<lparr>sb_rx := rest\<rparr>]\<rparr>)"
    by (intro sub_rx_inv [OF assms(1)]) simp_all
  with Cons show ?thesis by (simp add: sub_next_def)
qed (use assms in \<open>simp add: sub_next_def\<close>)

lemma dispatch_inv:
  assumes inv: "sni_inv s" and name: "conn_name conn = domain"
  shows "sni_inv (snd (dispatch_connection now outcome a domain conn s))"
proof (cases "\<exists>ag st. slot_get (agent_list s) a = Some ag \<and> map_of (ag_subscribers ag) domain = Some st")
  case True
  then obtain ag st where ag: "slot_get (agent_list s) a = Some ag"
    and st: "map_of (ag_subscribers ag) domain = Some st" by auto
  note ok = sni_invD(5) [OF inv ag st]
  show ?thesis
  proof (cases "reuse_subscriber ag")
    case True
    from ok obtain sid n rest where sub: "sub_subscriptions st = (sid, n) # rest"
      by (cases "sub_subscriptions st") (auto simp: sub_ok_def)
    with ok have n: "n < length (subs s)" "sb_domain (subs s ! n) = domain" by (auto simp: sub_ok_def)
    have "sni_inv (s\<lparr>subs := (subs s)[n := (subs s ! n)\<lparr>sb_rx := sb_rx (subs s ! n) @ [conn]\<rparr>]\<rparr>)"
      using routed_sub [OF sni_invD(4) [OF inv] n(1)] n(2) name by (intro sub_rx_inv [OF inv]) auto
    then have "sni_inv (snd (sub_send outcome n conn s))"
      using inv by (cases outcome) (simp_all add: sub_send_def)
    then show ?thesis by (simp add: dispatch_connection_def ag st True sub)
  next
    case False
    let ?st = "st\<lparr>sub_queue := sub_queue st @ [(now, conn)]\<rparr>"
    let ?ag = "(put_sub domain ?st ag)\<lparr>create_calls := create_calls ag + 1\<rparr>"
    have "sub_ok s a domain ?st" using ok name by (auto simp: sub_ok_def)
    then have "sni_inv (put_agent a ?ag s)"
      using sni_invD(5) [OF inv ag] False
      by (intro sni_inv_put_same [OF inv ag]) (auto simp: map_of_put_sub agent_ok_def split: if_splits)
    then show ?thesis by (simp add: dispatch_connection_def ag st False)
  qed
qed (use inv in \<open>auto simp: dispatch_connection_def split: option.splits\<close>)

lemma end_forwarder_inv:
  assumes inv: "sni_inv s" and t: "t < length (forwarders s)" "fw_live (forwarders s ! t)"
    and free: "\<And>a d st. sub_state s a d = Some st \<Longrightarrow> sub_cancel st \<noteq> t"
  shows "sni_inv (end_forwarder t s)" (is "sni_inv ?s")
proof -
  let ?d = "fw_domain (forwarders s ! t)"
  have t_d: "forwards s t ?d" using t by (simp add: forwards_def)
  have fw: "forwards ?s t' d \<longleftrightarrow> forwards s t' d \<and> t' \<noteq> t" for t' d
    using t by (auto simp: end_forwarder_def forwards_def nth_list_update)
  have serv: "served ?s d = (if d = ?d then None else served s d)" for d
    by (simp add: end_forwarder_def served_def sni_drop_def hash.lookup_remove)
  have "served ?s d = Some t' \<longleftrightarrow> forwards ?s t' d" for d t'
    using sni_invD(1) [OF inv] t_d unfolding fw serv
    by (metis forwards_def option.distinct(1) option.inject)
  moreover have "sub_ok ?s a d st" if "sub_state ?s a d = Some st" for a d st
  proof -
    have s: "sub_state s a d = Some st" using that by (simp add: end_forwarder_def sub_state_def)
    from sni_invD(2) [OF inv s] free [OF s] show ?thesis
      unfolding sub_ok_def fw by (simp add: end_forwarder_def)
  qed
  moreover have "routed ?s"
    using sni_invD(4) [OF inv] set_update_subset_insert [of "forwarders s" t]
    by (fastforce simp: routed_def end_forwarder_def)
  ultimately show ?thesis using sni_invD(3) [OF inv] by (simp add: sni_inv_def end_forwarder_def)
qed

lemma sub_state_not_cancelled:
  assumes "sub_state s a d = Some st" shows "\<not> forwarder_cancelled (sub_cancel st) s"
proof -
  from assms obtain ag where "slot_get (agent_list s) a = Some ag" and st: "map_of (ag_subscribers ag) d = Some st"
    by (auto simp: sub_state_def split: option.splits)
  then have "Some ag \<in> set (agent_list s)" by (metis slot_get_SomeD nth_mem)
  with map_of_SomeD [OF st] show ?thesis by (fastforce simp: forwarder_cancelled_def list_all_iff)
qed

lemma forwards_not_dropped:
  assumes "sni_inv s" "forwards s t d" shows "\<not> sender_dropped t s"
  using assms sni_invD(1) [OF assms(1), of d t]
  by (fastforce simp: served_def sender_dropped_def list_all_iff dest: map_of_SomeD)

lemma forward_next_inv:
  assumes inv: "sni_inv s" and t: "t < length (forwarders s)" "fw_live (forwarders s ! t)"
  shows "sni_inv (forward_next now outcome t s)"
proof (cases "fw_rx (forwarders s ! t)")
  case (Cons conn rest)
  let ?f = "forwarders s ! t"
  let ?s1 = "s\<lparr>forwarders := (forwarders s)[t := ?f\<lparr>fw_rx := rest\<rparr>]\<rparr>"
  have names: "\<forall>c \<in> set (conn # rest). conn_name c = fw_domain ?f"
    using routed_forwarder [OF sni_invD(4) [OF inv] t(1)] Cons by simp
  then have inv1: "sni_inv ?s1" by (intro forwarder_rx_inv [OF inv]) simp
  show ?thesis
  proof (cases "slot_get (agent_list s) (fw_agent ?f)")
    case None
    have "sub_cancel st \<noteq> t" if st: "sub_state ?s1 a d = Some st" for a d st
      using sni_invD(2) [OF inv1 st] st None t by (auto simp: sub_ok_def sub_state_def)
    then have "sni_inv (end_forwarder t ?s1)" using t by (intro end_forwarder_inv [OF inv1]) simp_all
    with Cons None show ?thesis by (simp add: forward_next_def Let_def)
  next
    case (Some ag)
    with Cons names dispatch_inv [OF inv1, of conn "fw_domain ?f"] show ?thesis
      by (simp add: forward_next_def Let_def)
  qed
qed (use inv in \<open>simp add: forward_next_def\<close>)

lemma check_timeouts_inv:
  assumes inv: "sni_inv s" shows "sni_inv (check_timeouts now t s)"
proof (cases "\<exists>ag st. slot_get (agent_list s) (fw_agent (forwarders s ! t)) = Some ag \<and>
    map_of (ag_subscribers ag) (fw_domain (forwarders s ! t)) = Some st")
  case True
  then obtain ag st where ag: "slot_get (agent_list s) (fw_agent (forwarders s ! t)) = Some ag"
    and st: "map_of (ag_subscribers ag) (fw_domain (forwarders s ! t)) = Some st" by auto
  let ?st = "clear_timeout_connections now (connect_timeout ag) st"
  have "sub_ok s (fw_agent (forwarders s ! t)) (fw_domain (forwarders s ! t)) ?st"
    using sni_invD(5) [OF inv ag st] by (auto simp: sub_ok_def clear_timeout_connections_def)
  moreover have "agent_ok (put_sub (fw_domain (forwarders s ! t)) ?st ag)"
    using agent_okD [OF sni_invD(3) [OF inv ag] _ st]
    by (intro agent_ok_put_sub sni_invD(3) [OF inv ag]) (simp add: clear_timeout_connections_def)
  ultimately have "sni_inv (put_agent (fw_agent (forwarders s ! t)) (put_sub (fw_domain (forwarders s ! t)) ?st ag) s)"
    using sni_invD(5) [OF inv ag]
    by (intro sni_inv_put_same [OF inv ag]) (auto simp: map_of_put_sub split: if_splits)
  with ag st show ?thesis by (simp add: check_timeouts_def Let_def)
qed (use inv in \<open>auto simp: check_timeouts_def Let_def split: option.splits\<close>)

text \<open>The arm for a closed channel is never taken: the receiver of a subscriber is alive.\<close>

lemma serve_incoming_Closed_unreachable:
  assumes inv: "sni_inv s"
    and live: "closed_if_dropped s outcome"
  shows "snd (serve_incoming permit handshake outcome (listener s)) = listener s"
    and "fst (serve_incoming permit handshake outcome (listener s)) = Some (t, conn) \<Longrightarrow> forwards s t (conn_name conn)"
proof -
  have "outcome (si_tx info) \<noteq> SendClosed \<and> forwards s (si_tx info) d"
    if "map_of (sni_subscribers (listener s)) d = Some info" for d info
    using sni_invD(1) [OF inv, of d "si_tx info"] that live by (auto simp: served_def forwards_def closed_if_dropped_def)
  then show "snd (serve_incoming permit handshake outcome (listener s)) = listener s"
    and "fst (serve_incoming permit handshake outcome (listener s)) = Some (t, conn) \<Longrightarrow> forwards s t (conn_name conn)"
    by (auto simp: serve_incoming_def conn_name_def Let_def split: option.splits send_outcome.splits if_splits)
qed

lemma accept_connection_inv:
  assumes inv: "sni_inv s"
    and live: "closed_if_dropped s outcome"
  shows "sni_inv (accept_connection permit handshake outcome s)"
proof -
  obtain r l where r: "serve_incoming permit handshake outcome (listener s) = (r, l)" by force
  note unreachable = serve_incoming_Closed_unreachable [OF inv live]
  have l: "l = listener s" using unreachable(1) [where permit = permit and handshake = handshake] r by simp
  show ?thesis
  proof (cases r)
    case (Some p)
    obtain t conn where p: "p = (t, conn)" by force
    from unreachable(2) [where permit = permit and handshake = handshake and t = t and conn = conn] r Some p have "forwards s t (conn_name conn)" by simp
    then have "\<forall>c \<in> set (fw_rx (forwarders s ! t) @ [conn]). conn_name c = fw_domain (forwarders s ! t)"
      using routed_forwarder [OF sni_invD(4) [OF inv]] by (auto simp: forwards_def)
    from forwarder_rx_inv [OF inv this] show ?thesis
      by (simp add: accept_connection_def r Some p l)
  qed (use inv in \<open>simp add: accept_connection_def r l\<close>)
qed

text \<open>Adding and dropping agents.\<close>

lemma sni_inv_agents:
  assumes inv: "sni_inv s"
    and sub: "\<And>a d st. sub_state (s\<lparr>agent_list := as\<rparr>) a d = Some st \<Longrightarrow> sub_state s a d = Some st"
    and ok: "\<And>a ag. slot_get as a = Some ag \<Longrightarrow> agent_ok ag"
  shows "sni_inv (s\<lparr>agent_list := as\<rparr>)" (is "sni_inv ?s")
proof -
  have eqs: "served ?s = served s" "forwards ?s = forwards s" "sub_ok ?s = sub_ok s" "routed ?s = routed s"
    by (simp_all add: served_def forwards_def sub_ok_def routed_def fun_eq_iff)
  have "\<forall>a d st. sub_state ?s a d = Some st \<longrightarrow> sub_ok s a d st"
    using sni_invD(2) [OF inv] sub by blast
  moreover have "\<forall>a ag. slot_get (agent_list ?s) a = Some ag \<longrightarrow> agent_ok ag" using ok by simp
  moreover have "\<forall>d t. served s d = Some t \<longleftrightarrow> forwards s t d" using sni_invD(1) [OF inv] by blast
  ultimately show ?thesis using sni_invD(4) [OF inv] unfolding sni_inv_def eqs by blast
qed

lemma new_agent_inv:
  assumes inv: "sni_inv s"
  shows "sni_inv (s\<lparr>agent_list := agent_list s @ [Some (agent_new reuse timeout)]\<rparr>)"
proof (rule sni_inv_agents [OF inv])
  fix a ag assume "slot_get (agent_list s @ [Some (agent_new reuse timeout)]) a = Some ag"
  then show "agent_ok ag"
    using sni_invD(3) [OF inv] by (auto simp: slot_get_append agent_ok_def agent_new_def split: if_splits)
qed (auto simp: sub_state_def slot_get_append agent_new_def split: if_splits)

lemma drop_agent_inv:
  assumes inv: "sni_inv s" shows "sni_inv (s\<lparr>agent_list := slot_free a (agent_list s)\<rparr>)"
proof (rule sni_inv_agents [OF inv])
  fix b ag assume "slot_get (slot_free a (agent_list s)) b = Some ag"
  then show "agent_ok ag" using sni_invD(3) [OF inv] by (auto simp: slot_get_free split: if_splits)
qed (auto simp: sub_state_def slot_get_free split: if_splits)

lemma end_allowed:
  assumes "sni_inv s" "t < length (forwarders s)" "fw_live (forwarders s ! t)"
    and "forwarder_cancelled t s \<or> (sender_dropped t s \<and> fw_rx (forwarders s ! t) = [])"
  shows "sni_inv (end_forwarder t s)"
proof (rule end_forwarder_inv [OF assms(1-3)])
  fix a d st assume "sub_state s a d = Some st"
  then have "\<not> forwarder_cancelled (sub_cancel st) s" by (rule sub_state_not_cancelled)
  moreover have "\<not> sender_dropped t s"
    using assms(2,3) by (intro forwards_not_dropped [OF assms(1)]) (auto simp: forwards_def)
  ultimately show "sub_cancel st \<noteq> t" using assms(4) by auto
qed

lemma sni_step_inv:
  assumes "sni_step tls s s'" "sni_inv s" shows "sni_inv s'"
  using assms
proof cases
  case on_agent show ?thesis unfolding on_agent(1) by (rule new_agent_inv) (use assms on_agent in simp_all)
next
  case on_subscribe show ?thesis unfolding on_subscribe(1) by (rule subscribe_inv) (use assms on_subscribe in simp_all)
next
  case on_unsubscribe show ?thesis unfolding on_unsubscribe(1) by (rule unsubscribe_inv) (use assms on_unsubscribe in simp_all)
next
  case on_drop_agent show ?thesis unfolding on_drop_agent(1) by (rule drop_agent_inv) (use assms on_drop_agent in simp_all)
next
  case on_drop_subscription show ?thesis unfolding on_drop_subscription(1) by (rule drop_subscription_inv) (use assms on_drop_subscription in simp_all)
next
  case on_next show ?thesis unfolding on_next(1) by (rule sub_next_inv) (use assms on_next in simp_all)
next
  case (on_incoming try_send permit handshake)
  show ?thesis unfolding on_incoming(1) by (rule accept_connection_inv [OF assms(2) on_incoming(2)])
next
  case on_forward show ?thesis unfolding on_forward(1) by (rule forward_next_inv) (use assms on_forward in simp_all)
next
  case on_timeouts show ?thesis unfolding on_timeouts(1) by (rule check_timeouts_inv) (use assms on_timeouts in simp_all)
next
  case on_end show ?thesis unfolding on_end(1) by (rule end_allowed) (use assms on_end in simp_all)
qed

interpretation sni: invariant_system "\<lambda>s. \<exists>verify. s = sni_new verify" "sni_step tls" sni_inv
  by unfold_locales (auto intro: sni_new_inv sni_step_inv)

section \<open>Ownership of domains\<close>

lemma sub_state_served: "sni_inv s \<Longrightarrow> sub_state s a d = Some st \<Longrightarrow> served s d = Some (sub_cancel st)"
  using sni_invD(1,2) by (auto simp: sub_ok_def)

lemma sub_state_unique:
  assumes inv: "sni_inv s" and "sub_state s a d = Some st" "sub_state s b d = Some st'"
  shows "b = a"
proof -
  have "sub_cancel st = sub_cancel st'"
    using sub_state_served [OF inv assms(2)] sub_state_served [OF inv assms(3)] by simp
  with sni_invD(2) [OF inv assms(2)] sni_invD(2) [OF inv assms(3)] show ?thesis by (simp add: sub_ok_def)
qed

lemma sni_subscribe_taken:
  "map_of (sni_subscribers l) d \<noteq> None \<Longrightarrow> \<not> is_ok (fst (sni_subscribe tls d key tx l))"
  by (auto simp: sni_subscribe_def split: result.splits)

lemma subscribe_taken:
  assumes inv: "sni_inv s" and st: "sub_state s a d = Some st" and b: "b \<noteq> a"
  shows "\<not> is_ok (fst (agent_subscribe tls outcome b d key s)) \<and> snd (agent_subscribe tls outcome b d key s) = s"
proof (cases "slot_get (agent_list s) b")
  case (Some ag)
  have none: "map_of (ag_subscribers ag) d = None"
    using sub_state_unique [OF inv st] b sub_stateI [OF Some] by (cases "map_of (ag_subscribers ag) d") auto
  obtain r l where r: "sni_subscribe tls d key (length (forwarders s)) (listener s) = (r, l)" by force
  have "map_of (sni_subscribers (listener s)) d \<noteq> None"
    using sub_state_served [OF inv st] by (auto simp: served_def)
  from sni_subscribe_taken [OF this, of tls key "length (forwarders s)"] r obtain e where e: "r = Err e"
    by (cases r) auto
  have "snd (agent_subscribe tls outcome b d key s) = s"
    by (rule subscribe_unchanged) (simp add: Some none r e)
  then show ?thesis by (simp add: agent_subscribe_def Some none r e)
qed (simp add: agent_subscribe_def)

lemma listener_subscribe_other:
  assumes "d' \<noteq> d"
  shows "resolve (Some d) (listener (snd (agent_subscribe tls outcome b d' key s))) = resolve (Some d) (listener s)"
proof -
  have u: "map_of (sni_subscribers (snd (update_key tls d' key l))) d = map_of (sni_subscribers l) d" for l
    using assms by (auto simp: update_key_def hash.lookup_insert split: result.splits option.splits)
  have n: "map_of (sni_subscribers (snd (sni_subscribe tls d' key tx l))) d = map_of (sni_subscribers l) d" for tx l
    using assms by (auto simp: sni_subscribe_def hash.lookup_insert split: result.splits)
  show ?thesis
    using u [of "listener s"] n [of "length (forwarders s)" "listener s"]
    by (auto simp: agent_subscribe_def resolve_def sub_channel_def Let_def split: option.splits prod.splits result.splits)
qed

subsection \<open>An example\<close>

definition demo_rustls :: Rustls where
  "demo_rustls =
     \<lparr> read_certs = (\<lambda>_. [Ok [1]]), read_items = (\<lambda>_. [Ok (Pkcs8Key [2])]), key_provider = Some (\<lambda>_. Ok 7),
       server_verifier = None, server_name_of = (\<lambda>_. Some 0), keys_match = (\<lambda>_. True), unix_now = 0 \<rparr>"

definition demo_key :: CertifiedKey where
  "demo_key = \<lparr> ck_cert = [[1]], ck_key = 7, ck_ocsp = None \<rparr>"

definition demo_conn :: Connection where
  "demo_conn = \<lparr> conn_stream = 4, conn_server_name = Some ''a.example'', remote_addr = ''10.0.0.1:999'' \<rparr>"

text \<open>
  An agent that does not reuse subscribers has subscribed to a domain and a connection for it was
  forwarded, which waits in its queue; in the second state the agent reuses its subscriber.
\<close>

definition demo_sni :: "bool \<Rightarrow> Sni" where
  "demo_sni reuse =
     (let s0 = sni_new False;
          s1 = s0\<lparr>agent_list := agent_list s0 @ [Some (agent_new reuse 5000)]\<rparr>;
          s2 = snd (agent_subscribe demo_rustls Sent 0 ''a.example'' demo_key s1);
          s3 = accept_connection True (Some demo_conn) (\<lambda>_. Sent) s2
      in forward_next 10 Sent 0 s3)"

lemmas demo_sni_defs = demo_sni_def sni_new_def sni_bind_def agent_new_def agent_subscribe_def sni_subscribe_def
  check_key_def sub_channel_def put_agent_def put_sub_def sub_state_new_def accept_connection_def
  serve_incoming_def unwrap_name_def demo_conn_def forward_next_def dispatch_connection_def sub_send_def
  slot_get_def hash_insert_def Let_def

lemma demo_sni_reachable: "(sni_step demo_rustls)\<^sup>*\<^sup>* (sni_new False) (demo_sni reuse)"
proof -
  define s1 where "s1 = (sni_new False)\<lparr>agent_list := agent_list (sni_new False) @ [Some (agent_new reuse 5000)]\<rparr>"
  define s2 where "s2 = snd (agent_subscribe demo_rustls Sent 0 ''a.example'' demo_key s1)"
  define s3 where "s3 = accept_connection True (Some demo_conn) (\<lambda>_. Sent) s2"
  have 1: "sni_step demo_rustls (sni_new False) s1" unfolding s1_def by (rule on_agent)
  have 2: "sni_step demo_rustls s1 s2" unfolding s2_def by (rule on_subscribe)
  have 3: "sni_step demo_rustls s2 s3" unfolding s3_def by (rule on_incoming) (simp add: closed_if_dropped_def)
  have "0 < length (forwarders s3) \<and> fw_live (forwarders s3 ! 0)"
    by (simp add: s1_def s2_def s3_def demo_sni_defs)
  then have 4: "sni_step demo_rustls s3 (forward_next 10 Sent 0 s3)" by (intro on_forward) simp_all
  have "demo_sni reuse = forward_next 10 Sent 0 s3" by (simp add: demo_sni_def s1_def s2_def s3_def Let_def)
  with 1 2 3 4 show ?thesis by (simp add: rtranclp.rtrancl_into_rtrancl)
qed

lemma demo_sni_sub_state:
  "sub_state (demo_sni False) 0 ''a.example'' =
     Some \<lparr> sub_queue = [(10, demo_conn)], sub_subscriptions = [(0, 0)], sub_cancel = 0 \<rparr>"
  by (simp add: sub_state_def demo_sni_defs)

section \<open>Theorems\<close>

text \<open>
  C34: In every state that agents, forwarding tasks, clients and the listener can reach, a domain
  belongs to at most one agent: while an agent is subscribed to it the listener has a key for it,
  every attempt of another agent to subscribe to it fails and changes nothing, and no subscription
  of another agent, to any domain, changes the key its connections are accepted with.
\<close>

theorem domain_has_one_owner:
  assumes "(sni_step tls)\<^sup>*\<^sup>* (sni_new verify) s" and "sub_state s a d = Some st" and "b \<noteq> a"
  shows "sub_state s b d = None
    \<and> resolve (Some d) (listener s) \<noteq> None
    \<and> \<not> is_ok (fst (agent_subscribe tls outcome b d key s))
    \<and> snd (agent_subscribe tls outcome b d key s) = s
    \<and> resolve (Some d) (listener (snd (agent_subscribe tls outcome b d' key s))) = resolve (Some d) (listener s)"
proof -
  have inv: "sni_inv s" using sni.reachable_inv assms(1) by blast
  have "sub_state s b d = None"
    using sub_state_unique [OF inv assms(2)] assms(3) by (cases "sub_state s b d") auto
  moreover have "resolve (Some d) (listener s) \<noteq> None"
    using sub_state_served [OF inv assms(2)] by (auto simp: served_def resolve_def)
  ultimately show ?thesis
    using subscribe_taken [OF inv assms(2,3)] listener_subscribe_other by (cases "d' = d") simp_all
qed

theorem domain_has_one_owner_witness:
  "sub_state (demo_sni False) 0 ''a.example'' \<noteq> None \<and>
   \<not> is_ok (fst (agent_subscribe demo_rustls Sent 1 ''a.example'' demo_key (demo_sni False)))"
  using domain_has_one_owner [OF demo_sni_reachable demo_sni_sub_state, of 1 Sent demo_key]
  by (simp add: demo_sni_sub_state)

text \<open>
  C35: Connections reach only subscribers of the name the client asked for: in every reachable
  state a connection taken from a subscription has the subscription's domain as its server name,
  and so has every connection that waits in an agent. An agent that reuses its
  subscribers never lets a connection wait and never asks for a new instance. The listener never
  finds the channel of a subscriber closed, so it removes no subscriber by itself.
\<close>

theorem connections_follow_their_name:
  assumes "(sni_step tls)\<^sup>*\<^sup>* (sni_new verify) s"
  shows "(n < length (subs s) \<and> fst (sub_next n s) = Some conn \<longrightarrow> conn_name conn = sb_domain (subs s ! n))
    \<and> (sub_state s a d = Some st \<longrightarrow> (\<forall>c \<in> snd ` set (sub_queue st). conn_name c = d))
    \<and> (slot_get (agent_list s) a = Some ag \<and> reuse_subscriber ag \<longrightarrow>
        create_calls ag = 0 \<and> (\<forall>d st. sub_state s a d = Some st \<longrightarrow> sub_queue st = []))
    \<and> (closed_if_dropped s try_send \<longrightarrow> snd (serve_incoming permit handshake try_send (listener s)) = listener s)"
proof -
  have inv: "sni_inv s" using sni.reachable_inv assms(1) by blast
  have "conn_name conn = sb_domain (subs s ! n)" if "n < length (subs s)" "fst (sub_next n s) = Some conn"
    using routed_sub [OF sni_invD(4) [OF inv] that(1), of conn] that(2)
    by (auto simp: sub_next_def split: list.splits)
  moreover have "\<forall>c \<in> snd ` set (sub_queue st). conn_name c = d" if "sub_state s a d = Some st"
    using sni_invD(2) [OF inv that] by (simp add: sub_ok_def)
  moreover have "create_calls ag = 0 \<and> (\<forall>d st. sub_state s a d = Some st \<longrightarrow> sub_queue st = [])"
    if "slot_get (agent_list s) a = Some ag" "reuse_subscriber ag"
    using sni_invD(3) [OF inv that(1)] that by (auto simp: agent_ok_def sub_state_def)
  ultimately show ?thesis using serve_incoming_Closed_unreachable(1) [OF inv] by blast
qed

theorem connections_follow_their_name_witness:
  "fst (sub_next 0 (demo_sni True)) = Some demo_conn \<and> conn_name demo_conn = sb_domain (subs (demo_sni True) ! 0)"
proof -
  have "fst (sub_next 0 (demo_sni True)) = Some demo_conn" "0 < length (subs (demo_sni True))"
    by (simp_all add: sub_next_def demo_sni_defs)
  with connections_follow_their_name [OF demo_sni_reachable, of 0 True demo_conn] show ?thesis by simp
qed

text \<open>
  How the worker uses the agents without reuse: every started instance has an agent of its own, and a guest that
  listens on a domain subscribes to it once. \<open>lone_step\<close> is a step after which no agent reuses its subscribers and
  in which no agent that is subscribed to a domain subscribes to it again.
\<close>

definition no_reuse :: "Sni \<Rightarrow> bool" where
  "no_reuse s \<longleftrightarrow> (\<forall>ag. Some ag \<in> set (agent_list s) \<longrightarrow> \<not> reuse_subscriber ag)"

definition subscribes_once :: "Sni \<Rightarrow> Sni \<Rightarrow> bool" where
  "subscribes_once s s' \<longleftrightarrow>
     (\<forall>sub \<in> set (drop (length (subs s)) (subs s')). sub_state s (sb_agent sub) (sb_domain sub) = None)"

definition lone_step :: "Rustls \<Rightarrow> Sni \<Rightarrow> Sni \<Rightarrow> bool" where
  "lone_step tls s s' \<longleftrightarrow> sni_step tls s s' \<and> no_reuse s' \<and> subscribes_once s s'"

definition nothing_sent :: "Sni \<Rightarrow> bool" where
  "nothing_sent s \<longleftrightarrow> (\<forall>sub \<in> set (subs s). sb_rx sub = [])"

lemma nothing_sent_subscribe:
  assumes "nothing_sent s" "subscribes_once s (snd (agent_subscribe tls outcome a d key s))"
  shows "nothing_sent (snd (agent_subscribe tls outcome a d key s))"
proof (cases "sub_state s a d")
  case None
  with assms(1) show ?thesis
    by (auto simp: agent_subscribe_def sub_state_def nothing_sent_def sub_channel_def put_agent_def Let_def
        split: option.splits result.splits prod.splits)
next
  case (Some st)
  then obtain ag where ag: "slot_get (agent_list s) a = Some ag" "map_of (ag_subscribers ag) d = Some st"
    by (auto simp: sub_state_def split: option.splits)
  with assms Some show ?thesis
    by (auto simp: agent_subscribe_def subscribes_once_def nothing_sent_def sub_channel_def put_agent_def Let_def
        split: result.splits prod.splits)
qed

lemma nothing_sent_forward:
  assumes "nothing_sent s" "no_reuse s" shows "nothing_sent (forward_next now outcome t s)"
proof -
  have "\<not> reuse_subscriber ag" if "slot_get (agent_list s) a = Some ag" for a ag
    using assms(2) that slot_get_SomeD [OF that] nth_mem by (metis no_reuse_def)
  with assms(1) show ?thesis
    by (auto simp: forward_next_def dispatch_connection_def end_forwarder_def nothing_sent_def put_agent_def Let_def
        split: list.splits option.splits)
qed

lemma lone_step_keeps:
  assumes "lone_step tls s s'" "no_reuse s" "nothing_sent s" shows "no_reuse s' \<and> nothing_sent s'"
proof -
  from assms(1) have step: "sni_step tls s s'" and s': "no_reuse s'" "subscribes_once s s'" by (simp_all add: lone_step_def)
  from step have "nothing_sent s'"
  proof cases
    case on_subscribe
    with s'(2) assms(3) show ?thesis using nothing_sent_subscribe by simp
  next
    case on_forward
    with assms(2,3) show ?thesis using nothing_sent_forward by simp
  next
    case (on_drop_subscription n)
    then show ?thesis using assms(3)
      by (auto simp: drop_subscription_def nothing_sent_def subs_remove_sub Let_def dest!: subsetD [OF set_update_subset_insert])
  next
    case (on_next n)
    then show ?thesis using assms(3) nth_mem [of n "subs s"] by (simp add: sub_next_def nothing_sent_def)
  qed (use assms(3) in \<open>auto simp: nothing_sent_def agent_unsubscribe_def put_agent_def accept_connection_def check_timeouts_def
      end_forwarder_def Let_def split: option.splits prod.splits\<close>)
  with s'(1) show ?thesis by simp
qed

text \<open>
  C37: Without reuse no connection is ever served: when every instance has its own agent and subscribes to a domain at
  most once, then whatever connections arrive, are forwarded, wait or time out, and whatever instances are
  started for them, no subscription ever receives a connection.
\<close>

theorem lone_agents_receive_nothing:
  assumes "(lone_step tls)\<^sup>*\<^sup>* (sni_new verify) s" "n < length (subs s)"
  shows "fst (sub_next n s) = None"
proof -
  have "no_reuse s \<and> nothing_sent s"
    using assms(1)
  proof (induction rule: rtranclp_induct)
    case base
    show ?case by (simp add: sni_new_def no_reuse_def nothing_sent_def)
  qed (blast dest: lone_step_keeps)
  with assms(2) have "sb_rx (subs s ! n) = []" by (simp add: nothing_sent_def)
  then show ?thesis by (simp add: sub_next_def)
qed

theorem lone_agents_receive_nothing_witness:
  "sub_queue (the (sub_state (demo_sni False) 0 ''a.example'')) = [(10, demo_conn)] \<and> 0 < length (subs (demo_sni False)) \<and>
   fst (sub_next 0 (demo_sni False)) = None"
proof -
  define s1 where "s1 = (sni_new False)\<lparr>agent_list := agent_list (sni_new False) @ [Some (agent_new False 5000)]\<rparr>"
  define s2 where "s2 = snd (agent_subscribe demo_rustls Sent 0 ''a.example'' demo_key s1)"
  define s3 where "s3 = accept_connection True (Some demo_conn) (\<lambda>_. Sent) s2"
  note defs = s1_def s2_def s3_def demo_sni_defs no_reuse_def subscribes_once_def sub_state_def
  have 1: "sni_step demo_rustls (sni_new False) s1" unfolding s1_def by (rule on_agent)
  have 2: "sni_step demo_rustls s1 s2" unfolding s2_def by (rule on_subscribe)
  have 3: "sni_step demo_rustls s2 s3" unfolding s3_def by (rule on_incoming) (simp add: closed_if_dropped_def)
  have "0 < length (forwarders s3) \<and> fw_live (forwarders s3 ! 0)" by (simp add: defs)
  then have 4: "sni_step demo_rustls s3 (forward_next 10 Sent 0 s3)" by (intro on_forward) simp_all
  have d: "demo_sni False = forward_next 10 Sent 0 s3" by (simp add: demo_sni_def s1_def s2_def s3_def Let_def)
  have "lone_step demo_rustls (sni_new False) s1" using 1 by (simp add: lone_step_def) (simp add: defs)
  moreover have "lone_step demo_rustls s1 s2" using 2 by (simp add: lone_step_def) (simp add: defs)
  moreover have "lone_step demo_rustls s2 s3" using 3 by (simp add: lone_step_def) (simp add: defs)
  moreover have "lone_step demo_rustls s3 (demo_sni False)" using 4 unfolding d by (simp add: lone_step_def) (simp add: defs)
  ultimately have "(lone_step demo_rustls)\<^sup>*\<^sup>* (sni_new False) (demo_sni False)"
    by (meson converse_rtranclp_into_rtranclp rtranclp.rtrancl_refl)
  moreover have "0 < length (subs (demo_sni False))" by (simp add: demo_sni_defs)
  ultimately show ?thesis using lone_agents_receive_nothing demo_sni_sub_state by auto
qed

end
