(* ===== verification/Query_Auth.thy ===== *)
theory Query_Auth
  imports Worker_Types
begin

text \<open>
  Who asks and how the worker's key is used (\<open>wapod-crypto/src\<close>): the signatures of queries by a
  root signer or through a certificate (\<open>query_signature.rs\<close>, \<open>eip712.rs\<close>, the types of
  \<open>wapod-types/src/crypto/query.rs\<close>), and the worker's key pair with signing and encrypted messages
  (\<open>sr25519.rs\<close>, \<open>aead.rs\<close>, \<open>ecdh.rs\<close>). Signature schemes, hash functions, curves, ciphers, the
  SCALE codec and the hashing of typed JSON data are libraries; their answers are the fields of
  \<open>SigLibs\<close> and \<open>KeyLibs\<close>.
\<close>

section \<open>Queries, certificates, signatures\<close>

record Query =
  q_address :: bytes
  q_path :: string
  q_payload :: bytes

datatype SignatureType =
    Ed25519 | Sr25519 | Ecdsa | Ed25519WrapBytes | Sr25519WrapBytes | EcdsaWrapBytes
  | Eip712 | EvmEcdsa | EvmEcdsaWrapBytes

record 's Signature =
  signature_type :: SignatureType
  sig_bytes :: bytes
  signer :: 's

record RootSigner =
  rs_pubkey :: bytes

record Scope =
  sco_app :: bytes
  sco_resources :: "string list"

record CertificateBody =
  cb_pubkey :: bytes
  cb_expiration :: u64
  cb_scopes :: "Scope list"

record Certificate =
  cert_body :: CertificateBody
  cert_signature :: "RootSigner Signature"

datatype RootOrCertificate = Root RootSigner | Cert Certificate

datatype verify_error =
    InvalidSignatureType | InvalidSignature | CertificateMissing | CertificateExpired
  | TooLongCertificateChain | DecodeFailed | InvalidPublicKey | Eip712EncodingError

datatype json = JString string | JArray "json list" | JObject "(string \<times> json) list"

datatype scheme = Ed25519Pair | Sr25519Pair | EcdsaPair

text \<open>
  The libraries: for each scheme whether bytes are a public key or a signature and whether a signature
  is valid; the two hash functions; the uncompressed form of a curve point; the recovery of a key
  from a signature; hexadecimal digits; the hash of typed data, if it is well-formed; and the SCALE
  encodings of a query and of a certificate's body.
\<close>

record SigLibs =
  public_ok :: "scheme \<Rightarrow> bytes \<Rightarrow> bool"
  signature_ok :: "scheme \<Rightarrow> bytes \<Rightarrow> bool"
  pair_verify :: "scheme \<Rightarrow> bytes \<Rightarrow> bytes \<Rightarrow> bytes \<Rightarrow> bool"
  sp_blake2_256 :: "bytes \<Rightarrow> bytes"
  sp_keccak_256 :: "bytes \<Rightarrow> bytes"
  serialize_uncompressed :: "bytes \<Rightarrow> bytes option"
  recover_prehashed :: "bytes \<Rightarrow> bytes \<Rightarrow> bytes option"
  hex_fmt :: "bytes \<Rightarrow> string"
  hash_structured_data :: "json \<Rightarrow> bytes option"
  encode_query :: "Query \<Rightarrow> bytes"
  encode_cert_body :: "CertificateBody \<Rightarrow> bytes"

section \<open>Verification\<close>

definition verify_sig :: "SigLibs \<Rightarrow> scheme \<Rightarrow> bytes \<Rightarrow> bytes \<Rightarrow> bytes \<Rightarrow> bool" where
  "verify_sig S T pubkey sig msg =
     (if \<not> public_ok S T pubkey then False
      else if \<not> signature_ok S T sig then False
      else pair_verify S T sig msg pubkey)"

definition sub_recover :: "SigLibs \<Rightarrow> scheme \<Rightarrow> bytes \<Rightarrow> bytes \<Rightarrow> bytes \<Rightarrow> (bytes, verify_error) result" where
  "sub_recover S T pubkey sig msg =
     (if \<not> public_ok S T pubkey then Err InvalidPublicKey
      else ok_or (if verify_sig S T pubkey sig msg then Some pubkey else None) InvalidSignature)"

definition bytes_of :: "string \<Rightarrow> bytes" where
  "bytes_of s = map (\<lambda>c. of_nat (of_char c)) s"

definition wrap_bytes :: "bytes \<Rightarrow> bytes" where
  "wrap_bytes msg = bytes_of ''<Bytes>'' @ msg @ bytes_of ''</Bytes>''"

text \<open>The signature is an array of 65 bytes; the last one may carry the offset 27.\<close>

definition evm_ecdsa_recover :: "SigLibs \<Rightarrow> bytes \<Rightarrow> bytes \<Rightarrow> (bytes, verify_error) result" where
  "evm_ecdsa_recover S sig message_hash =
     (let sig = (if sig ! 64 \<ge> 27 then sig[64 := sig ! 64 - 27] else sig)
      in ok_or (recover_prehashed S sig message_hash) InvalidSignature)"

definition evm_pubkey_to_address :: "SigLibs \<Rightarrow> bytes \<Rightarrow> (bytes, verify_error) result" where
  "evm_pubkey_to_address S pubkey =
     and_then (ok_or (serialize_uncompressed S pubkey) InvalidPublicKey) (\<lambda>raw.
       let h32 = sp_keccak_256 S (drop 1 raw) in Ok (drop 12 h32))"

definition account_id_from_evm_pubkey :: "SigLibs \<Rightarrow> bytes \<Rightarrow> (bytes, verify_error) result" where
  "account_id_from_evm_pubkey S pubkey =
     and_then (evm_pubkey_to_address S pubkey) (\<lambda>h20. Ok (h20 @ bytes_of ''@evm_address''))"

subsection \<open>Typed data\<close>

fun decimal_digits :: "nat \<Rightarrow> nat \<Rightarrow> string" where
  "decimal_digits 0 n = []"
| "decimal_digits (Suc fuel) n =
     (if n < 10 then [char_of (48 + n)]
      else decimal_digits fuel (n div 10) @ [char_of (48 + n mod 10)])"

text \<open>A 64-bit number has at most twenty decimal digits.\<close>

definition u64_to_string :: "u64 \<Rightarrow> string" where
  "u64_to_string n = decimal_digits 20 (unat n)"

definition eip712_hex :: "SigLibs \<Rightarrow> bytes \<Rightarrow> string" where
  "eip712_hex S s = ''0x'' @ hex_fmt S s"

definition field :: "string \<Rightarrow> string \<Rightarrow> json" where
  "field name ty = JObject [(''name'', JString name), (''type'', JString ty)]"

definition query_domain :: json where
  "query_domain = JObject [(''name'', JString ''Wapod Query''), (''version'', JString ''1'')]"

definition query_json :: "SigLibs \<Rightarrow> Query \<Rightarrow> bool \<Rightarrow> json" where
  "query_json S query proxy =
     (let description =
            (if proxy then ''Authorized query that would be sent to a Wapod App''
             else ''This is a query that would be sent to a Wapod App'');
          address = eip712_hex S (q_address query);
          pl = eip712_hex S (q_payload query);
          path = q_path query
      in JObject
        [(''primaryType'', JString ''WapodQuery''),
         (''domain'', query_domain),
         (''message'', JObject
           [(''description'', JString description), (''address'', JString address),
            (''path'', JString path), (''payload'', JString pl)]),
         (''types'', JObject
           [(''EIP712Domain'', JArray [field ''name'' ''string'', field ''version'' ''string'']),
            (''WapodQuery'', JArray
              [field ''description'' ''string'', field ''address'' ''bytes'', field ''path'' ''string'',
               field ''payload'' ''bytes''])])])"

definition hash_query :: "SigLibs \<Rightarrow> Query \<Rightarrow> bool \<Rightarrow> bytes option" where
  "hash_query S query proxy = hash_structured_data S (query_json S query proxy)"

definition scope_json :: "SigLibs \<Rightarrow> Scope \<Rightarrow> json" where
  "scope_json S s =
     JObject [(''address'', JString (eip712_hex S (sco_app s))),
              (''paths'', JArray (map JString (sco_resources s)))]"

definition cert_json :: "SigLibs \<Rightarrow> CertificateBody \<Rightarrow> json" where
  "cert_json S query =
     (let public_key = eip712_hex S (cb_pubkey query);
          scopes = map (scope_json S) (cb_scopes query);
          expiration_time = u64_to_string (cb_expiration query)
      in JObject
        [(''primaryType'', JString ''Certificate''),
         (''domain'', query_domain),
         (''message'', JObject
           [(''description'', JString ''This is a certificate that can be used to sign a query that would be sent to a Wapod App''),
            (''publicKey'', JString public_key), (''expirationTime'', JString expiration_time),
            (''scopes'', JArray scopes)]),
         (''types'', JObject
           [(''EIP712Domain'', JArray [field ''name'' ''string'', field ''version'' ''string'']),
            (''Certificate'', JArray
              [field ''description'' ''string'', field ''publicKey'' ''bytes'',
               field ''expirationTime'' ''string'', field ''scopes'' ''Scope[]'']),
            (''Scope'', JArray [field ''address'' ''bytes'', field ''paths'' ''string[]''])])])"

definition hash_cert :: "SigLibs \<Rightarrow> CertificateBody \<Rightarrow> bytes option" where
  "hash_cert S query = hash_structured_data S (cert_json S query)"

definition eip721_verify :: "SigLibs \<Rightarrow> bytes \<Rightarrow> bytes \<Rightarrow> bytes \<Rightarrow> (bytes, verify_error) result" where
  "eip721_verify S address sig message_hash =
     (if length sig \<noteq> 65 then Err InvalidSignature
      else and_then (evm_ecdsa_recover S sig message_hash) (\<lambda>recovered_pubkey.
           and_then (evm_pubkey_to_address S recovered_pubkey) (\<lambda>recovered_address.
             if recovered_address \<noteq> address then Err InvalidSignature else Ok recovered_pubkey)))"

definition eip712_verify_cert :: "SigLibs \<Rightarrow> bytes \<Rightarrow> CertificateBody \<Rightarrow> bytes \<Rightarrow> (bytes, verify_error) result" where
  "eip712_verify_cert S pubkey body sig =
     and_then (evm_pubkey_to_address S pubkey) (\<lambda>address.
     and_then (ok_or (hash_cert S body) Eip712EncodingError) (\<lambda>message_hash.
     and_then (eip721_verify S address sig message_hash) (account_id_from_evm_pubkey S)))"

definition eip712_verify_query :: "SigLibs \<Rightarrow> bytes \<Rightarrow> Query \<Rightarrow> bytes \<Rightarrow> bool \<Rightarrow> (bytes, verify_error) result" where
  "eip712_verify_query S pubkey query sig proxy =
     and_then (evm_pubkey_to_address S pubkey) (\<lambda>address.
     and_then (ok_or (hash_query S query proxy) Eip712EncodingError) (\<lambda>message_hash.
     and_then (eip721_verify S address sig message_hash) (account_id_from_evm_pubkey S)))"

subsection \<open>Other signatures, signers\<close>

definition non_eip712_verify ::
  "SigLibs \<Rightarrow> bytes \<Rightarrow> bytes \<Rightarrow> bytes \<Rightarrow> SignatureType \<Rightarrow> u8 \<Rightarrow> (bytes, verify_error) result" where
  "non_eip712_verify S pubkey msg sig sig_type content_type =
     (let msg = content_type # msg
      in case sig_type of
           Ed25519 \<Rightarrow> sub_recover S Ed25519Pair pubkey sig msg
         | Sr25519 \<Rightarrow> sub_recover S Sr25519Pair pubkey sig msg
         | Ecdsa \<Rightarrow> map_ok (sp_blake2_256 S) (sub_recover S EcdsaPair pubkey sig msg)
         | Ed25519WrapBytes \<Rightarrow> sub_recover S Ed25519Pair pubkey sig (wrap_bytes msg)
         | Sr25519WrapBytes \<Rightarrow> sub_recover S Sr25519Pair pubkey sig (wrap_bytes msg)
         | EcdsaWrapBytes \<Rightarrow> map_ok (sp_blake2_256 S) (sub_recover S EcdsaPair pubkey sig (wrap_bytes msg))
         | EvmEcdsa \<Rightarrow>
             and_then (sub_recover S EcdsaPair pubkey sig msg) (account_id_from_evm_pubkey S)
         | EvmEcdsaWrapBytes \<Rightarrow>
             and_then (sub_recover S EcdsaPair pubkey sig (wrap_bytes msg)) (account_id_from_evm_pubkey S)
         | Eip712 \<Rightarrow> Err InvalidSignatureType)"

definition verify_cert ::
  "SigLibs \<Rightarrow> RootSigner \<Rightarrow> CertificateBody \<Rightarrow> bytes \<Rightarrow> SignatureType \<Rightarrow> (bytes, verify_error) result" where
  "verify_cert S root body sig sig_type =
     (case sig_type of
        Eip712 \<Rightarrow> eip712_verify_cert S (rs_pubkey root) body sig
      | _ \<Rightarrow> non_eip712_verify S (rs_pubkey root) (encode_cert_body S body) sig sig_type 0)"

definition root_verify_query ::
  "SigLibs \<Rightarrow> RootSigner \<Rightarrow> Query \<Rightarrow> bytes \<Rightarrow> SignatureType \<Rightarrow> (bytes, verify_error) result" where
  "root_verify_query S self query sig sig_type =
     (case sig_type of
        Eip712 \<Rightarrow> eip712_verify_query S (rs_pubkey self) query sig False
      | _ \<Rightarrow> non_eip712_verify S (rs_pubkey self) (encode_query S query) sig sig_type 1)"

definition certificate_verify_query ::
  "SigLibs \<Rightarrow> Certificate \<Rightarrow> Query \<Rightarrow> bytes \<Rightarrow> SignatureType \<Rightarrow> (bytes, verify_error) result" where
  "certificate_verify_query S self query sig sig_type =
     and_then
       (case sig_type of
          Eip712 \<Rightarrow> eip712_verify_query S (cb_pubkey (cert_body self)) query sig True
        | _ \<Rightarrow> non_eip712_verify S (cb_pubkey (cert_body self)) (encode_query S query) sig sig_type 2)
       (\<lambda>_. verify_cert S (signer (cert_signature self)) (cert_body self) sig
              (signature_type (cert_signature self)))"

fun verify_query ::
  "SigLibs \<Rightarrow> RootOrCertificate \<Rightarrow> Query \<Rightarrow> bytes \<Rightarrow> SignatureType \<Rightarrow> (bytes, verify_error) result" where
  "verify_query S (Root root) query sig sig_type = root_verify_query S root query sig sig_type"
| "verify_query S (Cert cert) query sig sig_type = certificate_verify_query S cert query sig sig_type"

section \<open>The worker's key\<close>

datatype crypto_error =
    KeyInvalidSecretKey | KeyInvalidPublicKey | KeyInvalidSignature | KeyInvalidAeadKey
  | KeyInvalidMessage | KeyCryptoError

text \<open>
  A pair is its 64 secret bytes, as \<open>dump\<close> gives them. The library: whether a secret is valid, its
  public key, signing and verification, the derivation of a pair along a path, and the shared point
  of a secret scalar and a compressed public key, if that is a point. \<open>seal\<close> and \<open>unseal\<close> are
  AES-256-GCM; a key is accepted by its length.
\<close>

record KeyLibs =
  secret_ok :: "bytes \<Rightarrow> bool"
  public_of :: "bytes \<Rightarrow> bytes"
  sr_sign :: "bytes \<Rightarrow> bytes \<Rightarrow> bytes"
  sr_signature_ok :: "bytes \<Rightarrow> bool"
  sr_verify :: "bytes \<Rightarrow> bytes \<Rightarrow> bytes \<Rightarrow> bool"
  derive_hard :: "bytes \<Rightarrow> bytes list \<Rightarrow> bytes"
  shared_point :: "bytes \<Rightarrow> bytes \<Rightarrow> bytes option"
  aead_key_ok :: "bytes \<Rightarrow> bool"
  seal :: "bytes \<Rightarrow> bytes \<Rightarrow> bytes \<Rightarrow> bytes option"
  unseal :: "bytes \<Rightarrow> bytes \<Rightarrow> bytes \<Rightarrow> bytes option"

record Pair =
  secret :: bytes

definition pair_dump :: "Pair \<Rightarrow> bytes" where
  "pair_dump self = secret self"

definition pair_load :: "KeyLibs \<Rightarrow> bytes \<Rightarrow> Pair option" where
  "pair_load K sec = (if secret_ok K sec then Some \<lparr> secret = sec \<rparr> else None)"

definition pair_public :: "KeyLibs \<Rightarrow> Pair \<Rightarrow> bytes" where
  "pair_public K self = public_of K (secret self)"

definition pair_sign :: "KeyLibs \<Rightarrow> Pair \<Rightarrow> ContentType \<Rightarrow> bytes \<Rightarrow> bytes" where
  "pair_sign K self content_type message =
     (let final_message = wrap_message content_type message in sr_sign K (secret self) final_message)"

definition pair_derive :: "KeyLibs \<Rightarrow> Pair \<Rightarrow> bytes list \<Rightarrow> Pair" where
  "pair_derive K self path = \<lparr> secret = derive_hard K (secret self) path \<rparr>"

text \<open>The encoding of a pair is its secret bytes, an array without a length.\<close>

definition pair_encode :: "Pair \<Rightarrow> bytes" where
  "pair_encode self = pair_dump self"

definition pair_decode :: "KeyLibs \<Rightarrow> bytes \<Rightarrow> (Pair, string) result" where
  "pair_decode K input =
     (if length input < 64 then Err ''Not enough data to fill buffer''
      else ok_or (pair_load K (take 64 input)) ''Invalid secret key'')"

definition public_verify ::
  "KeyLibs \<Rightarrow> bytes \<Rightarrow> ContentType \<Rightarrow> bytes \<Rightarrow> bytes \<Rightarrow> (unit, crypto_error) result" where
  "public_verify K self content_type message sig =
     (let final_message = wrap_message content_type message
      in if \<not> sr_signature_ok K sig then Err KeyInvalidSignature
         else if sr_verify K sig final_message self then Ok () else Err KeyInvalidSignature)"

definition IV_BYTES :: nat where
  "IV_BYTES = 12"

definition aead_load_key :: "KeyLibs \<Rightarrow> bytes \<Rightarrow> (bytes, crypto_error) result" where
  "aead_load_key K raw = (if aead_key_ok K raw then Ok raw else Err KeyInvalidAeadKey)"

definition aead_encrypt_in_place :: "KeyLibs \<Rightarrow> bytes \<Rightarrow> bytes \<Rightarrow> bytes \<Rightarrow> (bytes, crypto_error) result" where
  "aead_encrypt_in_place K iv sec in_out =
     and_then (aead_load_key K sec) (\<lambda>key. ok_or (seal K key iv in_out) KeyCryptoError)"

definition aead_decrypt_in_place :: "KeyLibs \<Rightarrow> bytes \<Rightarrow> bytes \<Rightarrow> bytes \<Rightarrow> (bytes, crypto_error) result" where
  "aead_decrypt_in_place K iv sec in_out =
     and_then (aead_load_key K sec) (\<lambda>key. ok_or (unseal K key iv in_out) KeyCryptoError)"

definition ecdh_agree :: "KeyLibs \<Rightarrow> Pair \<Rightarrow> bytes \<Rightarrow> (bytes, crypto_error) result" where
  "ecdh_agree K self pk =
     (let key = take 32 (pair_dump self) in ok_or (shared_point K key pk) KeyInvalidPublicKey)"

text \<open>\<open>iv\<close> is what the random generator returned.\<close>

definition encrypt_message :: "KeyLibs \<Rightarrow> bytes \<Rightarrow> Pair \<Rightarrow> bytes \<Rightarrow> bytes \<Rightarrow> (bytes, crypto_error) result" where
  "encrypt_message K iv self receiver message =
     and_then (ecdh_agree K self receiver) (\<lambda>shared_secret.
     and_then (aead_encrypt_in_place K iv shared_secret message) (\<lambda>message. Ok (iv @ message)))"

definition decrypt_message :: "KeyLibs \<Rightarrow> Pair \<Rightarrow> bytes \<Rightarrow> bytes \<Rightarrow> (bytes, crypto_error) result" where
  "decrypt_message K self sender message =
     (if length message < IV_BYTES then Err KeyInvalidMessage
      else and_then (ecdh_agree K self sender) (\<lambda>shared_secret.
        let iv = take IV_BYTES message; body = drop IV_BYTES message
        in aead_decrypt_in_place K iv shared_secret body))"

section \<open>What is signed\<close>

text \<open>
  The scheme of a signature type and whether the message is wrapped; the bytes that are signed
  for a message of a content type (0 for certificates, 1 for queries of a root signer, 2 for
  queries through a certificate); the account a valid signature stands for.
\<close>

fun plain_scheme :: "SignatureType \<Rightarrow> (scheme \<times> bool) option" where
  "plain_scheme Ed25519 = Some (Ed25519Pair, False)"
| "plain_scheme Sr25519 = Some (Sr25519Pair, False)"
| "plain_scheme Ecdsa = Some (EcdsaPair, False)"
| "plain_scheme Ed25519WrapBytes = Some (Ed25519Pair, True)"
| "plain_scheme Sr25519WrapBytes = Some (Sr25519Pair, True)"
| "plain_scheme EcdsaWrapBytes = Some (EcdsaPair, True)"
| "plain_scheme EvmEcdsa = Some (EcdsaPair, False)"
| "plain_scheme EvmEcdsaWrapBytes = Some (EcdsaPair, True)"
| "plain_scheme Eip712 = None"

definition to_sign :: "bool \<Rightarrow> u8 \<Rightarrow> bytes \<Rightarrow> bytes" where
  "to_sign wrapped content_type msg =
     (if wrapped then wrap_bytes (content_type # msg) else content_type # msg)"

fun account_of :: "SigLibs \<Rightarrow> SignatureType \<Rightarrow> bytes \<Rightarrow> (bytes, verify_error) result" where
  "account_of S Ecdsa pubkey = Ok (sp_blake2_256 S pubkey)"
| "account_of S EcdsaWrapBytes pubkey = Ok (sp_blake2_256 S pubkey)"
| "account_of S EvmEcdsa pubkey = account_id_from_evm_pubkey S pubkey"
| "account_of S EvmEcdsaWrapBytes pubkey = account_id_from_evm_pubkey S pubkey"
| "account_of S Eip712 pubkey = account_id_from_evm_pubkey S pubkey"
| "account_of S _ pubkey = Ok pubkey"

text \<open>A valid signature of a message, for either kind of signature type.\<close>

definition signed_plain :: "SigLibs \<Rightarrow> SignatureType \<Rightarrow> bytes \<Rightarrow> bytes \<Rightarrow> u8 \<Rightarrow> bytes \<Rightarrow> bool" where
  "signed_plain S ty pubkey sig content_type msg \<longleftrightarrow>
     (case plain_scheme ty of
        None \<Rightarrow> False
      | Some (T, wrapped) \<Rightarrow> verify_sig S T pubkey sig (to_sign wrapped content_type msg))"

definition signed_typed :: "SigLibs \<Rightarrow> bytes \<Rightarrow> bytes \<Rightarrow> bytes \<Rightarrow> bool" where
  "signed_typed S pubkey sig message_hash \<longleftrightarrow>
     length sig = 65 \<and>
     (\<exists>key a. evm_ecdsa_recover S sig message_hash = Ok key \<and>
        evm_pubkey_to_address S key = Ok a \<and> evm_pubkey_to_address S pubkey = Ok a)"

lemma sub_recover_Ok: "sub_recover S T pubkey sig msg = Ok key \<longleftrightarrow> verify_sig S T pubkey sig msg \<and> key = pubkey"
  by (auto simp: sub_recover_def verify_sig_def)

lemma non_eip712_verify_Ok:
  "non_eip712_verify S pubkey msg sig ty c = Ok acc \<longleftrightarrow>
   signed_plain S ty pubkey sig c msg \<and> account_of S ty pubkey = Ok acc"
  by (cases ty) (auto simp: non_eip712_verify_def signed_plain_def to_sign_def sub_recover_Ok
      map_ok_eq_Ok and_then_eq_Ok Let_def)

lemma eip721_verify_Ok:
  "eip721_verify S a sig h = Ok key \<longleftrightarrow>
   length sig = 65 \<and> evm_ecdsa_recover S sig h = Ok key \<and> evm_pubkey_to_address S key = Ok a"
  by (auto simp: eip721_verify_def and_then_eq_Ok split: if_splits)

lemma typed_verify_Ok:
  "and_then (evm_pubkey_to_address S pubkey) (\<lambda>address.
     and_then (ok_or h Eip712EncodingError) (\<lambda>message_hash.
     and_then (eip721_verify S address sig message_hash) (account_id_from_evm_pubkey S))) = Ok acc \<longleftrightarrow>
   (\<exists>hash. h = Some hash \<and> signed_typed S pubkey sig hash) \<and> account_id_from_evm_pubkey S pubkey = Ok acc"
  by (auto simp: and_then_eq_Ok ok_or_eq_Ok eip721_verify_Ok signed_typed_def account_id_from_evm_pubkey_def)

lemma eip712_verify_query_Ok:
  "eip712_verify_query S pubkey q sig proxy = Ok acc \<longleftrightarrow>
   (\<exists>h. hash_query S q proxy = Some h \<and> signed_typed S pubkey sig h) \<and> account_id_from_evm_pubkey S pubkey = Ok acc"
  unfolding eip712_verify_query_def by (rule typed_verify_Ok)

lemma eip712_verify_cert_Ok:
  "eip712_verify_cert S pubkey b sig = Ok acc \<longleftrightarrow>
   (\<exists>h. hash_cert S b = Some h \<and> signed_typed S pubkey sig h) \<and> account_id_from_evm_pubkey S pubkey = Ok acc"
  unfolding eip712_verify_cert_def by (rule typed_verify_Ok)

text \<open>A signature of a query, and one of a certificate, by a key.\<close>

definition signs_query :: "SigLibs \<Rightarrow> bytes \<Rightarrow> bool \<Rightarrow> Query \<Rightarrow> bytes \<Rightarrow> SignatureType \<Rightarrow> bool" where
  "signs_query S pubkey proxy q sig ty \<longleftrightarrow>
     (if ty = Eip712 then \<exists>h. hash_query S q proxy = Some h \<and> signed_typed S pubkey sig h
      else signed_plain S ty pubkey sig (if proxy then 2 else 1) (encode_query S q))"

definition signs_cert :: "SigLibs \<Rightarrow> bytes \<Rightarrow> CertificateBody \<Rightarrow> bytes \<Rightarrow> SignatureType \<Rightarrow> bool" where
  "signs_cert S pubkey b sig ty \<longleftrightarrow>
     (if ty = Eip712 then \<exists>h. hash_cert S b = Some h \<and> signed_typed S pubkey sig h
      else signed_plain S ty pubkey sig 0 (encode_cert_body S b))"

lemma root_verify_query_Ok:
  "root_verify_query S r q sig ty = Ok acc \<longleftrightarrow>
   signs_query S (rs_pubkey r) False q sig ty \<and> account_of S ty (rs_pubkey r) = Ok acc"
  by (cases ty) (simp_all add: root_verify_query_def signs_query_def eip712_verify_query_Ok non_eip712_verify_Ok)

lemma verify_cert_Ok:
  "verify_cert S r b sig ty = Ok acc \<longleftrightarrow> signs_cert S (rs_pubkey r) b sig ty \<and> account_of S ty (rs_pubkey r) = Ok acc"
  by (cases ty) (simp_all add: verify_cert_def signs_cert_def eip712_verify_cert_Ok non_eip712_verify_Ok)

lemma certificate_verify_query_Ok:
  "certificate_verify_query S c q sig ty = Ok acc \<longleftrightarrow>
   signs_query S (cb_pubkey (cert_body c)) True q sig ty \<and>
   (\<exists>b. account_of S ty (cb_pubkey (cert_body c)) = Ok b) \<and>
   verify_cert S (signer (cert_signature c)) (cert_body c) sig (signature_type (cert_signature c)) = Ok acc"
  by (cases ty) (auto simp: certificate_verify_query_def signs_query_def and_then_eq_Ok
      eip712_verify_query_Ok non_eip712_verify_Ok)

text \<open>
  The bytes signed for certificates, root queries and queries through certificates are never the
  same: no signature of one is a signature of another, nor of another message.
\<close>

lemma to_sign_inject:
  assumes "c \<le> 2" "c' \<le> 2"
  shows "to_sign w c m = to_sign w' c' m' \<longleftrightarrow> w = w' \<and> c = c' \<and> m = m'"
proof -
  have "c \<noteq> 60" "c' \<noteq> 60" using assms by (auto simp: word_le_nat_alt)
  then show ?thesis by (auto simp: to_sign_def wrap_bytes_def bytes_of_def)
qed

section \<open>Encrypted messages\<close>

text \<open>
  What the cipher and the curve promise: a key is accepted by its length, the nonce and key that
  sealed a message unseal it, and the two parties of an agreement compute the same secret.
\<close>

definition aead_ok :: "KeyLibs \<Rightarrow> bool" where
  "aead_ok K \<longleftrightarrow>
     (\<forall>key. aead_key_ok K key \<longleftrightarrow> length key = 32) \<and>
     (\<forall>key iv m c. seal K key iv m = Some c \<longrightarrow> unseal K key iv c = Some m)"

definition agreement_ok :: "KeyLibs \<Rightarrow> Pair \<Rightarrow> Pair \<Rightarrow> bool" where
  "agreement_ok K a b \<longleftrightarrow>
     (\<exists>p. length p = 32 \<and> shared_point K (take 32 (secret a)) (pair_public K b) = Some p \<and>
        shared_point K (take 32 (secret b)) (pair_public K a) = Some p)"

lemma decrypt_encrypt_message:
  assumes "aead_ok K" "agreement_ok K a b" "length iv = 12"
    and "encrypt_message K iv a (pair_public K b) m = Ok c"
  shows "decrypt_message K b (pair_public K a) c = Ok m"
proof -
  from assms(2) obtain p where p: "length p = 32"
    "shared_point K (take 32 (secret a)) (pair_public K b) = Some p"
    "shared_point K (take 32 (secret b)) (pair_public K a) = Some p"
    by (auto simp: agreement_ok_def)
  from assms(1,4) p obtain body where body: "seal K p iv m = Some body" "c = iv @ body"
    by (auto simp: encrypt_message_def ecdh_agree_def pair_dump_def aead_encrypt_in_place_def
        aead_load_key_def aead_ok_def and_then_eq_Ok ok_or_eq_Ok)
  with assms(1) have "unseal K p iv body = Some m" by (simp add: aead_ok_def)
  with assms(1,3) p body show ?thesis
    by (simp add: decrypt_message_def IV_BYTES_def ecdh_agree_def pair_dump_def aead_decrypt_in_place_def
        aead_load_key_def aead_ok_def Let_def)
qed

lemma pair_decode_encode:
  assumes "length (secret p) = 64" "secret_ok K (secret p)"
  shows "pair_decode K (pair_encode p) = Ok p"
  using assms by (simp add: pair_decode_def pair_encode_def pair_dump_def pair_load_def)

subsection \<open>Example libraries\<close>

text \<open>
  A signature is valid if it is the message in front of the signer's key, so that everything can be
  evaluated; the cipher adds the key's first byte and appends a zero as tag.
\<close>

definition demo_sigs :: SigLibs where
  "demo_sigs =
     \<lparr> public_ok = \<lambda>_ p. True, signature_ok = \<lambda>_ s. True, pair_verify = \<lambda>_ s m p. hd s = hd p,
       sp_blake2_256 = \<lambda>b. b, sp_keccak_256 = \<lambda>b. replicate 12 0 @ b, serialize_uncompressed = \<lambda>p. Some (4 # p),
       recover_prehashed = \<lambda>s h. Some (take 1 s), hex_fmt = \<lambda>b. [], hash_structured_data = \<lambda>j. Some [],
       encode_query = \<lambda>q. q_address q @ q_payload q, encode_cert_body = \<lambda>b. cb_pubkey b \<rparr>"

definition demo_keys :: KeyLibs where
  "demo_keys =
     \<lparr> secret_ok = \<lambda>s. length s = 64, public_of = \<lambda>s. take 32 s, sr_sign = \<lambda>s m. m, sr_signature_ok = \<lambda>s. True,
       sr_verify = \<lambda>s m p. s = m, derive_hard = \<lambda>s path. s, shared_point = \<lambda>s p. Some (replicate 32 1),
       aead_key_ok = \<lambda>k. length k = 32, seal = \<lambda>k iv m. Some (map ((+) (hd k)) m @ [0]),
       unseal = \<lambda>k iv c. if c = [] then None else Some (map (\<lambda>x. x - hd k) (butlast c)) \<rparr>"

lemma demo_keys_ok: "aead_ok demo_keys" "agreement_ok demo_keys a b"
  by (auto simp: aead_ok_def agreement_ok_def demo_keys_def map_idI)

definition demo_query :: Query where
  "demo_query = \<lparr> q_address = [1], q_path = ''/'', q_payload = [5] \<rparr>"

definition demo_cert :: Certificate where
  "demo_cert =
     \<lparr> cert_body = \<lparr> cb_pubkey = [7], cb_expiration = 0, cb_scopes = [] \<rparr>,
       cert_signature = \<lparr> signature_type = Sr25519, sig_bytes = [9], signer = \<lparr> rs_pubkey = [7, 7] \<rparr> \<rparr> \<rparr>"

section \<open>Theorems\<close>

text \<open>
  A query is accepted from a root signer exactly if its signature is valid for the query under
  the signer's key, as a query and not as anything else the key may have signed, and the account it
  is attributed to is the one of that key. For typed data the account is the EVM address of the
  signer's key with its suffix, whatever key was recovered.
\<close>

lemma query_signer_authenticated:
  "(verify_query S (Root r) q sig ty = Ok acc \<longleftrightarrow>
      (if ty = Eip712
       then \<exists>h. hash_query S q False = Some h \<and> signed_typed S (rs_pubkey r) sig h
       else \<exists>T w. plain_scheme ty = Some (T, w) \<and> verify_sig S T (rs_pubkey r) sig (to_sign w 1 (encode_query S q))) \<and>
      account_of S ty (rs_pubkey r) = Ok acc) \<and>
   (to_sign w1 1 (encode_query S q) = to_sign w2 c m \<and> c \<le> 2 \<longrightarrow> w1 = w2 \<and> c = 1 \<and> m = encode_query S q)"
  using to_sign_inject [of 1 c w1 "encode_query S q" w2 m]
  by (auto simp: root_verify_query_Ok signs_query_def signed_plain_def split: option.splits)

text \<open>
  C36: The signature inside a certificate is never looked at. A query through a certificate is
  accepted exactly if the one signature that comes with the query is valid both for the query
  under the certificate's key and for the certificate under the root signer's key, and changing the
  certificate's own signature bytes changes nothing. Neither the expiration nor the scopes of the
  certificate restrict what is accepted beyond being part of what is signed.
\<close>

theorem certificate_signature_ignored:
  "(verify_query S (Cert c) q sig ty = Ok acc \<longleftrightarrow>
      signs_query S (cb_pubkey (cert_body c)) True q sig ty \<and>
      (\<exists>b. account_of S ty (cb_pubkey (cert_body c)) = Ok b) \<and>
      signs_cert S (rs_pubkey (signer (cert_signature c))) (cert_body c) sig (signature_type (cert_signature c)) \<and>
      account_of S (signature_type (cert_signature c)) (rs_pubkey (signer (cert_signature c))) = Ok acc) \<and>
   verify_query S (Cert (c\<lparr>cert_signature := (cert_signature c)\<lparr>sig_bytes := other\<rparr>\<rparr>)) q sig ty =
     verify_query S (Cert c) q sig ty"
proof (rule conjI)
  show "verify_query S (Cert (c\<lparr>cert_signature := (cert_signature c)\<lparr>sig_bytes := other\<rparr>\<rparr>)) q sig ty =
     verify_query S (Cert c) q sig ty"
    by (cases ty) (simp_all add: certificate_verify_query_def)
qed (auto simp: certificate_verify_query_Ok verify_cert_Ok)

text \<open>Such a certificate is accepted although its own signature is not by the root signer.\<close>

lemma demo_cert_accepted:
  "verify_query demo_sigs (Cert demo_cert) demo_query [7] Sr25519 = Ok [7, 7] \<and>
   \<not> signs_cert demo_sigs [7, 7] (cert_body demo_cert) (sig_bytes (cert_signature demo_cert)) Sr25519"
  by (simp add: certificate_verify_query_def non_eip712_verify_def verify_cert_def sub_recover_def verify_sig_def
      signs_cert_def signed_plain_def demo_sigs_def demo_cert_def Let_def)

end
