(* ===== verification/Rpc_Service.thy ===== *)
theory Rpc_Service
  imports Worker_Properties Query_Auth
begin

text \<open>
  The RPC services of the worker (\<open>wapod/src/prpc_service.rs\<close>): the operations an administrator and
  a user may call, the HTTP entry points that lead to them, the authorisation of the
  administrator's (\<open>wapod/src/bin/web_api/auth.rs\<close>), the conversion of manifests
  (\<open>wapod-rpc/src/prpc.rs\<close>) and the quotes for attestation (\<open>wapod/src/sgx.rs\<close>). Every operation is a
  function of the worker's state; what it awaits is part of the environment, as in the worker's
  own operations. The message types and their codecs are generated and given.
\<close>

section \<open>Messages\<close>

record StringPair =
  sp_key :: string
  sp_value :: string

record PbManifest =
  pm_version :: u32
  pm_code_hash :: string
  pm_args :: "string list"
  pm_env_vars :: "StringPair list"
  pm_on_demand :: bool
  pm_resizable :: bool
  pm_max_query_size :: u32
  pm_label :: string
  pm_required_blobs :: "StringPair list"

definition string_pair_into :: "StringPair \<Rightarrow> string \<times> string" where
  "string_pair_into other = (sp_key other, sp_value other)"

definition string_pair_from :: "string \<times> string \<Rightarrow> StringPair" where
  "string_pair_from other = \<lparr> sp_key = fst other, sp_value = snd other \<rparr>"

definition manifest_from_pb :: "PbManifest \<Rightarrow> AppManifest" where
  "manifest_from_pb other =
     \<lparr> version = pm_version other, code_hash = pm_code_hash other, man_args = pm_args other,
       env_vars = map string_pair_into (pm_env_vars other), on_demand = pm_on_demand other,
       resizable = pm_resizable other, max_query_size = pm_max_query_size other,
       label = pm_label other, required_blobs = map string_pair_into (pm_required_blobs other) \<rparr>"

definition manifest_to_pb :: "AppManifest \<Rightarrow> PbManifest" where
  "manifest_to_pb other =
     \<lparr> pm_version = version other, pm_code_hash = code_hash other, pm_args = man_args other,
       pm_env_vars = map string_pair_from (env_vars other), pm_on_demand = on_demand other,
       pm_resizable = resizable other, pm_max_query_size = max_query_size other,
       pm_label = label other, pm_required_blobs = map string_pair_from (required_blobs other) \<rparr>"

record QueryArgs =
  qa_address :: bytes
  qa_path :: string
  qa_payload :: bytes
  qa_encoded_signature :: bytes

record EncryptedQueryArgs =
  eq_pubkey :: bytes
  eq_encrypted_payload :: bytes

record AppsMetrics =
  ams_token :: MetricsToken
  ams_apps :: "AppMetrics list"

record WorkerEndpointPayload =
  wep_pubkey :: bytes
  wep_endpoints :: "string list"
  wep_signing_time :: u64

record WorkerRegistrationInfoV2 =
  reg_version :: u32
  reg_machine_id :: bytes
  reg_pubkey :: bytes
  reg_ecdh_pubkey :: bytes
  reg_genesis_block_hash :: bytes
  reg_features :: "u32 list"
  reg_operator :: "bytes option"
  reg_para_id :: u32
  reg_max_consensus_version :: u32

record WorkerDescriptionData =
  wd_prices :: Prices
  wd_description :: string

datatype rpc_error =
    SaltTooLong | InvalidAccount | NoWorkerSession | NoManifest | RpcNotFound | DecodeError string
  | SignatureRejected verify_error | DecryptFailed crypto_error | TimeFailed
  | FromWorker worker_error | FromBlobs blob_error

text \<open>
  The generated decoders of the fields that are encoded once more, the account format, the SCALE
  encodings of what is signed and the attestation device: writing the report data and reading the quote.
\<close>

record Codecs =
  dec_address :: "bytes \<Rightarrow> (bytes, string) result"
  dec_addresses :: "bytes list \<Rightarrow> (bytes list, string) result"
  dec_signature :: "bytes \<Rightarrow> (RootOrCertificate Signature option, string) result"
  dec_prices :: "bytes \<Rightarrow> (Prices, string) result"
  dec_hash :: "bytes \<Rightarrow> (bytes, string) result"
  dec_opt_address :: "bytes \<Rightarrow> (bytes option, string) result"
  dec_query_args :: "bytes \<Rightarrow> (QueryArgs, string) result"
  ss58_account :: "string \<Rightarrow> bytes option"
  enc_session_update :: "SessionUpdate \<Rightarrow> bytes"
  enc_metrics :: "AppsMetrics \<Rightarrow> bytes"
  enc_endpoints :: "WorkerEndpointPayload \<Rightarrow> bytes"
  enc_registration :: "WorkerRegistrationInfoV2 \<Rightarrow> bytes"
  enc_description :: "WorkerDescriptionData \<Rightarrow> bytes"
  attest :: "bytes \<Rightarrow> bytes option"

text \<open>
  What a call depends on: the libraries, the worker's key, what is awaited, the meters, the clocks, what
  the random generator returns, and how a manifest's size and address are computed.
\<close>

record RpcEnv =
  codecs :: Codecs
  siglibs :: SigLibs
  keylibs :: KeyLibs
  worker_key :: Pair
  hashes :: CryptoProvider
  naming :: Naming
  waits :: Waits
  meters :: "nat \<Rightarrow> Metrics"
  clock :: instant
  unix_millis :: "nat option"
  random32 :: bytes
  man_size_hint :: "AppManifest \<Rightarrow> nat"
  man_address :: "AppManifest \<Rightarrow> bytes"

definition map_err :: "('e \<Rightarrow> 'f) \<Rightarrow> ('a, 'e) result \<Rightarrow> ('a, 'f) result" where
  "map_err f r = (case r of Ok v \<Rightarrow> Ok v | Err e \<Rightarrow> Err (f e))"

text \<open>An argument is decoded first; a failure ends the call with the state as it was.\<close>

definition with_arg ::
  "('a, rpc_error) result \<Rightarrow> ('a \<Rightarrow> ('b, rpc_error) result \<times> 's) \<Rightarrow> 's \<Rightarrow> ('b, rpc_error) result \<times> 's" where
  "with_arg r f s = (case r of Err e \<Rightarrow> (Err e, s) | Ok v \<Rightarrow> f v)"

definition from_worker ::
  "('a, worker_error) result \<times> WorkerState \<Rightarrow> ('a, rpc_error) result \<times> WorkerState" where
  "from_worker rw = (map_err FromWorker (fst rw), snd rw)"

definition decode_address :: "RpcEnv \<Rightarrow> bytes \<Rightarrow> (bytes, rpc_error) result" where
  "decode_address env raw = map_err DecodeError (dec_address (codecs env) raw)"

section \<open>Operations of the administrator\<close>

record InitResponse =
  ir_update :: SessionUpdate
  ir_signature :: bytes
  ir_pubkey :: bytes

definition rpc_worker_init ::
  "RpcEnv \<Rightarrow> bytes \<Rightarrow> string \<Rightarrow> WorkerState \<Rightarrow> (InitResponse, rpc_error) result \<times> WorkerState" where
  "rpc_worker_init env pnonce recipient w =
     (if length pnonce > 64 then (Err SaltTooLong, w)
      else case ss58_account (codecs env) recipient of
        None \<Rightarrow> (Err InvalidAccount, w)
      | Some account \<Rightarrow>
          (case session_init (hashes env) (random32 env) pnonce account w of
             (Err e, w1) \<Rightarrow> (Err (FromWorker e), w1)
           | (Ok update, w1) \<Rightarrow>
               let sig = pair_sign (keylibs env) (worker_key env) SessionUpdateContent
                           (enc_session_update (codecs env) update);
                   pubkey = pair_public (keylibs env) (worker_key env)
               in (Ok \<lparr> ir_update = update, ir_signature = sig, ir_pubkey = pubkey \<rparr>, w1)))"

definition rpc_blob_put ::
  "BlobLibs \<Rightarrow> (fs_step \<Rightarrow> bool) \<Rightarrow> string \<Rightarrow> string \<Rightarrow> bytes \<Rightarrow> Store \<Rightarrow> (string \<times> bytes, rpc_error) result \<times> Store" where
  "rpc_blob_put L fails uuid hash_str body st =
     (let (r, st') = put_object L fails uuid hash_str body st
      in (map_err FromBlobs (map_ok (\<lambda>h. (h, [])) r), st'))"

definition rpc_blob_exists :: "BlobLibs \<Rightarrow> string \<Rightarrow> Store \<Rightarrow> (bool, rpc_error) result" where
  "rpc_blob_exists L hash_str st = Ok (blob_exists L hash_str st)"

definition rpc_blob_remove ::
  "BlobLibs \<Rightarrow> (fs_step \<Rightarrow> bool) \<Rightarrow> string \<Rightarrow> Store \<Rightarrow> (unit, rpc_error) result \<times> Store" where
  "rpc_blob_remove L fails hash_str st =
     (let (r, st') = blob_remove L fails hash_str st in (map_err FromBlobs r, st'))"

definition rpc_app_deploy ::
  "RpcEnv \<Rightarrow> PbManifest option \<Rightarrow> bool \<Rightarrow> WorkerState \<Rightarrow> (bytes \<times> bytes, rpc_error) result \<times> WorkerState" where
  "rpc_app_deploy env pb_manifest reuse_instances w =
     (if ws_session w = None then (Err NoWorkerSession, w)
      else case pb_manifest of
        None \<Rightarrow> (Err NoManifest, w)
      | Some m \<Rightarrow>
          (case deploy_app (naming env) (waits env) (meters env) (man_size_hint env) (man_address env)
                  (random32 env) (clock env) (manifest_from_pb m) True reuse_instances w of
             (Err e, w1) \<Rightarrow> (Err (FromWorker e), w1)
           | (Ok info, w1) \<Rightarrow> (Ok (ai_address info, ai_session info), w1)))"

text \<open>Removing an app, then stopping its machines; while that is awaited other tasks run.\<close>

definition rpc_app_remove :: "RpcEnv \<Rightarrow> bytes \<Rightarrow> WorkerState \<Rightarrow> (unit, rpc_error) result \<times> WorkerState" where
  "rpc_app_remove env raw w =
     with_arg (decode_address env raw) (\<lambda>address.
       case remove_app address w of
         (Err e, w1) \<Rightarrow> (Err (FromWorker e), w1)
       | (Ok _, w1) \<Rightarrow> (Ok (), others (waits env) w1)) w"

definition rpc_app_start :: "RpcEnv \<Rightarrow> bytes \<Rightarrow> WorkerState \<Rightarrow> (unit, rpc_error) result \<times> WorkerState" where
  "rpc_app_start env raw w =
     with_arg (decode_address env raw) (\<lambda>address.
       from_worker (start_app_rpc (naming env) (waits env) (meters env) address False w)) w"

definition rpc_app_stop :: "RpcEnv \<Rightarrow> bytes \<Rightarrow> WorkerState \<Rightarrow> (unit, rpc_error) result \<times> WorkerState" where
  "rpc_app_stop env raw w =
     with_arg (decode_address env raw) (\<lambda>address.
       from_worker (stop_app_rpc (naming env) (waits env) (meters env) address w)) w"

definition app_metrics_entry :: "(nat \<Rightarrow> Metrics) \<Rightarrow> bytes \<times> AppState \<Rightarrow> AppMetrics" where
  "app_metrics_entry mt = (\<lambda>(address, app).
     let m = app_metrics_of mt app
     in \<lparr> am_address = address, am_session = app_session app,
          am_running_time_ms = of_nat (m_duration m div 1000000), am_gas_consumed = m_gas_consumed m,
          am_network_ingress = m_net_ingress m, am_network_egress = m_net_egress m,
          am_storage_read = m_storage_read m, am_storage_write = m_storage_written m,
          am_storage_used = 0, am_memory_used = 0, am_tip = m_tip m, am_starts = m_starts m \<rparr>)"

text \<open>The report is put together in three locked sections, between which other tasks may run.\<close>

definition rpc_app_metrics ::
  "RpcEnv \<Rightarrow> bytes list \<Rightarrow> WorkerState \<Rightarrow> (AppsMetrics \<times> bytes, rpc_error) result \<times> WorkerState" where
  "rpc_app_metrics env raws w =
     with_arg (map_err DecodeError (dec_addresses (codecs env) raws)) (\<lambda>addresses.
       let (sn, w0) = bump_metrics_sn w; w1 = others (waits env) w0
       in case ws_session w1 of
            None \<Rightarrow> (Err NoWorkerSession, w1)
          | Some session \<Rightarrow>
              let token = \<lparr> tok_sn = sn, tok_session = session, tok_nonce = random32 env \<rparr>;
                  w2 = others (waits env) w1;
                  selected = for_each_app (if addresses = [] then None else Some addresses) w2;
                  metrics = \<lparr> ams_token = token, ams_apps = map (app_metrics_entry (meters env)) selected \<rparr>;
                  sig = pair_sign (keylibs env) (worker_key env) MetricsContent (enc_metrics (codecs env) metrics)
              in (Ok (metrics, sig), w2)) w"

definition rpc_app_resize :: "RpcEnv \<Rightarrow> bytes \<Rightarrow> u64 \<Rightarrow> WorkerState \<Rightarrow> (u64, rpc_error) result \<times> WorkerState" where
  "rpc_app_resize env raw n w =
     with_arg (decode_address env raw) (\<lambda>address.
       case resize_and_wait (naming env) (waits env) (meters env) address (unat n) False w of
         (Err e, w1) \<Rightarrow> (Err (FromWorker e), w1)
       | (Ok _, w1) \<Rightarrow>
           (case num_instances_of address w1 of
              None \<Rightarrow> (Err RpcNotFound, w1)
            | Some number \<Rightarrow> (Ok (of_nat number), w1))) w"

definition rpc_app_list :: "RpcEnv \<Rightarrow> u32 \<Rightarrow> u32 \<Rightarrow> WorkerState \<Rightarrow> AppInfo list" where
  "rpc_app_list env start cnt w =
     (let n = (if cnt > 0 then unat cnt else 2 ^ 64 - 1)
      in list_apps (clock env) (unat start) n w)"

definition rpc_app_remove_all :: "WorkerState \<Rightarrow> WorkerState" where
  "rpc_app_remove_all w = clear w"

section \<open>Queries\<close>

definition query_caller :: "RpcEnv \<Rightarrow> QueryArgs \<Rightarrow> (bytes option, rpc_error) result" where
  "query_caller env request =
     (if qa_encoded_signature request = [] then Ok None
      else and_then (map_err DecodeError (dec_signature (codecs env) (qa_encoded_signature request))) (\<lambda>opt.
        case opt of
          None \<Rightarrow> Ok None
        | Some sg \<Rightarrow>
            let q = \<lparr> q_address = qa_address request, q_path = qa_path request, q_payload = qa_payload request \<rparr>
            in map_ok Some (map_err SignatureRejected
                 (verify_query (siglibs env) (signer sg) q (sig_bytes sg) (signature_type sg)))))"

definition rpc_app_query :: "RpcEnv \<Rightarrow> QueryArgs \<Rightarrow> WorkerState \<Rightarrow> (bytes, rpc_error) result \<times> WorkerState" where
  "rpc_app_query env request w =
     with_arg (query_caller env request) (\<lambda>caller.
       with_arg (decode_address env (qa_address request)) (\<lambda>address.
         from_worker (query (naming env) (waits env) (meters env) (clock env) caller address
           (qa_path request) (qa_payload request) w)) w) w"

definition rpc_app_encrypted_query ::
  "RpcEnv \<Rightarrow> EncryptedQueryArgs \<Rightarrow> WorkerState \<Rightarrow> (bytes, rpc_error) result \<times> WorkerState" where
  "rpc_app_encrypted_query env request w =
     with_arg (map_err DecryptFailed
         (decrypt_message (keylibs env) (worker_key env) (eq_pubkey request) (eq_encrypted_payload request)))
       (\<lambda>decrypted.
         with_arg (map_err DecodeError (dec_query_args (codecs env) decrypted)) (\<lambda>args.
           rpc_app_query env args w) w) w"

section \<open>Registration and signing\<close>

definition quote_user_data :: "(bytes \<Rightarrow> bytes) \<Rightarrow> (bytes \<Rightarrow> bytes) \<Rightarrow> ContentType \<Rightarrow> bytes \<Rightarrow> bytes" where
  "quote_user_data blake2 keccak content_type data =
     (let hash = (case content_type of
            WorkerAttestation \<Rightarrow> blake2 data
          | _ \<Rightarrow> keccak (wrap_message content_type data))
      in hash @ replicate 32 0)"

definition sgx_quote :: "RpcEnv \<Rightarrow> ContentType \<Rightarrow> bytes \<Rightarrow> bytes option" where
  "sgx_quote env content_type data =
     attest (codecs env)
       (quote_user_data (blake2b_256 (hashes env)) (keccak_256 (hashes env)) content_type data)"

definition compat_app_version :: u32 where
  "compat_app_version =
     (let (major, minor, patch) = (3, 0, 0) in push_bit 16 major + push_bit 8 minor + patch)"

definition rpc_sign_register_info ::
  "RpcEnv \<Rightarrow> bytes \<Rightarrow> bytes \<Rightarrow> u32 \<Rightarrow> (WorkerRegistrationInfoV2 \<times> bytes option, rpc_error) result" where
  "rpc_sign_register_info env raw_genesis raw_operator para_id =
     (let pubkey = pair_public (keylibs env) (worker_key env)
      in and_then (map_err DecodeError (dec_hash (codecs env) raw_genesis)) (\<lambda>genesis.
         and_then (map_err DecodeError (dec_opt_address (codecs env) raw_operator)) (\<lambda>operator.
           let runtime_info =
             \<lparr> reg_version = compat_app_version, reg_machine_id = [], reg_pubkey = pubkey,
               reg_ecdh_pubkey = pubkey, reg_genesis_block_hash = genesis, reg_features = [],
               reg_operator = operator, reg_para_id = para_id, reg_max_consensus_version = 0 \<rparr>
           in Ok (runtime_info, sgx_quote env WorkerAttestation (enc_registration (codecs env) runtime_info)))))"

definition rpc_sign_endpoints ::
  "RpcEnv \<Rightarrow> string list \<Rightarrow> (WorkerEndpointPayload \<times> bytes, rpc_error) result" where
  "rpc_sign_endpoints env endpoints =
     and_then (ok_or (unix_millis env) TimeFailed) (\<lambda>millis.
       let endpoint_payload =
             \<lparr> wep_pubkey = pair_public (keylibs env) (worker_key env), wep_endpoints = endpoints,
               wep_signing_time = of_nat millis \<rparr>;
           sig = pair_sign (keylibs env) (worker_key env) EndpointInfo (enc_endpoints (codecs env) endpoint_payload)
       in Ok (endpoint_payload, sig))"

definition rpc_sign_worker_description ::
  "RpcEnv \<Rightarrow> bytes \<Rightarrow> string \<Rightarrow> (WorkerDescriptionData Signed, rpc_error) result" where
  "rpc_sign_worker_description env raw_prices description =
     and_then (map_err DecodeError (dec_prices (codecs env) raw_prices)) (\<lambda>prices.
       let worker_description = \<lparr> wd_prices = prices, wd_description = description \<rparr>;
           sig = pair_sign (keylibs env) (worker_key env) WorkerDescription
                   (enc_description (codecs env) worker_description)
       in Ok \<lparr> payload = worker_description, signature = sig,
               signer_pubkey = pair_public (keylibs env) (worker_key env) \<rparr>)"

definition rpc_set_bench_app ::
  "RpcEnv \<Rightarrow> bytes \<Rightarrow> u64 \<Rightarrow> WorkerState \<Rightarrow> (unit, rpc_error) result \<times> WorkerState" where
  "rpc_set_bench_app env raw n w =
     (let address = (case dec_opt_address (codecs env) raw of Ok a \<Rightarrow> a | Err _ \<Rightarrow> None);
          w1 = set_bench_app address n w
      in case address of
           None \<Rightarrow> (Ok (), w1)
         | Some a \<Rightarrow>
             from_worker (resize_and_wait (naming env) (waits env) (meters env) a (unat n) False w1))"

section \<open>Operations of users\<close>

definition user_info :: "WorkerState \<Rightarrow> WorkerInfo" where
  "user_info w = worker_info w"

definition user_query :: "RpcEnv \<Rightarrow> QueryArgs \<Rightarrow> WorkerState \<Rightarrow> (bytes, rpc_error) result \<times> WorkerState" where
  "user_query env request w = rpc_app_query env request w"

definition user_encrypted_query ::
  "RpcEnv \<Rightarrow> EncryptedQueryArgs \<Rightarrow> WorkerState \<Rightarrow> (bytes, rpc_error) result \<times> WorkerState" where
  "user_encrypted_query env request w = rpc_app_encrypted_query env request w"

section \<open>HTTP entry points\<close>

text \<open>
  \<open>str::trim_start_matches\<close> removes the pattern as often as it starts the string.
\<close>

fun trim_start_0x :: "string \<Rightarrow> string" where
  "trim_start_0x (a # b # s) = (if a = CHR ''0'' \<and> b = CHR ''x'' then trim_start_0x s else a # b # s)"
| "trim_start_0x s = s"

definition hex_from_param :: "(string \<Rightarrow> bytes option) \<Rightarrow> string \<Rightarrow> (bytes, string) result" where
  "hex_from_param decode param = ok_or (decode (trim_start_0x param)) ''Invalid hex string''"

datatype read_error = ReadIoError | PayloadTooLarge

type_synonym http_status = nat

definition read_error_status :: "read_error \<Rightarrow> http_status \<times> string" where
  "read_error_status value =
     (case value of
        ReadIoError \<Rightarrow> (503, ''Read body failed'')
      | PayloadTooLarge \<Rightarrow> (413, ''Entity too large''))"

text \<open>
  The library reads at most \<open>limit\<close> bytes of a body and tells whether that was all of it.
\<close>

definition read_data :: "(nat \<Rightarrow> (bytes \<times> bool) option) \<Rightarrow> nat \<Rightarrow> (bytes, read_error) result" where
  "read_data into_bytes limit =
     (case into_bytes limit of
        None \<Rightarrow> Err ReadIoError
      | Some (data, complete) \<Rightarrow> if \<not> complete then Err PayloadTooLarge else Ok data)"

definition limit_for_method :: "string \<Rightarrow> (string \<Rightarrow> nat option) \<Rightarrow> nat" where
  "limit_for_method method limits =
     (case limits method of Some v \<Rightarrow> v | None \<Rightarrow> 10 * 1024 * 1024)"

datatype prpc_error = PrpcNotFound | PrpcDecodeError string | PrpcBadRequest string

text \<open>
  The generated service answers a request on its path, body and format; the two encodings of an
  error message are given.
\<close>

definition dispatch_prpc ::
  "(string \<Rightarrow> bytes) \<Rightarrow> (string \<Rightarrow> bytes) \<Rightarrow> (string \<Rightarrow> bytes \<Rightarrow> bool \<Rightarrow> (bytes, prpc_error) result) \<Rightarrow>
   string \<Rightarrow> bytes \<Rightarrow> bool \<Rightarrow> http_status \<times> bytes" where
  "dispatch_prpc json_error proto_error dispatch_request path data json =
     (case dispatch_request path data json of
        Ok data \<Rightarrow> (200, data)
      | Err err \<Rightarrow>
          let (code, error) = (case err of
                PrpcNotFound \<Rightarrow> (404, ''method Not Found'')
              | PrpcDecodeError msg \<Rightarrow> (400, ''DecodeError('' @ msg @ '')'')
              | PrpcBadRequest msg \<Rightarrow> (400, msg))
          in if json then (code, json_error error) else (code, proto_error error))"

text \<open>\<open>Status::from_code\<close> knows the codes from 100 to 599.\<close>

definition handle_prpc ::
  "(string \<Rightarrow> bytes) \<Rightarrow> (string \<Rightarrow> bytes) \<Rightarrow> (string \<Rightarrow> bytes \<Rightarrow> bool \<Rightarrow> (bytes, prpc_error) result) \<Rightarrow>
   string \<Rightarrow> (nat \<Rightarrow> (bytes \<times> bool) option) option \<Rightarrow> (string \<Rightarrow> nat option) \<Rightarrow> bool option \<Rightarrow> bool \<Rightarrow>
   (bytes, http_status \<times> bytes) result" where
  "handle_prpc json_error proto_error dispatch_request method body limits content_is_json json =
     and_then
       (case body of
          Some into_bytes \<Rightarrow>
            map_err (\<lambda>e. let (status, msg) = read_error_status e in (status, bytes_of msg))
              (read_data into_bytes (limit_for_method method limits))
        | None \<Rightarrow> Ok [])
       (\<lambda>data.
         let json' = (json \<or> (case content_is_json of Some j \<Rightarrow> j | None \<Rightarrow> False));
             (status_code, output) = dispatch_prpc json_error proto_error dispatch_request method data json'
         in if status_code = 200 then Ok output
            else if 100 \<le> status_code \<and> status_code < 600 then Err (status_code, output)
            else Err (503, []))"

text \<open>
  An HTTP request to an app: the address, an instance made ready, its command channel. \<open>connect\<close> is
  what sending the request and waiting for the response head gives for a machine; the guard is
  held until the response has been streamed, or dropped with the error.
\<close>

definition connect_vm ::
  "RpcEnv \<Rightarrow> (nat \<Rightarrow> string option) \<Rightarrow> bytes \<Rightarrow> string option \<Rightarrow> WorkerState \<Rightarrow>
   (nat \<times> QueryGuard, http_status) result \<times> WorkerState" where
  "connect_vm env connect_error address path w =
     (if length address \<noteq> 32 then (Err 400, w)
      else case prepare_instance_for_query (naming env) (waits env) (meters env) (clock env) address 0 w of
        (Err e, w1) \<Rightarrow> (Err 404, w1)
      | (Ok guard, w1) \<Rightarrow>
          (case sender_for address 0 w1 of
             None \<Rightarrow> (Err 404, drop_guard (clock env) guard w1)
           | Some command_tx \<Rightarrow>
               (case path of
                  None \<Rightarrow> (Err 400, drop_guard (clock env) guard w1)
                | Some p \<Rightarrow>
                    if connect_error command_tx \<noteq> None
                    then (Err 500, drop_guard (clock env) guard (others (waits env) w1))
                    else (Ok (command_tx, guard), others (waits env) w1))))"

subsection \<open>Authorisation\<close>

definition api_token_new :: "string \<Rightarrow> string" where
  "api_token_new token = (if token = [] then [] else ''Bearer '' @ token)"

datatype auth_outcome = Authorized | Unauthorized string

definition authorize :: "string \<Rightarrow> string option \<Rightarrow> auth_outcome" where
  "authorize token_value header =
     (if token_value = [] then Authorized
      else case header of
        Some value \<Rightarrow> if value = token_value then Authorized else Unauthorized ''invalid token''
      | None \<Rightarrow> Unauthorized ''Authorization header not found'')"

section \<open>Lemmas\<close>

lemma map_err_simps [simp, result_simps]: "map_err f (Ok v) = Ok v" "map_err f (Err e) = Err (f e)"
  by (simp_all add: map_err_def)

lemma map_err_eq_Ok [simp]: "map_err f r = Ok v \<longleftrightarrow> r = Ok v"
  by (cases r) simp_all

lemma with_arg_simps [simp]: "with_arg (Ok v) f s = f v" "with_arg (Err e) f s = (Err e, s)"
  by (simp_all add: with_arg_def)

lemma from_worker_simps [simp]: "fst (from_worker rw) = map_err FromWorker (fst rw)" "snd (from_worker rw) = snd rw"
  by (simp_all add: from_worker_def)

lemma string_pair_roundtrip: "string_pair_into (string_pair_from x) = x" "string_pair_from (string_pair_into p) = p"
  by (simp_all add: string_pair_into_def string_pair_from_def)

lemma manifest_pb_roundtrip: "manifest_from_pb (manifest_to_pb m) = m" "manifest_to_pb (manifest_from_pb p) = p"
  by (simp_all add: manifest_from_pb_def manifest_to_pb_def string_pair_roundtrip comp_def)

text \<open>
  While an operation does not hold the lock, other tasks take steps of the worker; calls keep the
  worker's invariant under that assumption.
\<close>

definition others_ok :: "RpcEnv \<Rightarrow> bool" where
  "others_ok env \<longleftrightarrow>
     (\<forall>w. \<exists>gs gs'. (worker_step (naming env) (man_size_hint env) (man_address env))\<^sup>*\<^sup>* (w, gs) (others (waits env) w, gs'))"

abbreviation rpc_inv :: "RpcEnv \<Rightarrow> WorkerState \<Rightarrow> bool" where
  "rpc_inv env \<equiv> worker_inv (man_size_hint env) (man_address env)"

lemma worker_steps_inv:
  "(worker_step nm size_hint gen)\<^sup>*\<^sup>* s s' \<Longrightarrow> worker_inv size_hint gen (fst s) \<Longrightarrow> worker_inv size_hint gen (fst s')"
  by (induction rule: rtranclp_induct) (auto intro: worker_step_inv)

lemma others_inv: "others_ok env \<Longrightarrow> rpc_inv env w \<Longrightarrow> rpc_inv env (others (waits env) w)"
  unfolding others_ok_def using worker_steps_inv by (metis fst_conv)

lemma worker_step_inv_fst: "worker_step nm size_hint gen (w, gs) (w', gs') \<Longrightarrow> worker_inv size_hint gen w \<Longrightarrow> worker_inv size_hint gen w'"
  using worker_step_inv by fastforce

lemmas section_inv =
  worker_step_inv_fst [OF worker_step.resizes] worker_step_inv_fst [OF worker_step.increments]
  worker_step_inv_fst [OF worker_step.removes] worker_step_inv_fst [OF worker_step.clears]
  worker_step_inv_fst [OF worker_step.inits] worker_step_inv_fst [OF worker_step.benches]
  worker_step_inv_fst [OF worker_step.begins]

lemma drop_guard_inv: "rpc_inv env w \<Longrightarrow> rpc_inv env (drop_guard now g w)"
  by (rule shrink_step_inv [OF drop_guard_shrink])

lemma begin_query_Err: "begin_query a n w = (Err e, w') \<Longrightarrow> w' = w"
  by (auto simp: begin_query_def Let_def split: option.splits if_splits)

lemma resize_and_wait_inv:
  assumes "others_ok env" "rpc_inv env w"
  shows "rpc_inv env (snd (resize_and_wait (naming env) (waits env) (meters env) a n demand w))"
proof -
  let ?t = "if demand then Some (on_demand_connection_timeout (args w)) else None"
  obtain r w1 where r: "resize_app_instances (naming env) (meters env) a n ?t w = (r, w1)" by force
  have "rpc_inv env w1" using section_inv(1) [OF assms(2), of "naming env" "meters env" a n ?t] r by simp
  then show ?thesis using others_inv [OF assms(1)] r
    by (cases r) (auto simp: resize_and_wait_def Let_def)
qed

lemma prepare_inv:
  assumes ok: "others_ok env" and inv: "rpc_inv env w"
  shows "rpc_inv env (snd (prepare_instance_for_query (naming env) (waits env) (meters env) now a n w))"
proof (cases "begin_query a n w")
  case (Pair r w1)
  show ?thesis
  proof (cases r)
    case (Err e)
    with Pair begin_query_Err [of a n w e w1] inv show ?thesis by (simp add: prepare_instance_for_query_def)
  next
    case (Ok gb)
    obtain g b where gb: "gb = (g, b)" by force
    have "begin_query a n w = (Ok (g, b), w1)" using Pair Ok gb by simp
    then have "rpc_inv env w1" using worker_step_inv_fst [OF worker_step.begins] inv by blast
    then have inv2: "rpc_inv env (others (waits env) w1)" by (rule others_inv [OF ok])
    obtain r3 w3 where r3: "resize_and_wait (naming env) (waits env) (meters env) a 1 True (others (waits env) w1) = (r3, w3)" by force
    have inv3: "rpc_inv env w3" using resize_and_wait_inv [OF ok inv2, of a 1 True] r3 by simp
    obtain r4 w4 where r4: "try_inc_instances (naming env) (meters env) a (others (waits env) w1) = (r4, w4)" by force
    have inv4: "rpc_inv env w4" using section_inv(2) [OF inv2, of "naming env" "meters env" a] r4 by simp
    show ?thesis
      using Pair Ok gb inv2 inv3 inv4 r3 r4 drop_guard_inv others_inv [OF ok]
      by (auto simp: prepare_instance_for_query_def Let_def split: result.splits)
  qed
qed

lemma query_inv:
  assumes ok: "others_ok env" and inv: "rpc_inv env w"
  shows "rpc_inv env (snd (query (naming env) (waits env) (meters env) now origin a path pl w))"
proof -
  obtain r w1 where r: "prepare_instance_for_query (naming env) (waits env) (meters env) now a (length pl + length path) w = (r, w1)"
    by force
  have inv1: "rpc_inv env w1" using prepare_inv [OF ok inv, of now a "length pl + length path"] r by simp
  show ?thesis
    using r inv1 drop_guard_inv others_inv [OF ok inv1]
    by (cases r) (simp_all add: query_def Let_def split: result.split)
qed

lemma deploy_inv:
  assumes ok: "others_ok env" and inv: "rpc_inv env w"
  shows "rpc_inv env (snd (deploy_app (naming env) (waits env) (meters env) (man_size_hint env) (man_address env)
    session now m restart reuse w))"
proof (cases "check_manifest (man_size_hint env) m")
  case (Ok u)
  obtain r w1 where r: "register_app (man_address env m) session now m restart reuse w = (r, w1)" by force
  have "rpc_inv env w1"
    using worker_step_inv_fst [OF worker_step.registers [where size_hint = "man_size_hint env" and gen = "man_address env" and m = m and w = w]] Ok inv r
    by (metis old.unit.exhaust snd_conv)
  note inv1 = this others_inv [OF ok this]
  note inv2 = resize_and_wait_inv [OF ok inv1(2), of "man_address env m" 1 False]
  show ?thesis
    using Ok r inv1 inv2
    by (cases r; cases "resize_and_wait (naming env) (waits env) (meters env) (man_address env m) 1 False (others (waits env) w1)";
        cases "fst (resize_and_wait (naming env) (waits env) (meters env) (man_address env m) 1 False (others (waits env) w1))")
      (auto simp: deploy_app_def Let_def split: option.split)
qed (use inv in \<open>simp add: deploy_app_def\<close>)

text \<open>The calls that change the worker's state.\<close>

inductive rpc_step :: "RpcEnv \<Rightarrow> WorkerState \<Rightarrow> WorkerState \<Rightarrow> bool" for env where
  call_init: "rpc_step env w (snd (rpc_worker_init env pnonce recipient w))"
| call_deploy: "rpc_step env w (snd (rpc_app_deploy env m reuse w))"
| call_remove: "rpc_step env w (snd (rpc_app_remove env raw w))"
| call_start: "rpc_step env w (snd (rpc_app_start env raw w))"
| call_stop: "rpc_step env w (snd (rpc_app_stop env raw w))"
| call_metrics: "rpc_step env w (snd (rpc_app_metrics env raws w))"
| call_resize: "rpc_step env w (snd (rpc_app_resize env raw n w))"
| call_remove_all: "rpc_step env w (rpc_app_remove_all w)"
| call_query: "rpc_step env w (snd (rpc_app_query env q w))"
| call_encrypted: "rpc_step env w (snd (rpc_app_encrypted_query env eq w))"
| call_user_query: "rpc_step env w (snd (user_query env q w))"
| call_user_encrypted: "rpc_step env w (snd (user_encrypted_query env eq w))"
| call_bench: "rpc_step env w (snd (rpc_set_bench_app env raw n w))"
| call_http: "rpc_step env w (snd (connect_vm env connect_error address path w))"
| call_http_done: "rpc_step env w (drop_guard now g w)"

lemma with_arg_inv:
  "rpc_inv env w \<Longrightarrow> (\<And>v. r = Ok v \<Longrightarrow> rpc_inv env (snd (f v))) \<Longrightarrow> rpc_inv env (snd (with_arg r f w))"
  by (cases r) simp_all

lemma rpc_app_query_inv:
  assumes "others_ok env" "rpc_inv env w" shows "rpc_inv env (snd (rpc_app_query env q w))"
  unfolding rpc_app_query_def
  by (rule with_arg_inv [OF assms(2)], rule with_arg_inv [OF assms(2)]) (simp add: query_inv [OF assms])

lemma rpc_app_encrypted_query_inv:
  assumes "others_ok env" "rpc_inv env w" shows "rpc_inv env (snd (rpc_app_encrypted_query env q w))"
  unfolding rpc_app_encrypted_query_def
  by (rule with_arg_inv [OF assms(2)], rule with_arg_inv [OF assms(2)]) (simp add: rpc_app_query_inv [OF assms])

lemma bump_inv: "rpc_inv env w \<Longrightarrow> rpc_inv env (snd (bump_metrics_sn w))"
  by (erule worker_inv_cong) (simp_all add: bump_metrics_sn_def)

lemma rpc_app_metrics_inv:
  assumes ok: "others_ok env" and inv: "rpc_inv env w" shows "rpc_inv env (snd (rpc_app_metrics env raws w))"
  unfolding rpc_app_metrics_def
  by (rule with_arg_inv [OF inv])
    (auto simp: Let_def case_prod_beta bump_inv [OF inv] intro!: others_inv [OF ok] split: option.split)

lemma connect_vm_inv:
  assumes ok: "others_ok env" and inv: "rpc_inv env w" shows "rpc_inv env (snd (connect_vm env ce address path w))"
proof -
  obtain r w1 where r: "prepare_instance_for_query (naming env) (waits env) (meters env) (clock env) address 0 w = (r, w1)"
    by force
  have inv1: "rpc_inv env w1" using prepare_inv [OF ok inv, of "clock env" address 0] r by simp
  show ?thesis
    using r inv inv1 drop_guard_inv others_inv [OF ok inv1]
    by (cases r) (auto simp: connect_vm_def split: option.split)
qed

lemma remove_then_others_inv:
  assumes ok: "others_ok env" and inv: "rpc_inv env w" shows "rpc_inv env (snd (rpc_app_remove env raw w))"
  unfolding rpc_app_remove_def
proof (rule with_arg_inv [OF inv])
  fix address
  obtain r w1 where r: "remove_app address w = (r, w1)" by force
  have "rpc_inv env w1" using section_inv(3) [OF inv, of address] r by simp
  then show "rpc_inv env (snd (case remove_app address w of (Err e, w1) \<Rightarrow> (Err (FromWorker e), w1)
      | (Ok _, w1) \<Rightarrow> (Ok (), others (waits env) w1)))"
    using others_inv [OF ok] by (simp add: r split: result.split)
qed

lemma rpc_app_resize_inv:
  assumes ok: "others_ok env" and inv: "rpc_inv env w" shows "rpc_inv env (snd (rpc_app_resize env raw n w))"
  unfolding rpc_app_resize_def
proof (rule with_arg_inv [OF inv])
  fix address
  show "rpc_inv env (snd (case resize_and_wait (naming env) (waits env) (meters env) address (unat n) False w of
      (Err e, w1) \<Rightarrow> (Err (FromWorker e), w1)
    | (Ok _, w1) \<Rightarrow> (case num_instances_of address w1 of None \<Rightarrow> (Err RpcNotFound, w1) | Some number \<Rightarrow> (Ok (of_nat number), w1))))"
    using resize_and_wait_inv [OF ok inv, of address "unat n" False]
    by (auto split: prod.split result.split option.split)
qed

lemma rpc_worker_init_state:
  "snd (rpc_worker_init env pnonce recipient w) = w \<or>
   (\<exists>account. snd (rpc_worker_init env pnonce recipient w) = snd (session_init (hashes env) (random32 env) pnonce account w))"
  by (auto simp: rpc_worker_init_def Let_def split: option.split prod.split result.split) (metis snd_conv)+

lemma rpc_step_inv:
  assumes "rpc_step env w w'" and ok: "others_ok env" and inv: "rpc_inv env w"
  shows "rpc_inv env w'"
  using assms(1)
proof cases
  case (call_init pnonce recipient)
  with rpc_worker_init_state [of env pnonce recipient w] section_inv(5) [OF inv, of "hashes env" "random32 env" pnonce]
  show ?thesis using inv by auto
next
  case (call_deploy m reuse)
  obtain r w1 where r: "deploy_app (naming env) (waits env) (meters env) (man_size_hint env) (man_address env)
    (random32 env) (clock env) (manifest_from_pb (the m)) True reuse w = (r, w1)" by force
  with deploy_inv [OF ok inv, of "random32 env" "clock env" "manifest_from_pb (the m)" True reuse]
  have "rpc_inv env w1" by simp
  with r inv show ?thesis unfolding call_deploy by (auto simp: rpc_app_deploy_def split: option.split result.split)
next
  case call_start
  show ?thesis unfolding call_start rpc_app_start_def
    by (rule with_arg_inv [OF inv]) (simp add: start_app_rpc_def resize_and_wait_inv [OF ok inv])
next
  case call_stop
  show ?thesis unfolding call_stop rpc_app_stop_def
    by (rule with_arg_inv [OF inv]) (simp add: stop_app_rpc_def resize_and_wait_inv [OF ok inv])
next
  case call_encrypted
  show ?thesis unfolding call_encrypted by (rule rpc_app_encrypted_query_inv [OF ok inv])
next
  case call_user_query
  show ?thesis unfolding call_user_query user_query_def by (rule rpc_app_query_inv [OF ok inv])
next
  case call_user_encrypted
  show ?thesis unfolding call_user_encrypted user_encrypted_query_def
    by (rule rpc_app_encrypted_query_inv [OF ok inv])
next
  case (call_bench raw n)
  have "rpc_inv env (set_bench_app a n w)" for a using section_inv(6) [OF inv, of a n] .
  with resize_and_wait_inv [OF ok this] show ?thesis
    unfolding call_bench by (simp add: rpc_set_bench_app_def Let_def split: option.split)
qed (simp_all add: inv ok remove_then_others_inv rpc_app_resize_inv rpc_app_query_inv connect_vm_inv drop_guard_inv
  rpc_app_metrics_inv rpc_app_remove_all_def section_inv(4) [OF inv])

interpretation rpc: invariant_system
  "\<lambda>w. \<exists>a. w = worker_new a" "\<lambda>w w'. others_ok env \<and> rpc_step env w w'" "rpc_inv env"
  for env :: RpcEnv
  by unfold_locales (auto intro: worker_new_inv rpc_step_inv)

lemma query_caller_Some:
  "query_caller env q = Ok (Some acc) \<longleftrightarrow>
   qa_encoded_signature q \<noteq> [] \<and>
   (\<exists>sg. dec_signature (codecs env) (qa_encoded_signature q) = Ok (Some sg) \<and>
      verify_query (siglibs env) (signer sg)
        \<lparr> q_address = qa_address q, q_path = qa_path q, q_payload = qa_payload q \<rparr>
        (sig_bytes sg) (signature_type sg) = Ok acc)"
  by (auto simp: query_caller_def and_then_eq_Ok map_ok_eq_Ok Let_def split: if_splits option.splits)

lemma rpc_app_query_Ok:
  "rpc_app_query env q w = (Ok out, w') \<longleftrightarrow>
   (\<exists>origin address. query_caller env q = Ok origin \<and> dec_address (codecs env) (qa_address q) = Ok address \<and>
      query (naming env) (waits env) (meters env) (clock env) origin address (qa_path q) (qa_payload q) w = (Ok out, w'))"
  by (cases "query_caller env q"; cases "dec_address (codecs env) (qa_address q)")
    (auto simp: rpc_app_query_def decode_address_def from_worker_def prod_eq_iff)

text \<open>The first machine is the only one with the run number zero, until the counter wraps.\<close>

lemma sender_for_zero:
  assumes inv: "worker_inv size_hint gen w" and bound: "length (vms w) \<le> 2 ^ 64" and s: "sender_for a 0 w = Some vm"
  shows "vm = 0"
proof -
  from s obtain app i where app: "map_of (apps w) a = Some app" and i: "map_of (instances app) 0 = Some i"
    and vm: "vm = vm_handle i" by (auto simp: sender_for_def split: option.splits)
  from worker_inv_app [OF inv app] map_of_SomeD [OF i]
  have num: "(0 :: u64) = of_nat (vm_handle i)" "vm_handle i < length (vms w)" by (auto simp: numbered_def)
  then have "(2 :: nat) ^ 64 dvd vm_handle i" using word_of_nat_eq_0_iff [where 'a = 64, of "vm_handle i"] by simp
  with num(2) bound show ?thesis by (auto simp: vm dest: dvd_imp_le)
qed

subsection \<open>An example\<close>

definition demo_codecs :: Codecs where
  "demo_codecs =
     \<lparr> dec_address = \<lambda>b. Ok b, dec_addresses = \<lambda>b. Ok b,
       dec_signature = \<lambda>b. Ok (Some \<lparr> signature_type = Sr25519, sig_bytes = b, signer = Root \<lparr> rs_pubkey = [7] \<rparr> \<rparr>),
       dec_prices = \<lambda>b. Ok prices_default, dec_hash = \<lambda>b. Ok b, dec_opt_address = \<lambda>b. Ok (Some b),
       dec_query_args = \<lambda>b. Ok \<lparr> qa_address = [1], qa_path = [], qa_payload = b, qa_encoded_signature = [] \<rparr>,
       ss58_account = \<lambda>s. Some [], enc_session_update = \<lambda>u. [], enc_metrics = \<lambda>m. [], enc_endpoints = \<lambda>e. [],
       enc_registration = \<lambda>r. [], enc_description = \<lambda>d. [], attest = \<lambda>d. None \<rparr>"

definition demo_waits :: Waits where
  "demo_waits =
     \<lparr> stops = \<lambda>_. True, statuses = \<lambda>_. [Running], accepts = \<lambda>_. True,
       reply = \<lambda>vm origin path pl. Some (Ok pl), others = \<lambda>w. w \<rparr>"

definition demo_rpc :: RpcEnv where
  "demo_rpc =
     \<lparr> codecs = demo_codecs, siglibs = demo_sigs, keylibs = demo_keys, worker_key = \<lparr> secret = replicate 64 3 \<rparr>,
       hashes = \<lparr> sr25519_verify = \<lambda>_ _ _. True, keccak_256 = \<lambda>b. b, blake2b_256 = \<lambda>b. b \<rparr>, naming = demo_naming,
       waits = demo_waits, meters = \<lambda>_. metrics_default, clock = 0, unix_millis = Some 0, random32 = [],
       man_size_hint = \<lambda>_. 100, man_address = \<lambda>_. [1] \<rparr>"

lemma demo_rpc_simps [simp]:
  "codecs demo_rpc = demo_codecs" "siglibs demo_rpc = demo_sigs" "keylibs demo_rpc = demo_keys"
  "naming demo_rpc = demo_naming" "waits demo_rpc = demo_waits" "man_size_hint demo_rpc = (\<lambda>_. 100)"
  "man_address demo_rpc = (\<lambda>_. [1])" "worker_key demo_rpc = \<lparr> secret = replicate 64 3 \<rparr>"
  "meters demo_rpc = (\<lambda>_. metrics_default)" "clock demo_rpc = 0" "random32 demo_rpc = []"
  by (simp_all add: demo_rpc_def)

lemma demo_others_ok: "others_ok demo_rpc"
proof -
  have "(worker_step demo_naming (\<lambda>_. 100) (\<lambda>_. [1]))\<^sup>*\<^sup>* (w, []) (w, [])" for w by simp
  then show ?thesis unfolding others_ok_def demo_rpc_simps by (fastforce simp: demo_waits_def)
qed

definition demo_args_query :: QueryArgs where
  "demo_args_query = \<lparr> qa_address = [1], qa_path = [], qa_payload = [5], qa_encoded_signature = [7] \<rparr>"

lemma demo_query_runs:
  "rpc_app_query demo_rpc demo_args_query demo_worker = (Ok [5], put_app [1] (snd (on_going_query_dec 0
     (on_going_query_inc (snd (hd (apps demo_worker)))))) demo_worker)"
proof -
  have c: "query_caller demo_rpc demo_args_query = Ok (Some [7])"
    unfolding query_caller_Some by (simp add: demo_codecs_def demo_args_query_def root_verify_query_def
      non_eip712_verify_def sub_recover_def verify_sig_def demo_sigs_def Let_def)
  have q: "query demo_naming demo_waits (\<lambda>_. metrics_default) 0 (Some [7]) [1] [] [5] demo_worker =
      (Ok [5], put_app [1] (snd (on_going_query_dec 0 (on_going_query_inc (snd (hd (apps demo_worker)))))) demo_worker)"
    by (simp add: query_def prepare_instance_for_query_def begin_query_def demo_worker_apps demo_manifest_def
        query_target_def drop_guard_def end_query_def on_going_query_inc_def on_going_query_dec_def put_app_def
        hash_insert_def demo_waits_def Let_def)
  show ?thesis unfolding rpc_app_query_Ok
    using c q by (intro exI [of _ "Some [7]"] exI [of _ "[1]"]) (simp add: demo_codecs_def demo_args_query_def)
qed

text \<open>A worker with one app under an address of 32 bytes, for requests over HTTP.\<close>

definition demo_address :: bytes where
  "demo_address = replicate 32 1"

lemma length_demo_address [simp]: "length demo_address = 32"
  by (simp add: demo_address_def)

definition demo_http_env :: RpcEnv where
  "demo_http_env = demo_rpc\<lparr>man_address := \<lambda>_. demo_address\<rparr>"

definition demo_http_worker :: WorkerState where
  "demo_http_worker = snd (resize_app_instances demo_naming (\<lambda>_. metrics_default) demo_address 1 None
     (snd (register_app demo_address [9] 0 demo_manifest False True (worker_new demo_args))))"

lemma demo_http_reachable:
  "(worker_step demo_naming (\<lambda>_. 100) (\<lambda>_. demo_address))\<^sup>*\<^sup>* (worker_new demo_args, []) (demo_http_worker, [])"
proof -
  let ?w = "snd (register_app demo_address [9] 0 demo_manifest False True (worker_new demo_args))"
  have "worker_step demo_naming (\<lambda>_. 100) (\<lambda>_. demo_address) (worker_new demo_args, []) (?w, [])"
    using worker_step.registers [where size_hint = "\<lambda>_. 100" and gen = "\<lambda>_. demo_address" and m = demo_manifest]
    by (simp add: check_manifest_def demo_manifest_def MAX_MANIFEST_SIZE_def)
  moreover have "worker_step demo_naming (\<lambda>_. 100) (\<lambda>_. demo_address) (?w, []) (demo_http_worker, [])"
    unfolding demo_http_worker_def by (rule worker_step.resizes)
  ultimately show ?thesis by simp
qed

lemma demo_http_others_ok: "others_ok demo_http_env"
proof -
  have "(worker_step demo_naming (\<lambda>_. 100) (\<lambda>_. demo_address))\<^sup>*\<^sup>* (w, []) (w, [])" for w by simp
  then show ?thesis unfolding others_ok_def demo_http_env_def by (fastforce simp: demo_waits_def)
qed

lemma demo_http_prepare:
  "\<exists>g w'. prepare_instance_for_query demo_naming demo_waits (\<lambda>_. metrics_default) 0 demo_address 0 demo_http_worker = (Ok g, w') \<and>
     length (vms w') = 1 \<and> sender_for demo_address 0 w' = Some 0"
  by (simp add: demo_http_worker_def register_app_def resize_app_instances_def start_app_def put_app_def
      hash_insert_def available_slots_def running_instances_def worker_new_def demo_args_def demo_manifest_def
      prepare_instance_for_query_def begin_query_def on_going_query_inc_def sender_for_def demo_waits_def Let_def)

section \<open>Theorems\<close>

text \<open>
  C30: Whatever calls administrators, users and HTTP clients make, in any order and with any
  arguments, and whatever the worker's other tasks do while a call waits, the worker never runs more
  instances than it has slots, and every app it holds passed the checks of deployment and is stored
  under the address of its own manifest.
\<close>

theorem rpc_calls_keep_capacity:
  assumes "(rpc_step env)\<^sup>*\<^sup>* (worker_new a) w" and "others_ok env"
  shows "running_instances w \<le> max_instances (args w)
    \<and> (map_of (apps w) address = Some app \<longrightarrow>
        check_manifest (man_size_hint env) (manifest app) = Ok () \<and> man_address env (manifest app) = address)"
proof -
  have "(\<lambda>w w'. others_ok env \<and> rpc_step env w w')\<^sup>*\<^sup>* (worker_new a) w"
    using assms by (simp add: rtranclp_mono [THEN predicate2D])
  then have "rpc_inv env w" using rpc.reachable_inv by blast
  then show ?thesis by (auto simp: worker_inv_def app_ok_def)
qed

theorem rpc_calls_keep_capacity_witness:
  "apps (snd (rpc_app_deploy demo_rpc (Some (manifest_to_pb demo_manifest)) True
     (snd (rpc_worker_init demo_rpc [] [] (worker_new demo_args))))) \<noteq> [] \<and>
   running_instances (snd (rpc_app_deploy demo_rpc (Some (manifest_to_pb demo_manifest)) True
     (snd (rpc_worker_init demo_rpc [] [] (worker_new demo_args))))) \<le>
   max_instances (args (snd (rpc_app_deploy demo_rpc (Some (manifest_to_pb demo_manifest)) True
     (snd (rpc_worker_init demo_rpc [] [] (worker_new demo_args))))))"
    (is "apps ?w \<noteq> [] \<and> _")
proof -
  have "rpc_step demo_rpc (worker_new demo_args) (snd (rpc_worker_init demo_rpc [] [] (worker_new demo_args)))"
    by (rule call_init)
  moreover have "rpc_step demo_rpc (snd (rpc_worker_init demo_rpc [] [] (worker_new demo_args))) ?w"
    by (rule call_deploy)
  ultimately have r: "(rpc_step demo_rpc)\<^sup>*\<^sup>* (worker_new demo_args) ?w" by simp
  have "apps ?w \<noteq> []"
    by (simp add: rpc_app_deploy_def rpc_worker_init_def session_init_def demo_codecs_def manifest_pb_roundtrip
        deploy_app_def check_manifest_def register_app_def resize_and_wait_def resize_app_instances_def
        start_app_def put_app_def hash_insert_def available_slots_def running_instances_def worker_new_def
        demo_args_def demo_manifest_def demo_waits_def app_info_def MAX_MANIFEST_SIZE_def Let_def)
  with rpc_calls_keep_capacity [OF r demo_others_ok] show ?thesis by blast
qed

text \<open>
  C31: The origin an app sees is authenticated: a query that reaches an app is passed on with no origin,
  or with the account of a signature that was valid for exactly this address, path and payload. A query
  whose signature cannot be decoded or is rejected changes nothing.
\<close>

theorem rpc_query_origin_authenticated:
  "(rpc_app_query env q w = (Ok out, w') \<longrightarrow>
     (\<exists>origin address. dec_address (codecs env) (qa_address q) = Ok address \<and>
        query (naming env) (waits env) (meters env) (clock env) origin address (qa_path q) (qa_payload q) w = (Ok out, w') \<and>
        (case origin of
           None \<Rightarrow> qa_encoded_signature q = [] \<or> dec_signature (codecs env) (qa_encoded_signature q) = Ok None
         | Some acc \<Rightarrow> \<exists>sg. dec_signature (codecs env) (qa_encoded_signature q) = Ok (Some sg) \<and>
             verify_query (siglibs env) (signer sg)
               \<lparr> q_address = qa_address q, q_path = qa_path q, q_payload = qa_payload q \<rparr>
               (sig_bytes sg) (signature_type sg) = Ok acc))) \<and>
   (query_caller env q = Err e \<longrightarrow> rpc_app_query env q w = (Err e, w))"
proof (intro conjI impI)
  assume "rpc_app_query env q w = (Ok out, w')"
  then obtain origin address where o: "query_caller env q = Ok origin"
    "dec_address (codecs env) (qa_address q) = Ok address"
    "query (naming env) (waits env) (meters env) (clock env) origin address (qa_path q) (qa_payload q) w = (Ok out, w')"
    by (auto simp: rpc_app_query_Ok)
  have "qa_encoded_signature q = [] \<or> dec_signature (codecs env) (qa_encoded_signature q) = Ok None" if "origin = None"
    using o(1) that by (auto simp: query_caller_def and_then_eq_Ok map_ok_eq_Ok Let_def split: if_splits option.splits)
  with o show "\<exists>origin address. dec_address (codecs env) (qa_address q) = Ok address \<and>
      query (naming env) (waits env) (meters env) (clock env) origin address (qa_path q) (qa_payload q) w = (Ok out, w') \<and>
      (case origin of
         None \<Rightarrow> qa_encoded_signature q = [] \<or> dec_signature (codecs env) (qa_encoded_signature q) = Ok None
       | Some acc \<Rightarrow> \<exists>sg. dec_signature (codecs env) (qa_encoded_signature q) = Ok (Some sg) \<and>
           verify_query (siglibs env) (signer sg)
             \<lparr> q_address = qa_address q, q_path = qa_path q, q_payload = qa_payload q \<rparr>
             (sig_bytes sg) (signature_type sg) = Ok acc)"
    by (intro exI [of _ origin] exI [of _ address]) (auto simp: query_caller_Some split: option.split)
qed (simp add: rpc_app_query_def)

theorem rpc_query_origin_authenticated_witness:
  "\<exists>origin address. dec_address demo_codecs (qa_address demo_args_query) = Ok address \<and>
     fst (query demo_naming demo_waits (\<lambda>_. metrics_default) 0 origin address [] [5] demo_worker) = Ok [5]"
proof -
  from mp [OF conjunct1 [OF rpc_query_origin_authenticated] demo_query_runs] show ?thesis
    unfolding demo_rpc_simps
  proof (elim exE conjE, goal_cases)
    case (1 origin address)
    then show ?case by (intro exI [of _ origin] exI [of _ address]) (simp add: demo_args_query_def)
  qed
qed

text \<open>
  C32: Encrypting a query changes nothing but who can read it: if a client encrypts the encoding of
  a query for the worker's key, the call has the result and the effect of the same query sent in the
  clear, provided the cipher and the key agreement do what they promise and the encoding can be decoded.
\<close>

theorem encrypted_query_equivalent:
  assumes "aead_ok (keylibs env)" and "agreement_ok (keylibs env) client (worker_key env)" and "length iv = 12"
    and "encrypt_message (keylibs env) iv client (pair_public (keylibs env) (worker_key env)) encoded = Ok c"
    and "dec_query_args (codecs env) encoded = Ok q"
  shows "rpc_app_encrypted_query env
      \<lparr> eq_pubkey = pair_public (keylibs env) client, eq_encrypted_payload = c \<rparr> w = rpc_app_query env q w"
  using decrypt_encrypt_message [OF assms(1-4)] assms(5) by (simp add: rpc_app_encrypted_query_def)

theorem encrypted_query_equivalent_witness:
  "rpc_app_encrypted_query demo_rpc
     \<lparr> eq_pubkey = take 32 (replicate 64 9), eq_encrypted_payload = replicate 12 0 @ [5 + 1, 0] \<rparr> demo_worker =
   rpc_app_query demo_rpc (demo_args_query\<lparr>qa_encoded_signature := []\<rparr>) demo_worker"
proof -
  have "encrypt_message demo_keys (replicate 12 0) \<lparr> secret = replicate 64 9 \<rparr>
      (pair_public demo_keys (worker_key demo_rpc)) [5] = Ok (replicate 12 0 @ [5 + 1, 0])"
    by (simp add: encrypt_message_def ecdh_agree_def aead_encrypt_in_place_def aead_load_key_def demo_keys_def)
  from encrypted_query_equivalent [where env = demo_rpc, simplified, OF demo_keys_ok(1) demo_keys_ok(2) _ this [simplified],
      of "demo_args_query\<lparr>qa_encoded_signature := []\<rparr>" demo_worker]
  show ?thesis by (simp add: demo_codecs_def demo_args_query_def pair_public_def demo_keys_def)
qed

text \<open>
  C33: HTTP requests reach only the first machine that was ever started. The command channel for a
  request is looked up under the number zero among the numbers of the app's runs, which are
  counted for the whole worker; so in every reachable state a request that is passed on goes to
  machine zero, and to an app that does not run it every request fails.
\<close>

theorem http_reaches_only_first_machine:
  assumes "(worker_step (naming env) (man_size_hint env) (man_address env))\<^sup>*\<^sup>* (worker_new a, []) (w, gs)" and "others_ok env"
    and "length (vms (snd (prepare_instance_for_query (naming env) (waits env) (meters env) (clock env) address 0 w))) \<le> 2 ^ 64"
    and "connect_vm env connect_error address path w = (Ok (vm, guard), w')"
  shows "vm = 0"
proof -
  have "rpc_inv env w" using worker_steps_inv [OF assms(1)] worker_new_inv by simp
  from prepare_inv [OF assms(2) this, of "clock env" address 0]
  have inv: "rpc_inv env (snd (prepare_instance_for_query (naming env) (waits env) (meters env) (clock env) address 0 w))" .
  have "sender_for address 0 (snd (prepare_instance_for_query (naming env) (waits env) (meters env) (clock env) address 0 w)) = Some vm"
    using assms(4) by (auto simp: connect_vm_def split: if_splits prod.splits result.splits option.splits)
  with sender_for_zero [OF inv assms(3)] show ?thesis .
qed

theorem http_reaches_only_first_machine_witness:
  "\<exists>vm guard w'. connect_vm demo_http_env (\<lambda>_. None) demo_address (Some []) demo_http_worker = (Ok (vm, guard), w') \<and> vm = 0"
proof -
  obtain g w1 where p: "prepare_instance_for_query demo_naming demo_waits (\<lambda>_. metrics_default) 0 demo_address 0 demo_http_worker = (Ok g, w1)"
    and len: "length (vms w1) = 1" and s: "sender_for demo_address 0 w1 = Some 0"
    using demo_http_prepare by blast
  from s obtain vm where "sender_for demo_address 0 w1 = Some vm" by simp
  with p have c: "connect_vm demo_http_env (\<lambda>_. None) demo_address (Some []) demo_http_worker = (Ok (vm, g), w1)"
    by (simp add: connect_vm_def demo_http_env_def) (simp add: demo_waits_def)
  have "vm = 0"
  proof (rule http_reaches_only_first_machine [OF _ demo_http_others_ok _ c])
    show "(worker_step (naming demo_http_env) (man_size_hint demo_http_env) (man_address demo_http_env))\<^sup>*\<^sup>*
        (worker_new demo_args, []) (demo_http_worker, [])"
      using demo_http_reachable by (simp add: demo_http_env_def)
    show "length (vms (snd (prepare_instance_for_query (naming demo_http_env) (waits demo_http_env) (meters demo_http_env)
        (clock demo_http_env) demo_address 0 demo_http_worker))) \<le> 2 ^ 64"
      using p len by (simp add: demo_http_env_def)
  qed
  with c show ?thesis by blast
qed

end
