(* ===== verification/Ipfs_Downloader.thy ===== *)
theory Ipfs_Downloader
  imports Rust_Collections Transition_Systems "HOL-Library.List_Lexorder" "HOL-Library.Char_ord"
begin

text \<open>
  The downloader of the bridge (\<open>wapod-pherry/src/ipfs_downloader.rs\<close>): requests that share a limited
  number of download tasks, the queue behind them, and the files they write. The tasks run
  concurrently: a step of one is what it does between two awaits, and steps of different tasks
  interleave in any order. A write that \<open>write_all\<close> has handed over runs in the background and may
  still be under way when the call returns, as the library documents for its files: the bytes land in the
  file in a step of their own, or the write fails. When renaming a finished file has failed, the next attempt
  creates the temporary file again and does not wait for such a write, which then lands at its old place
  in the new contents. The gateway and the disk are given by their answers; the files of earlier runs
  are there from the start.
\<close>

section \<open>State\<close>

record IpfsDownloaderState =
  dl_pending :: "string list"
  dl_downloading :: "string list"

datatype DlEvent = Downloaded string | DownloadFailure string string

datatype ResState = ResDownloading | ResDownloaded | ResNotFound

record DlConfig =
  dl_base_url :: string
  dl_data_dir :: string
  max_downloading :: nat
  max_pending :: nat
  max_file_size :: nat
  max_download_time :: nat

text \<open>A \<open>BTreeSet\<close> is the strictly sorted list of its elements.\<close>

definition bset_insert :: "'a::linorder \<Rightarrow> 'a list \<Rightarrow> 'a list" where
  "bset_insert x xs = (if x \<in> set xs then xs else insort x xs)"

definition bset_remove :: "'a \<Rightarrow> 'a list \<Rightarrow> 'a list" where
  "bset_remove x xs = filter (\<lambda>y. y \<noteq> x) xs"

definition bset_inv :: "'a::linorder list \<Rightarrow> bool" where
  "bset_inv xs \<longleftrightarrow> sorted_wrt (<) xs"

text \<open>
  A task is identified by the content it downloads. While it receives a body, the state has the size
  and, to state what ends up in the file, the chunks.
\<close>

datatype dl_stage = Creating | Receiving nat "bytes list" | Finished DlEvent

record DlTask =
  dt_cid :: string
  dt_stage :: dl_stage

datatype write_state = Idle | InFlight bytes | WriteFailed

text \<open>
  The downloader with its surroundings: the files by path, the state of the last write to each with the position
  it writes at, the writes of earlier attempts that are still under way (path, position, bytes), the contents
  whose temporary file was created again in spite of such a write, the tasks, the events that were sent,
  and the responses that were received to the end.
\<close>

record Downloader = IpfsDownloaderState +
  dl_files :: "string \<Rightarrow> bytes option"
  dl_writes :: "string \<Rightarrow> write_state"
  dl_pos :: "string \<Rightarrow> nat"
  dl_strays :: "(string \<times> nat \<times> bytes) list"
  dl_reopened :: "string list"
  dl_tasks :: "DlTask list"
  dl_events :: "DlEvent list"
  dl_responses :: "(string \<times> bytes list) list"

definition trim_end_slash :: "string \<Rightarrow> string" where
  "trim_end_slash s = rev (dropWhile (\<lambda>c. c = CHR ''/'') (rev s))"

definition dl_config_new :: "string \<Rightarrow> string \<Rightarrow> DlConfig" where
  "dl_config_new base_url data_dir =
     \<lparr> dl_base_url = trim_end_slash base_url, dl_data_dir = data_dir, max_downloading = 10,
       max_pending = 10000, max_file_size = 1024 * 1024 * 20, max_download_time = 600 \<rparr>"

definition downloader_new :: "(string \<Rightarrow> bytes option) \<Rightarrow> Downloader" where
  "downloader_new found =
     \<lparr> dl_pending = [], dl_downloading = [], dl_files = found, dl_writes = (\<lambda>_. Idle), dl_pos = (\<lambda>_. 0),
       dl_strays = [], dl_reopened = [], dl_tasks = [], dl_events = [], dl_responses = [] \<rparr>"

text \<open>\<open>Path::join\<close>.\<close>

definition path_join :: "string \<Rightarrow> string \<Rightarrow> string" where
  "path_join base name =
     (if name \<noteq> [] \<and> hd name = CHR ''/'' then name
      else if base = [] \<or> last base = CHR ''/'' then base @ name
      else base @ ''/'' @ name)"

definition path_of :: "DlConfig \<Rightarrow> string \<Rightarrow> string" where
  "path_of cfg cid = path_join (dl_data_dir cfg) cid"

definition tmp_path_of :: "DlConfig \<Rightarrow> string \<Rightarrow> string" where
  "tmp_path_of cfg cid = path_join (dl_data_dir cfg) (cid @ ''.tmp'')"

definition url_of :: "DlConfig \<Rightarrow> string \<Rightarrow> string" where
  "url_of cfg cid = dl_base_url cfg @ ''/'' @ cid"

section \<open>Requests\<close>

definition dl_exists :: "DlConfig \<Rightarrow> string \<Rightarrow> Downloader \<Rightarrow> bool" where
  "dl_exists cfg cid s = (dl_files s (path_of cfg cid) \<noteq> None)"

definition dl_busy :: "string \<Rightarrow> Downloader \<Rightarrow> bool" where
  "dl_busy cid s = (cid \<in> set (dl_downloading s) \<or> cid \<in> set (dl_pending s))"

definition state_of :: "DlConfig \<Rightarrow> string \<Rightarrow> Downloader \<Rightarrow> ResState" where
  "state_of cfg cid s =
     (if dl_busy cid s then ResDownloading
      else if dl_exists cfg cid s then ResDownloaded else ResNotFound)"

datatype download_error = QueueFull | ReadFailed string | FileNotFound | DownloadFailed string | EventsLost

definition download ::
  "DlConfig \<Rightarrow> string \<Rightarrow> bool \<Rightarrow> Downloader \<Rightarrow> (bool, download_error) result \<times> Downloader" where
  "download cfg cid force s =
     (if \<not> force \<and> dl_exists cfg cid s then (Ok True, s)
      else if dl_busy cid s then (Ok False, s)
      else if length (dl_downloading s) < max_downloading cfg
      then (Ok False, s\<lparr>dl_downloading := bset_insert cid (dl_downloading s),
              dl_tasks := dl_tasks s @ [\<lparr> dt_cid = cid, dt_stage = Creating \<rparr>]\<rparr>)
      else if length (dl_pending s) < max_pending cfg
      then (Ok False, s\<lparr>dl_pending := bset_insert cid (dl_pending s)\<rparr>)
      else (Err QueueFull, s))"

text \<open>Reading a file; \<open>io_error\<close> is a failure other than a missing file.\<close>

definition dl_read ::
  "DlConfig \<Rightarrow> string option \<Rightarrow> string \<Rightarrow> Downloader \<Rightarrow> (bytes option, download_error) result" where
  "dl_read cfg io_error cid s =
     (case dl_files s (path_of cfg cid) of
        None \<Rightarrow> Ok None
      | Some data \<Rightarrow> (case io_error of Some e \<Rightarrow> Err (ReadFailed e) | None \<Rightarrow> Ok (Some data)))"

text \<open>
  Waiting for a download: \<open>received\<close> are the results of \<open>recv\<close> with the state that is found after each,
  in order. A receiver that fell behind the sender gets an error instead of the events it missed.
  The value \<open>None\<close> means that the events end before the wait does.
\<close>

fun await_download ::
  "DlConfig \<Rightarrow> string \<Rightarrow> ((DlEvent, unit) result \<times> string option \<times> Downloader) list \<Rightarrow>
   (bytes, download_error) result option" where
  "await_download cfg cid [] = None"
| "await_download cfg cid ((event, io_error, s) # received) =
     (case event of
        Err _ \<Rightarrow> Some (Err EventsLost)
      | Ok (Downloaded c) \<Rightarrow>
          if c = cid
          then Some (and_then (dl_read cfg io_error cid s) (\<lambda>data. ok_or data FileNotFound))
          else await_download cfg cid received
      | Ok (DownloadFailure c error) \<Rightarrow>
          if c = cid then Some (Err (DownloadFailed error)) else await_download cfg cid received)"

definition read_or_download ::
  "DlConfig \<Rightarrow> string option \<Rightarrow> string \<Rightarrow> ((DlEvent, unit) result \<times> string option \<times> Downloader) list \<Rightarrow>
   Downloader \<Rightarrow> (bytes, download_error) result option \<times> Downloader" where
  "read_or_download cfg io_error cid received s =
     (case dl_read cfg io_error cid s of
        Err e \<Rightarrow> (Some (Err e), s)
      | Ok (Some data) \<Rightarrow> (Some (Ok data), s)
      | Ok None \<Rightarrow>
          (case download cfg cid True s of
             (Err e, s1) \<Rightarrow> (Some (Err e), s1)
           | (Ok _, s1) \<Rightarrow> (await_download cfg cid received, s1)))"

section \<open>The download task\<close>

definition set_stage :: "nat \<Rightarrow> dl_stage \<Rightarrow> Downloader \<Rightarrow> Downloader" where
  "set_stage i st s = s\<lparr>dl_tasks := (dl_tasks s)[i := (dl_tasks s ! i)\<lparr>dt_stage := st\<rparr>]\<rparr>"

text \<open>Writing at a position: what is missing before it is filled with zeros.\<close>

definition write_at :: "nat \<Rightarrow> bytes \<Rightarrow> bytes \<Rightarrow> bytes" where
  "write_at pos data content =
     take pos (content @ replicate (pos - length content) 0) @ data @ drop (pos + length data) content"

text \<open>
  The file is created, which empties it if it was left behind by a failed rename, and the gateway answers with
  success. A write of the earlier attempt goes on.
\<close>

definition task_opened :: "DlConfig \<Rightarrow> nat \<Rightarrow> Downloader \<Rightarrow> Downloader" where
  "task_opened cfg i s =
     (let cid = dt_cid (dl_tasks s ! i); tmp_file = tmp_path_of cfg cid;
          left = (case dl_writes s tmp_file of InFlight data \<Rightarrow> [(tmp_file, dl_pos s tmp_file, data)] | _ \<Rightarrow> [])
      in set_stage i (Receiving 0 [])
           (s\<lparr>dl_files := (dl_files s)(tmp_file := Some []), dl_writes := (dl_writes s)(tmp_file := Idle),
              dl_pos := (dl_pos s)(tmp_file := 0), dl_strays := dl_strays s @ left,
              dl_reopened := (if left = [] then [] else [cid]) @ dl_reopened s\<rparr>))"

text \<open>
  An error or the timeout, anywhere from the creation of the file to the end of the body: the file
  is removed, and what is still written to it is lost with it. Removing a file that exists is taken to succeed.
\<close>

definition task_failed :: "DlConfig \<Rightarrow> nat \<Rightarrow> string \<Rightarrow> Downloader \<Rightarrow> Downloader" where
  "task_failed cfg i error s =
     (let cid = dt_cid (dl_tasks s ! i); tmp_file = tmp_path_of cfg cid
      in set_stage i (Finished (DownloadFailure cid error))
           (s\<lparr>dl_files := (dl_files s)(tmp_file := None), dl_writes := (dl_writes s)(tmp_file := Idle),
              dl_strays := filter (\<lambda>w. fst w \<noteq> tmp_file) (dl_strays s)\<rparr>))"

text \<open>
  A chunk arrives when no write is under way, which \<open>write_all\<close> waits for. An earlier failed write is reported
  now. The library writes a large chunk in several parts: the first \<open>k\<close> bytes have landed when the call
  returns.
\<close>

definition task_chunk :: "DlConfig \<Rightarrow> nat \<Rightarrow> nat \<Rightarrow> bytes \<Rightarrow> Downloader \<Rightarrow> Downloader" where
  "task_chunk cfg i k chunk s =
     (case dt_stage (dl_tasks s ! i) of
        Receiving sz chunks \<Rightarrow>
          let tmp_file = tmp_path_of cfg (dt_cid (dl_tasks s ! i)); sz' = sz + length chunk
          in if sz' > max_file_size cfg then task_failed cfg i ''file too large'' s
             else if chunk = [] then set_stage i (Receiving sz' (chunks @ [chunk])) s
             else if dl_writes s tmp_file = WriteFailed then task_failed cfg i ''write failed'' s
             else set_stage i (Receiving sz' (chunks @ [chunk]))
                    (s\<lparr>dl_files := (dl_files s)(tmp_file :=
                         map_option (write_at (dl_pos s tmp_file) (take k chunk)) (dl_files s tmp_file)),
                       dl_pos := (dl_pos s)(tmp_file := dl_pos s tmp_file + length (take k chunk)),
                       dl_writes := (dl_writes s)(tmp_file := InFlight (drop k chunk))\<rparr>)
      | _ \<Rightarrow> s)"

text \<open>The end of a write in the background: all of its bytes have landed, or \<open>n\<close> of them.\<close>

definition write_ends :: "string \<Rightarrow> nat \<Rightarrow> bool \<Rightarrow> Downloader \<Rightarrow> Downloader" where
  "write_ends file n ok s =
     (case dl_writes s file of
        InFlight data \<Rightarrow>
          let landed = (if ok then data else take n data)
          in s\<lparr>dl_files := (dl_files s)(file := map_option (write_at (dl_pos s file) landed) (dl_files s file)),
               dl_pos := (dl_pos s)(file := dl_pos s file + length landed),
               dl_writes := (dl_writes s)(file := (if ok then Idle else WriteFailed))\<rparr>
      | _ \<Rightarrow> s)"

text \<open>The same for a write of an earlier attempt.\<close>

definition stray_ends :: "nat \<Rightarrow> nat \<Rightarrow> bool \<Rightarrow> Downloader \<Rightarrow> Downloader" where
  "stray_ends j n ok s =
     (let (file, pos, data) = dl_strays s ! j; landed = (if ok then data else take n data)
      in s\<lparr>dl_files := (dl_files s)(file := map_option (write_at pos landed) (dl_files s file)),
           dl_strays := take j (dl_strays s) @ drop (Suc j) (dl_strays s)\<rparr>)"

text \<open>
  The body has ended: the file is renamed, with the write that may still be under way; a failure of that is logged only.
\<close>

definition task_completed :: "DlConfig \<Rightarrow> nat \<Rightarrow> bool \<Rightarrow> Downloader \<Rightarrow> Downloader" where
  "task_completed cfg i renamed s =
     (case dt_stage (dl_tasks s ! i) of
        Receiving sz chunks \<Rightarrow>
          let cid = dt_cid (dl_tasks s ! i); tmp_file = tmp_path_of cfg cid; path = path_of cfg cid;
              s1 = (if renamed
                    then s\<lparr>dl_files := (dl_files s)(path := dl_files s tmp_file, tmp_file := None),
                           dl_writes := (dl_writes s)(path := dl_writes s tmp_file, tmp_file := Idle),
                           dl_pos := (dl_pos s)(path := dl_pos s tmp_file),
                           dl_strays := map (\<lambda>(f, w). (if f = tmp_file then path else f, w))
                             (filter (\<lambda>w. fst w \<noteq> path) (dl_strays s)),
                           dl_responses := dl_responses s @ [(cid, chunks)]\<rparr>
                    else s)
          in set_stage i (Finished (Downloaded cid)) s1
      | _ \<Rightarrow> s)"

text \<open>What the task does under the lock when a download is over: it takes the next one or ends.\<close>

definition dl_notify :: "DlEvent \<Rightarrow> Downloader \<Rightarrow> Downloader" where
  "dl_notify event s = s\<lparr>dl_events := dl_events s @ [event]\<rparr>"

definition task_next :: "nat \<Rightarrow> Downloader \<Rightarrow> Downloader" where
  "task_next i s =
     (case dt_stage (dl_tasks s ! i) of
        Finished event \<Rightarrow>
          let cid_str = dt_cid (dl_tasks s ! i);
              s1 = dl_notify event (s\<lparr>dl_downloading := bset_remove cid_str (dl_downloading s)\<rparr>)
          in (case dl_pending s1 of
                next_cid # rest \<Rightarrow>
                  s1\<lparr>dl_pending := rest, dl_downloading := bset_insert next_cid (dl_downloading s1),
                     dl_tasks := (dl_tasks s1)[i := \<lparr> dt_cid = next_cid, dt_stage = Creating \<rparr>]\<rparr>
              | [] \<Rightarrow> s1\<lparr>dl_tasks := take i (dl_tasks s1) @ drop (Suc i) (dl_tasks s1)\<rparr>)
      | _ \<Rightarrow> s)"

section \<open>Interleavings\<close>

text \<open>
  The textual forms of content identifiers are in alphabets without a dot or a slash.
\<close>

definition cid_ok :: "string \<Rightarrow> bool" where
  "cid_ok cid \<longleftrightarrow> cid \<noteq> [] \<and> CHR ''.'' \<notin> set cid \<and> CHR ''/'' \<notin> set cid"

inductive dl_work :: "DlConfig \<Rightarrow> Downloader \<Rightarrow> Downloader \<Rightarrow> bool" for cfg where
  opened: "i < length (dl_tasks s) \<Longrightarrow> dt_stage (dl_tasks s ! i) = Creating \<Longrightarrow>
    dl_work cfg s (task_opened cfg i s)"
| failed: "i < length (dl_tasks s) \<Longrightarrow> (\<forall>event. dt_stage (dl_tasks s ! i) \<noteq> Finished event) \<Longrightarrow>
    dl_work cfg s (task_failed cfg i error s)"
| chunk: "i < length (dl_tasks s) \<Longrightarrow> dt_stage (dl_tasks s ! i) = Receiving sz chunks \<Longrightarrow>
    (\<forall>data. dl_writes s (tmp_path_of cfg (dt_cid (dl_tasks s ! i))) \<noteq> InFlight data) \<Longrightarrow> part \<noteq> [] \<Longrightarrow>
    dl_work cfg s (task_chunk cfg i k part s)"
| completed: "i < length (dl_tasks s) \<Longrightarrow> dt_stage (dl_tasks s ! i) = Receiving sz chunks \<Longrightarrow>
    dl_work cfg s (task_completed cfg i renamed s)"
| continues: "i < length (dl_tasks s) \<Longrightarrow> dt_stage (dl_tasks s ! i) = Finished event \<Longrightarrow> dl_work cfg s (task_next i s)"
| lands: "dl_writes s file = InFlight data \<Longrightarrow> dl_work cfg s (write_ends file n ok s)"
| strays: "j < length (dl_strays s) \<Longrightarrow> dl_work cfg s (stray_ends j n ok s)"

inductive dl_step :: "DlConfig \<Rightarrow> Downloader \<Rightarrow> Downloader \<Rightarrow> bool" for cfg where
  request: "cid_ok cid \<Longrightarrow> dl_step cfg s (snd (download cfg cid force s))"
| works: "dl_work cfg s s' \<Longrightarrow> dl_step cfg s s'"
| empty_chunk: "i < length (dl_tasks s) \<Longrightarrow> dl_step cfg s (task_chunk cfg i k [] s)"

text \<open>
  The same without new requests and with time. A chunk may be empty; such a step uses up nothing, so only the timer
  of the attempt limits how many there are. The state has the time and the time each download began. Time
  goes on while no attempt is overdue, that is, as long as the timer, which may be late by \<open>lag\<close>, need
  not have ended one.
\<close>

definition unfinished :: "Downloader \<Rightarrow> string set" where
  "unfinished s = {dt_cid t | t. t \<in> set (dl_tasks s) \<and> (\<forall>event. dt_stage t \<noteq> Finished event)}"

type_synonym timed = "nat \<times> (string \<Rightarrow> nat) \<times> Downloader"

inductive dl_timed :: "DlConfig \<Rightarrow> nat \<Rightarrow> timed \<Rightarrow> timed \<Rightarrow> bool" for cfg lag where
  timed_work: "dl_work cfg s s' \<Longrightarrow>
    dl_timed cfg lag (now, began, s) (now, \<lambda>c. if c \<in> set (dl_downloading s) then began c else now, s')"
| timed_empty: "i < length (dl_tasks s) \<Longrightarrow> dt_stage (dl_tasks s ! i) = Receiving sz chunks \<Longrightarrow>
    dl_timed cfg lag (now, began, s) (now, began, task_chunk cfg i k [] s)"
| timed_tick: "(\<forall>c \<in> unfinished s. now < began c + max_download_time cfg + lag) \<Longrightarrow>
    dl_timed cfg lag (now, began, s) (Suc now, began, s)"

section \<open>Lemmas on sets and paths\<close>

lemma set_bset_insert [simp]: "set (bset_insert x xs) = {x} \<union> set xs"
  by (auto simp: bset_insert_def set_insort_key)

lemma set_bset_remove [simp]: "set (bset_remove x xs) = set xs - {x}"
  by (auto simp: bset_remove_def)

lemma bset_inv_iff: "bset_inv xs \<longleftrightarrow> sorted xs \<and> distinct xs"
  unfolding bset_inv_def by (rule strict_sorted_iff)

lemma bset_inv_insert: "bset_inv xs \<Longrightarrow> bset_inv (bset_insert x xs)"
  by (simp add: bset_inv_iff bset_insert_def sorted_insort distinct_insort)

lemma bset_inv_remove: "bset_inv xs \<Longrightarrow> bset_inv (bset_remove x xs)"
  by (simp add: bset_inv_iff bset_remove_def sorted_filter [where f = "\<lambda>x. x", simplified] distinct_filter)

lemma bset_length: "bset_inv xs \<Longrightarrow> length xs = card (set xs)"
  by (simp add: bset_inv_iff distinct_card)

lemma path_join_inj:
  "hd (a @ [CHR ''.'']) \<noteq> CHR ''/'' \<Longrightarrow> hd (b @ [CHR ''.'']) \<noteq> CHR ''/'' \<Longrightarrow>
   path_join base a = path_join base b \<longleftrightarrow> a = b"
  by (auto simp: path_join_def hd_append split: if_splits)

lemma path_of_inj [simp]:
  "cid_ok a \<Longrightarrow> cid_ok b \<Longrightarrow> path_of cfg a = path_of cfg b \<longleftrightarrow> a = b"
  unfolding path_of_def by (rule path_join_inj) (auto simp: cid_ok_def hd_append dest: hd_in_set)

lemma tmp_path_of_inj [simp]:
  "cid_ok a \<Longrightarrow> cid_ok b \<Longrightarrow> tmp_path_of cfg a = tmp_path_of cfg b \<longleftrightarrow> a = b"
  unfolding tmp_path_of_def
  by (subst path_join_inj) (auto simp: cid_ok_def hd_append dest: hd_in_set)

lemma tmp_path_not_path [simp]:
  assumes "cid_ok a" "cid_ok b" shows "tmp_path_of cfg a \<noteq> path_of cfg b" "path_of cfg b \<noteq> tmp_path_of cfg a"
proof -
  have "a @ ''.tmp'' \<noteq> b" using assms by (auto simp: cid_ok_def)
  moreover have "tmp_path_of cfg a = path_of cfg b \<longleftrightarrow> a @ ''.tmp'' = b"
    unfolding tmp_path_of_def path_of_def
    using assms by (subst path_join_inj) (auto simp: cid_ok_def hd_append dest: hd_in_set)
  ultimately show "tmp_path_of cfg a \<noteq> path_of cfg b" "path_of cfg b \<noteq> tmp_path_of cfg a" by auto
qed

lemma distinct_remove_nth:
  assumes "distinct xs" "i < length xs"
  shows "distinct (take i xs @ drop (Suc i) xs)" "set (take i xs @ drop (Suc i) xs) = set xs - {xs ! i}"
proof -
  have xs: "xs = take i xs @ xs ! i # drop (Suc i) xs" using assms(2) by (rule id_take_nth_drop)
  have "distinct (take i xs @ xs ! i # drop (Suc i) xs)" using assms(1) xs by metis
  then show "distinct (take i xs @ drop (Suc i) xs)" by simp
  have "set xs = insert (xs ! i) (set (take i xs @ drop (Suc i) xs))" by (subst xs) simp
  moreover have "xs ! i \<notin> set (take i xs @ drop (Suc i) xs)"
    using \<open>distinct (take i xs @ xs ! i # drop (Suc i) xs)\<close> by simp
  ultimately show "set (take i xs @ drop (Suc i) xs) = set xs - {xs ! i}" by (metis Diff_insert_absorb)
qed

section \<open>Slots and queue\<close>

text \<open>
  What holds of the two sets and of the tasks: one task for every content that is being downloaded,
  bounded, and nothing is queued while a task could be started.
\<close>

definition slots_inv :: "DlConfig \<Rightarrow> string list \<Rightarrow> string list \<Rightarrow> string list \<Rightarrow> bool" where
  "slots_inv cfg pend down cids \<longleftrightarrow>
     bset_inv pend \<and> bset_inv down \<and> set pend \<inter> set down = {} \<and> length down \<le> max_downloading cfg \<and>
     length pend \<le> max_pending cfg \<and> (pend \<noteq> [] \<longrightarrow> length down = max_downloading cfg) \<and>
     distinct cids \<and> set cids = set down \<and> (\<forall>c \<in> set pend \<union> set down. cid_ok c)"

abbreviation dl_cids :: "Downloader \<Rightarrow> string list" where
  "dl_cids s \<equiv> map dt_cid (dl_tasks s)"

lemma dl_cids_set_stage [simp]: "dl_cids (set_stage i st s) = dl_cids s"
  by (simp add: set_stage_def map_update list_update_id) (metis list_update_id map_update)

lemma set_stage_simps [simp]:
  "dl_pending (set_stage i st s) = dl_pending s" "dl_downloading (set_stage i st s) = dl_downloading s"
  "dl_files (set_stage i st s) = dl_files s" "dl_writes (set_stage i st s) = dl_writes s"
  "dl_pos (set_stage i st s) = dl_pos s" "dl_strays (set_stage i st s) = dl_strays s"
  "dl_reopened (set_stage i st s) = dl_reopened s" "dl_responses (set_stage i st s) = dl_responses s" "dl_events (set_stage i st s) = dl_events s"
  "dl_tasks (set_stage i st s) = (dl_tasks s)[i := (dl_tasks s ! i)\<lparr>dt_stage := st\<rparr>]"
  by (simp_all add: set_stage_def)

lemma task_slots [simp]:
  "dl_pending (task_opened cfg i s) = dl_pending s" "dl_downloading (task_opened cfg i s) = dl_downloading s"
  "dl_pending (task_failed cfg i e s) = dl_pending s" "dl_downloading (task_failed cfg i e s) = dl_downloading s"
  "dl_pending (task_chunk cfg i k c s) = dl_pending s" "dl_downloading (task_chunk cfg i k c s) = dl_downloading s"
  "dl_pending (task_completed cfg i r s) = dl_pending s" "dl_downloading (task_completed cfg i r s) = dl_downloading s"
  "dl_pending (write_ends f n b s) = dl_pending s" "dl_downloading (write_ends f n b s) = dl_downloading s"
  "dl_pending (stray_ends j n b s) = dl_pending s" "dl_downloading (stray_ends j n b s) = dl_downloading s"
  by (simp_all add: task_opened_def task_failed_def task_chunk_def task_completed_def write_ends_def stray_ends_def
    Let_def case_prod_beta split: dl_stage.split write_state.split)

lemma task_cids [simp]:
  "dl_cids (task_opened cfg i s) = dl_cids s" "dl_cids (task_failed cfg i e s) = dl_cids s"
  "dl_cids (task_chunk cfg i k c s) = dl_cids s" "dl_cids (task_completed cfg i r s) = dl_cids s"
  "dl_cids (write_ends f n b s) = dl_cids s" "dl_cids (stray_ends j n b s) = dl_cids s"
  unfolding task_opened_def task_failed_def task_chunk_def task_completed_def write_ends_def stray_ends_def Let_def
    case_prod_beta
  by (simp_all del: set_stage_simps(10) split: dl_stage.split write_state.split)

lemma slots_inv_download:
  assumes "slots_inv cfg (dl_pending s) (dl_downloading s) (dl_cids s)" "cid_ok cid"
  shows "let s' = snd (download cfg cid force s)
    in slots_inv cfg (dl_pending s') (dl_downloading s') (dl_cids s')"
  using assms
  by (auto simp: download_def Let_def slots_inv_def dl_busy_def bset_inv_insert bset_length
      card_insert_if)

lemma slots_inv_next:
  assumes inv: "slots_inv cfg (dl_pending s) (dl_downloading s) (dl_cids s)" and i: "i < length (dl_tasks s)"
  shows "let s' = task_next i s in slots_inv cfg (dl_pending s') (dl_downloading s') (dl_cids s')"
proof (cases "dt_stage (dl_tasks s ! i)")
  case (Finished event)
  let ?cid = "dt_cid (dl_tasks s ! i)"
  have cid: "dl_cids s ! i = ?cid" "i < length (dl_cids s)" using i by simp_all
  then have mem: "?cid \<in> set (dl_downloading s)" using inv nth_mem [OF cid(2)] by (simp add: slots_inv_def)
  show ?thesis
  proof (cases "dl_pending s")
    case Nil
    have "distinct (dl_cids s)" using inv by (simp add: slots_inv_def)
    note rest = distinct_remove_nth [OF this cid(2), unfolded cid(1)]
    from inv have "length (bset_remove ?cid (dl_downloading s)) \<le> max_downloading cfg"
      using length_filter_le le_trans unfolding slots_inv_def bset_remove_def by blast
    with inv Nil rest show ?thesis
      by (simp add: task_next_def Finished dl_notify_def Let_def slots_inv_def bset_inv_remove take_map drop_map image_Un)
  next
    case (Cons c rest)
    from inv Cons have c: "c \<notin> set (dl_downloading s)" "c \<notin> set rest" "bset_inv rest"
      by (auto simp: slots_inv_def bset_inv_def)
    have down: "bset_inv (bset_insert c (bset_remove ?cid (dl_downloading s)))"
      using inv by (simp add: slots_inv_def bset_inv_insert bset_inv_remove)
    have "length (bset_insert c (bset_remove ?cid (dl_downloading s))) = length (dl_downloading s)"
      using c mem inv card_Suc_Diff1 [of "set (dl_downloading s)" ?cid]
      by (simp add: bset_length [OF down] bset_length slots_inv_def)
    moreover have "distinct ((dl_cids s)[i := c])" "set ((dl_cids s)[i := c]) = insert c (set (dl_downloading s) - {?cid})"
      using inv c cid by (auto simp: slots_inv_def distinct_list_update set_update_distinct)
    moreover have "dl_pending (task_next i s) = rest" "dl_cids (task_next i s) = (dl_cids s)[i := c]"
      "dl_downloading (task_next i s) = bset_insert c (bset_remove ?cid (dl_downloading s))"
      using Cons by (simp_all add: task_next_def Finished dl_notify_def Let_def map_update)
    ultimately show ?thesis
      using inv Cons c down unfolding Let_def by (auto simp: slots_inv_def simp del: list.set_map)
  qed
qed (use inv in \<open>simp_all add: task_next_def Let_def\<close>)

section \<open>Files\<close>

lemma write_at_end [simp]: "write_at (length d) x d = d @ x"
  by (simp add: write_at_def)

text \<open>
  A file holds a body if its bytes, with those of a write under way, are the body; after a failed write they are a
  first part of it.
\<close>

definition holds :: "Downloader \<Rightarrow> string \<Rightarrow> bytes list \<Rightarrow> bool" where
  "holds s file chunks \<longleftrightarrow>
     (\<exists>data. dl_files s file = Some data \<and>
        (case dl_writes s file of
           Idle \<Rightarrow> data = concat chunks \<and> dl_pos s file = length data
         | InFlight rest \<Rightarrow> data @ rest = concat chunks \<and> dl_pos s file = length data
         | WriteFailed \<Rightarrow> \<exists>rest. data @ rest = concat chunks))"

fun event_cid :: "DlEvent \<Rightarrow> string" where
  "event_cid (Downloaded c) = c"
| "event_cid (DownloadFailure c _) = c"

definition stage_ok :: "DlConfig \<Rightarrow> Downloader \<Rightarrow> DlTask \<Rightarrow> bool" where
  "stage_ok cfg s t \<longleftrightarrow>
     (case dt_stage t of
        Creating \<Rightarrow> True
      | Receiving sz chunks \<Rightarrow> sz = length (concat chunks) \<and> sz \<le> max_file_size cfg \<and>
          (dt_cid t \<notin> set (dl_reopened s) \<longrightarrow> holds s (tmp_path_of cfg (dt_cid t)) chunks)
      | Finished event \<Rightarrow> event_cid event = dt_cid t)"

text \<open>A file under its final name is that of a response or has been there from the start.\<close>

definition path_ok :: "DlConfig \<Rightarrow> (string \<Rightarrow> bytes option) \<Rightarrow> Downloader \<Rightarrow> string \<Rightarrow> bool" where
  "path_ok cfg found s c \<longleftrightarrow>
     (\<exists>chunks. (c, chunks) \<in> set (dl_responses s) \<and> holds s (path_of cfg c) chunks) \<or>
     dl_files s (path_of cfg c) = found (path_of cfg c) \<and> dl_writes s (path_of cfg c) = Idle"

definition files_inv :: "DlConfig \<Rightarrow> (string \<Rightarrow> bytes option) \<Rightarrow> Downloader \<Rightarrow> bool" where
  "files_inv cfg found s \<longleftrightarrow>
     (\<forall>j < length (dl_tasks s). stage_ok cfg s (dl_tasks s ! j)) \<and>
     (\<forall>c. cid_ok c \<and> c \<notin> set (dl_reopened s) \<longrightarrow> path_ok cfg found s c) \<and>
     (\<forall>r \<in> set (dl_responses s). length (concat (snd r)) \<le> max_file_size cfg)"

text \<open>Writes of earlier attempts concern only the files of the contents that were opened again.\<close>

definition strays_inv :: "DlConfig \<Rightarrow> Downloader \<Rightarrow> bool" where
  "strays_inv cfg s \<longleftrightarrow>
     (\<forall>c \<in> set (dl_reopened s). cid_ok c) \<and>
     (\<forall>w \<in> set (dl_strays s). \<exists>c \<in> set (dl_reopened s). fst w = tmp_path_of cfg c \<or> fst w = path_of cfg c)"

definition dl_inv :: "DlConfig \<Rightarrow> (string \<Rightarrow> bytes option) \<Rightarrow> Downloader \<Rightarrow> bool" where
  "dl_inv cfg found s \<longleftrightarrow> slots_inv cfg (dl_pending s) (dl_downloading s) (dl_cids s) \<and> files_inv cfg found s \<and>
     strays_inv cfg s"

definition same_file :: "string \<Rightarrow> Downloader \<Rightarrow> Downloader \<Rightarrow> bool" where
  "same_file f s s' \<longleftrightarrow> dl_files s' f = dl_files s f \<and> dl_writes s' f = dl_writes s f \<and> dl_pos s' f = dl_pos s f"

lemma holds_frame: "same_file f s s' \<Longrightarrow> holds s' f chunks = holds s f chunks"
  by (cases "dl_writes s f") (simp_all add: holds_def same_file_def)

lemma holds_concat: "concat a = concat b \<Longrightarrow> holds s f a = holds s f b"
  unfolding holds_def by (simp only:)

lemma holds_set_stage [simp]: "holds (set_stage i st s) f chunks = holds s f chunks"
  by (rule holds_frame) (simp add: same_file_def)

lemma holds_write_ends:
  assumes "holds s f chunks" shows "holds (write_ends g n ok s) f chunks"
proof (cases "f = g")
  case True
  show ?thesis
  proof (cases "dl_writes s g")
    case (InFlight rest)
    with assms True obtain data where "dl_files s g = Some data" "data @ rest = concat chunks" "dl_pos s g = length data"
      by (auto simp: holds_def)
    moreover from this(2) have "\<exists>r. data @ take n rest @ r = concat chunks" "length data + length rest = length (concat chunks)"
      by (metis append_take_drop_id, metis length_append)
    ultimately show ?thesis using True InFlight by (auto simp: holds_def write_ends_def Let_def)
  qed (use assms in \<open>simp_all add: write_ends_def\<close>)
next
  case False
  then have "same_file f s (write_ends g n ok s)"
    by (auto simp: same_file_def write_ends_def Let_def split: write_state.split)
  with assms show ?thesis using holds_frame by blast
qed

lemma stage_ok_frame:
  assumes "dt_cid t \<notin> set (dl_reopened s') \<Longrightarrow> same_file (tmp_path_of cfg (dt_cid t)) s s'"
    "set (dl_reopened s) \<subseteq> set (dl_reopened s')" "stage_ok cfg s t"
  shows "stage_ok cfg s' t"
  using assms holds_frame by (fastforce simp: stage_ok_def split: dl_stage.splits)

lemma path_ok_frame:
  assumes "same_file (path_of cfg c) s s'" "set (dl_responses s) \<subseteq> set (dl_responses s')" "path_ok cfg found s c"
  shows "path_ok cfg found s' c"
proof -
  have "dl_files s' (path_of cfg c) = dl_files s (path_of cfg c)" "dl_writes s' (path_of cfg c) = dl_writes s (path_of cfg c)"
    using assms(1) by (simp_all add: same_file_def)
  with assms show ?thesis unfolding path_ok_def using holds_frame [OF assms(1)] by auto
qed

lemma dl_inv_cid:
  assumes "dl_inv cfg found s" "j < length (dl_tasks s)"
  shows "cid_ok (dt_cid (dl_tasks s ! j))"
    and "i < length (dl_tasks s) \<Longrightarrow> dt_cid (dl_tasks s ! i) = dt_cid (dl_tasks s ! j) \<longleftrightarrow> i = j"
proof -
  from assms have "dt_cid (dl_tasks s ! j) \<in> set (dl_cids s)" by simp
  then show "cid_ok (dt_cid (dl_tasks s ! j))" using assms(1) unfolding dl_inv_def slots_inv_def by blast
  show "dt_cid (dl_tasks s ! i) = dt_cid (dl_tasks s ! j) \<longleftrightarrow> i = j" if "i < length (dl_tasks s)"
    using assms that nth_eq_iff_index_eq [of "dl_cids s" i j] by (simp add: dl_inv_def slots_inv_def)
qed

lemma dl_inv_stage: "dl_inv cfg found s \<Longrightarrow> i < length (dl_tasks s) \<Longrightarrow> stage_ok cfg s (dl_tasks s ! i)"
  by (simp add: dl_inv_def files_inv_def)

text \<open>A step of a task that changes nothing but its stage and its temporary file.\<close>

lemma files_inv_task:
  assumes inv: "dl_inv cfg found s" and i: "i < length (dl_tasks s)"
    and files: "\<And>f. f \<noteq> tmp_path_of cfg (dt_cid (dl_tasks s ! i)) \<Longrightarrow> same_file f s s'"
    and resp: "dl_responses s' = dl_responses s" and reop: "set (dl_reopened s) \<subseteq> set (dl_reopened s')"
    and tasks: "dl_tasks s' = (dl_tasks s)[i := (dl_tasks s ! i)\<lparr>dt_stage := st\<rparr>]"
    and st: "stage_ok cfg s' ((dl_tasks s ! i)\<lparr>dt_stage := st\<rparr>)"
  shows "files_inv cfg found s'"
proof -
  have path: "path_of cfg c \<noteq> tmp_path_of cfg (dt_cid (dl_tasks s ! i))" if "cid_ok c" for c
    using dl_inv_cid(1) [OF inv i] that by simp
  have tmp: "tmp_path_of cfg (dt_cid (dl_tasks s ! j)) \<noteq> tmp_path_of cfg (dt_cid (dl_tasks s ! i))"
    if "j \<noteq> i" "j < length (dl_tasks s)" for j
    using dl_inv_cid(1) [OF inv i] dl_inv_cid(1) [OF inv that(2)] dl_inv_cid(2) [OF inv i that(2)] that(1) by simp
  have other: "stage_ok cfg s' (dl_tasks s ! j)" if "j \<noteq> i" "j < length (dl_tasks s)" for j
    by (rule stage_ok_frame [OF files [OF tmp [OF that]] reop dl_inv_stage [OF inv that(2)]])
  have "stage_ok cfg s' (dl_tasks s' ! j)" if "j < length (dl_tasks s')" for j
    using that other [of j] st i by (cases "j = i") (simp_all add: tasks)
  moreover have "path_ok cfg found s' c" if "cid_ok c" "c \<notin> set (dl_reopened s')" for c
    by (rule path_ok_frame [OF files [OF path [OF that(1)]]])
      (use inv that reop in \<open>auto simp: resp dl_inv_def files_inv_def\<close>)
  ultimately show ?thesis using inv by (simp add: files_inv_def dl_inv_def resp)
qed

lemma strays_inv_mono:
  "strays_inv cfg s \<Longrightarrow> set (dl_strays s') \<subseteq> set (dl_strays s) \<Longrightarrow> dl_reopened s' = dl_reopened s \<Longrightarrow> strays_inv cfg s'"
  unfolding strays_inv_def by auto

lemma task_opened_inv:
  assumes "dl_inv cfg found s" "i < length (dl_tasks s)" shows "dl_inv cfg found (task_opened cfg i s)"
proof -
  have "files_inv cfg found (task_opened cfg i s)"
    by (rule files_inv_task [OF assms, where st = "Receiving 0 []"])
      (auto simp: task_opened_def Let_def stage_ok_def holds_def same_file_def)
  moreover have "strays_inv cfg (task_opened cfg i s)"
    using assms(1) dl_inv_cid(1) [OF assms]
    by (auto simp: task_opened_def Let_def dl_inv_def strays_inv_def split: write_state.splits)
  ultimately show ?thesis using assms(1) by (simp add: dl_inv_def)
qed

lemma task_failed_inv:
  assumes "dl_inv cfg found s" "i < length (dl_tasks s)" shows "dl_inv cfg found (task_failed cfg i e s)"
proof -
  have "files_inv cfg found (task_failed cfg i e s)"
    by (rule files_inv_task [OF assms, where st = "Finished (DownloadFailure (dt_cid (dl_tasks s ! i)) e)"])
      (auto simp: task_failed_def Let_def stage_ok_def same_file_def)
  moreover have "strays_inv cfg (task_failed cfg i e s)"
    by (rule strays_inv_mono [where s = s]) (use assms(1) in \<open>auto simp: dl_inv_def task_failed_def Let_def\<close>)
  ultimately show ?thesis using assms(1) by (simp add: dl_inv_def)
qed

lemma task_chunk_inv:
  assumes inv: "dl_inv cfg found s" and i: "i < length (dl_tasks s)"
    and idle: "\<forall>data. dl_writes s (tmp_path_of cfg (dt_cid (dl_tasks s ! i))) \<noteq> InFlight data \<or> chunk = []"
  shows "dl_inv cfg found (task_chunk cfg i k chunk s)"
proof (cases "dt_stage (dl_tasks s ! i)")
  case (Receiving sz chunks)
  let ?cid = "dt_cid (dl_tasks s ! i)"
  let ?tmp = "tmp_path_of cfg ?cid"
  have ok: "sz = length (concat chunks)" "sz \<le> max_file_size cfg" "?cid \<notin> set (dl_reopened s) \<longrightarrow> holds s ?tmp chunks"
    using dl_inv_stage [OF inv i] by (simp_all add: stage_ok_def Receiving)
  consider "sz + length chunk > max_file_size cfg \<or> chunk \<noteq> [] \<and> dl_writes s ?tmp = WriteFailed"
    | "sz + length chunk \<le> max_file_size cfg" "chunk = []"
    | "sz + length chunk \<le> max_file_size cfg" "chunk \<noteq> []" "dl_writes s ?tmp = Idle"
    using idle by (cases "dl_writes s ?tmp"; cases "chunk = []") (auto simp: not_less [symmetric])
  then show ?thesis
  proof cases
    case 1
    then show ?thesis using task_failed_inv [OF inv i] by (auto simp: task_chunk_def Receiving Let_def)
  next
    case 2
    then have s': "task_chunk cfg i k chunk s = set_stage i (Receiving sz (chunks @ [[]])) s"
      by (simp add: task_chunk_def Receiving Let_def)
    have "?cid \<notin> set (dl_reopened s) \<longrightarrow> holds (set_stage i (Receiving sz (chunks @ [[]])) s) ?tmp (chunks @ [[]])"
      using ok(3) holds_concat [of "chunks @ [[]]" chunks] by simp
    then have "files_inv cfg found (task_chunk cfg i k chunk s)" unfolding s'
      by (intro files_inv_task [OF inv i, where st = "Receiving sz (chunks @ [[]])"])
        (use ok in \<open>simp_all add: stage_ok_def same_file_def\<close>)
    moreover have "strays_inv cfg (task_chunk cfg i k chunk s)" using inv by (simp add: s' dl_inv_def strays_inv_def)
    ultimately show ?thesis using inv by (simp add: dl_inv_def)
  next
    case 3
    let ?s1 = "s\<lparr>dl_files := (dl_files s)(?tmp := map_option (write_at (dl_pos s ?tmp) (take k chunk)) (dl_files s ?tmp)),
                 dl_pos := (dl_pos s)(?tmp := dl_pos s ?tmp + length (take k chunk)),
                 dl_writes := (dl_writes s)(?tmp := InFlight (drop k chunk))\<rparr>"
    let ?s2 = "set_stage i (Receiving (sz + length chunk) (chunks @ [chunk])) ?s1"
    have s': "task_chunk cfg i k chunk s = ?s2" using 3 by (simp add: task_chunk_def Receiving Let_def)
    have "?cid \<notin> set (dl_reopened s) \<longrightarrow> holds ?s2 ?tmp (chunks @ [chunk])"
      using ok(3) 3(3) by (auto simp: holds_def)
    then have "files_inv cfg found (task_chunk cfg i k chunk s)" unfolding s'
      by (intro files_inv_task [OF inv i, where st = "Receiving (sz + length chunk) (chunks @ [chunk])"])
        (use ok 3 in \<open>simp_all add: stage_ok_def same_file_def\<close>)
    moreover have "strays_inv cfg (task_chunk cfg i k chunk s)" using inv by (simp add: s' dl_inv_def strays_inv_def)
    ultimately show ?thesis using inv by (simp add: dl_inv_def)
  qed
qed (use inv in \<open>simp_all add: task_chunk_def\<close>)

lemma task_completed_inv:
  assumes inv: "dl_inv cfg found s" and i: "i < length (dl_tasks s)"
  shows "dl_inv cfg found (task_completed cfg i renamed s)"
proof (cases "dt_stage (dl_tasks s ! i)")
  case (Receiving sz chunks)
  let ?cid = "dt_cid (dl_tasks s ! i)" and ?s' = "task_completed cfg i renamed s"
  have ok: "length (concat chunks) \<le> max_file_size cfg"
    "?cid \<notin> set (dl_reopened s) \<longrightarrow> holds s (tmp_path_of cfg ?cid) chunks"
    using dl_inv_stage [OF inv i] by (simp_all add: stage_ok_def Receiving)
  note cid = dl_inv_cid(1) [OF inv i]
  show ?thesis
  proof (cases renamed)
    case False
    then have s': "?s' = set_stage i (Finished (Downloaded ?cid)) s" by (simp add: task_completed_def Receiving Let_def)
    then have "files_inv cfg found ?s'"
      by (intro files_inv_task [OF inv i, where st = "Finished (Downloaded ?cid)"]) (simp_all add: stage_ok_def same_file_def)
    moreover have "strays_inv cfg ?s'" using inv by (simp add: s' dl_inv_def strays_inv_def)
    ultimately show ?thesis using inv by (simp add: dl_inv_def)
  next
    case True
    then have s': "dl_files ?s' = (dl_files s)(path_of cfg ?cid := dl_files s (tmp_path_of cfg ?cid), tmp_path_of cfg ?cid := None)"
      "dl_writes ?s' = (dl_writes s)(path_of cfg ?cid := dl_writes s (tmp_path_of cfg ?cid), tmp_path_of cfg ?cid := Idle)"
      "dl_pos ?s' = (dl_pos s)(path_of cfg ?cid := dl_pos s (tmp_path_of cfg ?cid))"
      "dl_responses ?s' = dl_responses s @ [(?cid, chunks)]"
      "dl_tasks ?s' = (dl_tasks s)[i := (dl_tasks s ! i)\<lparr>dt_stage := Finished (Downloaded ?cid)\<rparr>]"
      "dl_reopened ?s' = dl_reopened s"
      "dl_strays ?s' = map (\<lambda>(f, w). (if f = tmp_path_of cfg ?cid then path_of cfg ?cid else f, w))
         (filter (\<lambda>w. fst w \<noteq> path_of cfg ?cid) (dl_strays s))"
      by (simp_all add: task_completed_def Receiving Let_def)
    have "stage_ok cfg ?s' (dl_tasks ?s' ! j)" if "j < length (dl_tasks ?s')" for j
    proof (cases "j = i")
      case False
      with that have j: "j < length (dl_tasks s)" by (simp add: s')
      then have "dt_cid (dl_tasks s ! j) \<noteq> ?cid" "cid_ok (dt_cid (dl_tasks s ! j))"
        using dl_inv_cid [OF inv i] dl_inv_cid(1) [OF inv j] dl_inv_cid(2) [OF inv i j] False by auto
      then have "stage_ok cfg ?s' (dl_tasks s ! j)" using cid
        by (intro stage_ok_frame [OF _ _ dl_inv_stage [OF inv j]]) (simp_all add: s' same_file_def)
      with False show ?thesis by (simp add: s')
    qed (use i in \<open>simp add: s' stage_ok_def\<close>)
    moreover have "path_ok cfg found ?s' c" if "cid_ok c" "c \<notin> set (dl_reopened ?s')" for c
    proof (cases "c = ?cid")
      case True
      then have "holds ?s' (path_of cfg ?cid) chunks" using ok(2) cid that
        by (cases "dl_writes s (tmp_path_of cfg ?cid)") (simp_all add: holds_def s')
      with True show ?thesis by (auto simp: path_ok_def s')
    next
      case False
      then show ?thesis using that cid inv
        by (intro path_ok_frame [of cfg c s ?s' found]) (auto simp: same_file_def s' dl_inv_def files_inv_def)
    qed
    ultimately have "files_inv cfg found ?s'" using inv ok(1)
      unfolding files_inv_def dl_inv_def s'(4) by (simp add: ball_Un)
    moreover have "strays_inv cfg ?s'" using inv cid unfolding dl_inv_def strays_inv_def s'(6,7)
      by (auto split: if_splits)
    ultimately show ?thesis using inv by (simp add: dl_inv_def)
  qed
qed (use inv in \<open>simp_all add: task_completed_def\<close>)

lemma write_ends_inv:
  assumes "dl_inv cfg found s" "dl_writes s f \<noteq> Idle" shows "dl_inv cfg found (write_ends f n ok s)"
proof -
  have same: "dl_tasks (write_ends f n ok s) = dl_tasks s" "dl_responses (write_ends f n ok s) = dl_responses s"
    "dl_reopened (write_ends f n ok s) = dl_reopened s" "dl_strays (write_ends f n ok s) = dl_strays s"
    by (simp_all add: write_ends_def Let_def split: write_state.split)
  have "stage_ok cfg (write_ends f n ok s) t" if "stage_ok cfg s t" for t
    using that by (simp add: stage_ok_def same holds_write_ends split: dl_stage.splits)
  moreover have "path_ok cfg found (write_ends f n ok s) c" if "path_ok cfg found s c" for c
    using that unfolding path_ok_def same
  proof
    assume "dl_files s (path_of cfg c) = found (path_of cfg c) \<and> dl_writes s (path_of cfg c) = Idle"
    moreover from this assms(2) have "f \<noteq> path_of cfg c" by auto
    ultimately show "(\<exists>chunks. (c, chunks) \<in> set (dl_responses s) \<and> holds (write_ends f n ok s) (path_of cfg c) chunks) \<or>
        dl_files (write_ends f n ok s) (path_of cfg c) = found (path_of cfg c) \<and> dl_writes (write_ends f n ok s) (path_of cfg c) = Idle"
      by (auto simp: write_ends_def Let_def split: write_state.split)
  qed (blast intro: holds_write_ends)
  ultimately show ?thesis using assms(1) by (simp add: dl_inv_def files_inv_def strays_inv_def same)
qed

lemma stray_ends_inv:
  assumes inv: "dl_inv cfg found s" and j: "j < length (dl_strays s)" shows "dl_inv cfg found (stray_ends j n ok s)"
proof -
  let ?s' = "stray_ends j n ok s" and ?f = "fst (dl_strays s ! j)"
  have same: "dl_tasks ?s' = dl_tasks s" "dl_responses ?s' = dl_responses s" "dl_reopened ?s' = dl_reopened s"
    "set (dl_strays ?s') \<subseteq> set (dl_strays s)"
    by (auto simp: stray_ends_def Let_def case_prod_beta dest: in_set_takeD in_set_dropD)
  have other: "same_file g s ?s'" if "g \<noteq> ?f" for g
    using that by (simp add: same_file_def stray_ends_def Let_def case_prod_beta)
  obtain c0 where c0: "c0 \<in> set (dl_reopened s)" "cid_ok c0" "?f = tmp_path_of cfg c0 \<or> ?f = path_of cfg c0"
    using inv nth_mem [OF j] unfolding dl_inv_def strays_inv_def by blast
  have ne: "tmp_path_of cfg c \<noteq> ?f" "path_of cfg c \<noteq> ?f" if "cid_ok c" "c \<notin> set (dl_reopened s)" for c
    using c0 that by auto
  have "stage_ok cfg ?s' (dl_tasks s ! k)" if "k < length (dl_tasks s)" for k
    using ne(1) [OF dl_inv_cid(1) [OF inv that]]
    by (intro stage_ok_frame [OF _ _ dl_inv_stage [OF inv that]]) (simp_all add: same other)
  moreover have "path_ok cfg found ?s' c" if "cid_ok c" "c \<notin> set (dl_reopened s)" for c
    using that inv by (intro path_ok_frame [OF other [OF ne(2) [OF that]]]) (simp_all add: same dl_inv_def files_inv_def)
  moreover have "strays_inv cfg ?s'" by (rule strays_inv_mono [OF _ same(4,3)]) (use inv in \<open>simp add: dl_inv_def\<close>)
  ultimately show ?thesis using inv by (simp add: dl_inv_def files_inv_def same)
qed

lemma files_inv_tasks:
  assumes "dl_inv cfg found s" "dl_files s' = dl_files s" "dl_writes s' = dl_writes s" "dl_pos s' = dl_pos s"
    "dl_responses s' = dl_responses s" "dl_reopened s' = dl_reopened s" "dl_strays s' = dl_strays s"
    and "\<And>t. t \<in> set (dl_tasks s') \<Longrightarrow> t \<in> set (dl_tasks s) \<or> dt_stage t = Creating"
  shows "files_inv cfg found s' \<and> strays_inv cfg s'"
proof -
  have same: "same_file f s s'" for f by (simp add: same_file_def assms)
  have "stage_ok cfg s t" if "t \<in> set (dl_tasks s)" for t
    using that assms(1) by (auto simp: dl_inv_def files_inv_def in_set_conv_nth)
  then have "stage_ok cfg s' t" if "t \<in> set (dl_tasks s')" for t
    using assms(8) [OF that] stage_ok_frame [of t s' cfg s] same assms(6) by (auto simp: stage_ok_def)
  moreover have "path_ok cfg found s' c" if "path_ok cfg found s c" for c
    by (rule path_ok_frame [OF same _ that]) (simp add: assms)
  ultimately show ?thesis using assms(1,5-7) by (simp add: dl_inv_def files_inv_def strays_inv_def)
qed

lemma task_next_inv:
  assumes "dl_inv cfg found s" "i < length (dl_tasks s)" shows "dl_inv cfg found (task_next i s)"
proof -
  have "t \<in> set (dl_tasks s) \<or> dt_stage t = Creating" if "t \<in> set (dl_tasks (task_next i s))" for t
    using that
    by (auto simp: task_next_def dl_notify_def Let_def split: dl_stage.splits list.splits
        dest: in_set_takeD in_set_dropD dest!: subsetD [OF set_update_subset_insert])
  then have "files_inv cfg found (task_next i s) \<and> strays_inv cfg (task_next i s)"
    by (intro files_inv_tasks [OF assms(1)])
      (simp_all add: task_next_def dl_notify_def Let_def split: dl_stage.split list.split)
  with slots_inv_next [OF _ assms(2)] assms(1) show ?thesis by (simp add: dl_inv_def Let_def)
qed

lemma download_inv:
  assumes "dl_inv cfg found s" "cid_ok cid" shows "dl_inv cfg found (snd (download cfg cid force s))"
proof -
  have "files_inv cfg found (snd (download cfg cid force s)) \<and> strays_inv cfg (snd (download cfg cid force s))"
    by (rule files_inv_tasks [OF assms(1)]) (auto simp: download_def split: if_splits)
  with slots_inv_download [OF _ assms(2)] assms(1) show ?thesis by (simp add: dl_inv_def Let_def)
qed

lemmas dl_ops_inv = task_opened_inv task_failed_inv task_chunk_inv task_completed_inv task_next_inv

lemma dl_work_inv: "dl_work cfg s s' \<Longrightarrow> dl_inv cfg found s \<Longrightarrow> dl_inv cfg found s'"
  by (induction rule: dl_work.induct) (simp_all add: dl_ops_inv write_ends_inv stray_ends_inv)

lemma dl_step_inv: "dl_inv cfg found s \<Longrightarrow> dl_step cfg s s' \<Longrightarrow> dl_inv cfg found s'"
  by (erule dl_step.cases) (simp_all add: download_inv dl_work_inv task_chunk_inv)

lemma downloader_new_inv: "dl_inv cfg found (downloader_new found)"
  by (simp add: dl_inv_def slots_inv_def files_inv_def strays_inv_def path_ok_def downloader_new_def bset_inv_def)

interpretation dl: invariant_system "\<lambda>s. s = downloader_new found" "dl_step cfg" "dl_inv cfg found" for cfg found
  by unfold_locales (simp_all add: downloader_new_inv dl_step_inv)

section \<open>Work comes to an end\<close>

definition in_flight :: "Downloader \<Rightarrow> string set" where
  "in_flight s = {f. \<exists>data. dl_writes s f = InFlight data}"

fun stage_weight :: "nat \<Rightarrow> dl_stage \<Rightarrow> nat" where
  "stage_weight m Creating = 2 * m + 5"
| "stage_weight m (Receiving sz _) = 2 * (m - sz) + 4"
| "stage_weight m (Finished _) = 1"

definition work_left :: "DlConfig \<Rightarrow> Downloader \<Rightarrow> nat" where
  "work_left cfg s =
     (2 * max_file_size cfg + 6) * length (dl_pending s) +
     (\<Sum>t \<leftarrow> dl_tasks s. stage_weight (max_file_size cfg) (dt_stage t)) + card (in_flight s) +
     length (dl_strays s)"

lemma sum_list_update_nat:
  "i < length xs \<Longrightarrow> (\<Sum>t \<leftarrow> xs[i := x]. f t) + f (xs ! i) = (\<Sum>t \<leftarrow> xs. f t) + (f x :: nat)"
  by (induction xs arbitrary: i) (auto split: nat.splits simp: nth_Cons)

lemma sum_list_remove_nat:
  "i < length xs \<Longrightarrow> (\<Sum>t \<leftarrow> take i xs @ drop (Suc i) xs. f t) + f (xs ! i) = (\<Sum>t \<leftarrow> xs. (f t :: nat))"
  by (induction xs arbitrary: i) (auto simp: nth_Cons add.assoc [symmetric] split: nat.splits)

lemma in_flight_ops:
  "in_flight (task_opened cfg i s) = in_flight s - {tmp_path_of cfg (dt_cid (dl_tasks s ! i))}"
  "in_flight (task_failed cfg i e s) \<subseteq> in_flight s"
  "in_flight (task_chunk cfg i k c s) \<subseteq> insert (tmp_path_of cfg (dt_cid (dl_tasks s ! i))) (in_flight s)"
  "in_flight (task_completed cfg i r s) \<subseteq> insert (path_of cfg (dt_cid (dl_tasks s ! i))) (in_flight s)"
  "in_flight (task_next i s) = in_flight s" "in_flight (snd (download cfg cid force s)) = in_flight s"
  "in_flight (stray_ends j n ok s) = in_flight s"
  by (auto simp: in_flight_def task_opened_def task_failed_def task_chunk_def task_completed_def
      task_next_def dl_notify_def download_def stray_ends_def Let_def case_prod_beta
      split: dl_stage.splits if_splits list.splits)

lemma in_flight_ends: "in_flight (write_ends f n ok s) = in_flight s - {f}"
  by (auto simp: in_flight_def write_ends_def Let_def split: write_state.splits)

text \<open>The writes of earlier attempts: only opening a file again adds one, which then is no longer in flight.\<close>

lemma strays_ops:
  "length (dl_strays (task_opened cfg i s)) =
     length (dl_strays s) + (if tmp_path_of cfg (dt_cid (dl_tasks s ! i)) \<in> in_flight s then 1 else 0)"
  "length (dl_strays (task_failed cfg i e s)) \<le> length (dl_strays s)"
  "length (dl_strays (task_chunk cfg i k c s)) \<le> length (dl_strays s)"
  "length (dl_strays (task_completed cfg i r s)) \<le> length (dl_strays s)"
  "dl_strays (task_next i s) = dl_strays s" "dl_strays (write_ends f n ok s) = dl_strays s"
  by (auto simp: in_flight_def task_opened_def task_failed_def task_chunk_def task_completed_def
      task_next_def dl_notify_def write_ends_def Let_def split: dl_stage.splits list.splits write_state.splits)

lemma in_flight_finite: "dl_step cfg s s' \<Longrightarrow> finite (in_flight s) \<Longrightarrow> finite (in_flight s')"
  by (erule dl_step.cases, simp add: in_flight_ops, erule dl_work.cases)
    (auto simp: in_flight_ops(1,5,7) in_flight_ends intro: finite_subset [OF in_flight_ops(2)]
      finite_subset [OF in_flight_ops(3)] finite_subset [OF in_flight_ops(4)])

lemma card_in_flight:
  "finite (in_flight s) \<Longrightarrow> in_flight s' \<subseteq> in_flight s \<Longrightarrow> card (in_flight s') \<le> card (in_flight s)"
  "finite (in_flight s) \<Longrightarrow> in_flight s' \<subseteq> insert f (in_flight s) \<Longrightarrow> card (in_flight s') \<le> Suc (card (in_flight s))"
  using card_mono [of "insert f (in_flight s)" "in_flight s'"] by (auto simp: card_mono card_insert_if split: if_splits)

text \<open>A step that changes the stage of one task does less work than it leaves.\<close>

lemma work_left_stage:
  assumes "i < length (dl_tasks s)" "dl_tasks s' = (dl_tasks s)[i := (dl_tasks s ! i)\<lparr>dt_stage := st\<rparr>]"
    "dl_pending s' = dl_pending s"
    "stage_weight (max_file_size cfg) st + card (in_flight s') + length (dl_strays s') <
     stage_weight (max_file_size cfg) (dt_stage (dl_tasks s ! i)) + card (in_flight s) + length (dl_strays s)"
  shows "work_left cfg s' < work_left cfg s"
  using assms sum_list_update_nat [OF assms(1), of "\<lambda>t. stage_weight (max_file_size cfg) (dt_stage t)"
      "(dl_tasks s ! i)\<lparr>dt_stage := st\<rparr>"]
  by (simp add: work_left_def)

lemma work_left_failed:
  assumes "i < length (dl_tasks s)" "\<forall>event. dt_stage (dl_tasks s ! i) \<noteq> Finished event" "finite (in_flight s)"
  shows "work_left cfg (task_failed cfg i e s) < work_left cfg s"
proof (rule work_left_stage [OF assms(1)])
  show "dl_tasks (task_failed cfg i e s) = (dl_tasks s)[i := (dl_tasks s ! i)\<lparr>dt_stage :=
      Finished (DownloadFailure (dt_cid (dl_tasks s ! i)) e)\<rparr>]"
    by (simp add: task_failed_def Let_def)
  show "stage_weight (max_file_size cfg) (Finished (DownloadFailure (dt_cid (dl_tasks s ! i)) e)) +
      card (in_flight (task_failed cfg i e s)) + length (dl_strays (task_failed cfg i e s)) <
    stage_weight (max_file_size cfg) (dt_stage (dl_tasks s ! i)) + card (in_flight s) + length (dl_strays s)"
    using assms(2) strays_ops(2) [of cfg i e s] card_in_flight(1) [OF assms(3) in_flight_ops(2), of cfg i e]
    by (cases "dt_stage (dl_tasks s ! i)") auto
qed simp

lemma work_left_next:
  assumes "i < length (dl_tasks s)" "dt_stage (dl_tasks s ! i) = Finished event"
  shows "work_left cfg (task_next i s) < work_left cfg s"
proof (cases "dl_pending s")
  case Nil
  then show ?thesis
    using assms sum_list_remove_nat [OF assms(1), of "\<lambda>t. stage_weight (max_file_size cfg) (dt_stage t)"] in_flight_ops(5) [of i s] strays_ops(5) [of i s]
    by (simp add: work_left_def task_next_def dl_notify_def Let_def)
next
  case (Cons c rest)
  then show ?thesis
    using assms sum_list_update_nat [OF assms(1), of "\<lambda>t. stage_weight (max_file_size cfg) (dt_stage t)"
        "\<lparr> dt_cid = c, dt_stage = Creating \<rparr>"] in_flight_ops(5) [of i s] strays_ops(5) [of i s]
    by (simp add: work_left_def task_next_def dl_notify_def Let_def)
qed

lemma work_left_chunk:
  assumes i: "i < length (dl_tasks s)" and st: "dt_stage (dl_tasks s ! i) = Receiving sz chunks"
    and "part \<noteq> []" and fin: "finite (in_flight s)"
  shows "work_left cfg (task_chunk cfg i k part s) < work_left cfg s"
proof (cases "sz + length part > max_file_size cfg \<or> dl_writes s (tmp_path_of cfg (dt_cid (dl_tasks s ! i))) = WriteFailed")
  case True
  then show ?thesis using work_left_failed [OF i _ fin] st assms(3) by (auto simp: task_chunk_def Let_def)
next
  case False
  then have len: "2 * (max_file_size cfg - (sz + length part)) + 2 \<le> 2 * (max_file_size cfg - sz)"
    using assms(3) by (cases part) auto
  show ?thesis
  proof (rule work_left_stage [OF i])
    show "dl_tasks (task_chunk cfg i k part s) = (dl_tasks s)[i := (dl_tasks s ! i)\<lparr>dt_stage :=
        Receiving (sz + length part) (chunks @ [part])\<rparr>]"
      using False st assms(3) by (simp add: task_chunk_def Let_def)
    show "stage_weight (max_file_size cfg) (Receiving (sz + length part) (chunks @ [part])) +
        card (in_flight (task_chunk cfg i k part s)) + length (dl_strays (task_chunk cfg i k part s)) <
      stage_weight (max_file_size cfg) (dt_stage (dl_tasks s ! i)) + card (in_flight s) + length (dl_strays s)"
      using strays_ops(3) [of cfg i k part s] card_in_flight(2) [OF fin in_flight_ops(3), of cfg i k part] False st len by simp
  qed simp
qed

lemma work_left_decreases:
  assumes "dl_work cfg s s'" "finite (in_flight s)" shows "work_left cfg s' < work_left cfg s"
  using assms
proof cases
  case (opened i)
  have "card (in_flight (task_opened cfg i s)) + length (dl_strays (task_opened cfg i s)) \<le>
      card (in_flight s) + length (dl_strays s)"
    using card_Suc_Diff1 [OF assms(2)] by (auto simp: in_flight_ops(1) strays_ops(1))
  then have "work_left cfg (task_opened cfg i s) < work_left cfg s"
    by (intro work_left_stage [OF opened(2), where st = "Receiving 0 []"])
      (use opened in \<open>simp_all, simp_all add: task_opened_def Let_def\<close>)
  with opened show ?thesis by simp
next
  case (completed i sz chunks renamed)
  have "work_left cfg (task_completed cfg i renamed s) < work_left cfg s"
    by (rule work_left_stage [OF completed(2), where st = "Finished (Downloaded (dt_cid (dl_tasks s ! i)))"])
      (use completed strays_ops(4) [of cfg i renamed s] card_in_flight(2) [OF assms(2) in_flight_ops(4), of cfg i renamed] in
        \<open>simp_all, simp_all add: task_completed_def Let_def\<close>)
  with completed show ?thesis by simp
next
  case (lands g data n ok)
  then have "g \<in> in_flight s" by (simp add: in_flight_def)
  then have "card (in_flight s - {g}) < card (in_flight s)" using assms(2) by (rule card_Diff1_less [rotated])
  moreover have "dl_tasks (write_ends g n ok s) = dl_tasks s" by (simp add: write_ends_def Let_def split: write_state.split)
  ultimately show ?thesis using lands by (simp add: work_left_def in_flight_ends strays_ops(6))
next
  case (strays j n ok)
  then have "length (dl_strays s') < length (dl_strays s)" "dl_tasks s' = dl_tasks s"
    by (simp_all add: stray_ends_def Let_def case_prod_beta)
  with strays show ?thesis by (simp add: work_left_def in_flight_ops(7))
qed (use assms work_left_failed work_left_chunk work_left_next in auto)

section \<open>Properties\<close>

text \<open>
  A download of two bytes, up to its announcement and then until the write has ended.
\<close>

definition demo_cfg :: DlConfig where
  "demo_cfg = dl_config_new ''https://ipfs.io/ipfs/'' ''cache''"

definition demo_requested :: Downloader where
  "demo_requested = snd (download demo_cfg ''Qm'' False (downloader_new (\<lambda>_. None)))"

definition demo_opened :: Downloader where
  "demo_opened = task_opened demo_cfg 0 demo_requested"

definition demo_received :: Downloader where
  "demo_received = task_chunk demo_cfg 0 0 [1, 2] demo_opened"

definition demo_completed :: Downloader where
  "demo_completed = task_completed demo_cfg 0 True demo_received"

definition demo_announced :: Downloader where
  "demo_announced = task_next 0 demo_completed"

definition demo_written :: Downloader where
  "demo_written = write_ends ''cache/Qm'' 0 True demo_announced"

lemmas demo_dl_defs = demo_requested_def demo_opened_def demo_received_def demo_completed_def demo_announced_def
  demo_written_def task_next_def task_completed_def task_chunk_def task_opened_def download_def downloader_new_def
  dl_exists_def dl_busy_def dl_notify_def demo_cfg_def dl_config_new_def trim_end_slash_def path_of_def tmp_path_of_def
  path_join_def set_stage_def bset_insert_def bset_remove_def write_ends_def write_at_def Let_def

lemma demo_works:
  "dl_work demo_cfg demo_requested demo_opened" "dl_work demo_cfg demo_opened demo_received"
  "dl_work demo_cfg demo_received demo_completed" "dl_work demo_cfg demo_completed demo_announced"
  "dl_work demo_cfg demo_announced demo_written"
proof -
  show "dl_work demo_cfg demo_requested demo_opened"
    unfolding demo_opened_def by (rule dl_work.opened) (simp_all add: demo_dl_defs)
  show "dl_work demo_cfg demo_opened demo_received"
    unfolding demo_received_def by (rule dl_work.chunk [where sz = 0 and chunks = "[]"]) (simp_all add: demo_dl_defs)
  show "dl_work demo_cfg demo_received demo_completed"
    unfolding demo_completed_def
    by (rule dl_work.completed [where sz = 2 and chunks = "[[1, 2]]"]) (simp_all add: demo_dl_defs)
  show "dl_work demo_cfg demo_completed demo_announced"
    unfolding demo_announced_def
    by (rule dl_work.continues [where event = "Downloaded ''Qm''"]) (simp_all add: demo_dl_defs)
  show "dl_work demo_cfg demo_announced demo_written"
    unfolding demo_written_def by (rule dl_work.lands [where data = "[1, 2]"]) (simp add: demo_dl_defs)
qed

lemma demo_requested_reachable: "(dl_step demo_cfg)\<^sup>*\<^sup>* (downloader_new (\<lambda>_. None)) demo_requested"
  unfolding demo_requested_def by (rule r_into_rtranclp, rule dl_step.request) (simp add: cid_ok_def)

lemma demo_written_reachable: "(dl_step demo_cfg)\<^sup>*\<^sup>* (downloader_new (\<lambda>_. None)) demo_written"
  using demo_requested_reachable demo_works by (meson rtranclp.rtrancl_into_rtrancl dl_step.works)

lemma reachable_finite: "(dl_step cfg)\<^sup>*\<^sup>* (downloader_new found) s \<Longrightarrow> finite (in_flight s)"
  by (induction rule: rtranclp_induct) (simp_all add: in_flight_finite, simp add: in_flight_def downloader_new_def)

text \<open>
  With the configuration of the bridge, in every state the interleavings of requests, tasks and writes
  reach there are at most ten download tasks and at most 10000 queued downloads; no content is downloaded by two
  tasks or both downloaded and queued; and while anything is queued, all ten tasks are at work.
\<close>

lemma downloader_slots:
  assumes "(dl_step (dl_config_new url dir))\<^sup>*\<^sup>* (downloader_new found) s"
  shows "length (dl_tasks s) \<le> 10 \<and> length (dl_pending s) \<le> 10000 \<and> distinct (map dt_cid (dl_tasks s) @ dl_pending s) \<and>
    set (dl_downloading s) = set (map dt_cid (dl_tasks s)) \<and> (dl_pending s \<noteq> [] \<longrightarrow> length (dl_tasks s) = 10)"
proof -
  have inv: "slots_inv (dl_config_new url dir) (dl_pending s) (dl_downloading s) (dl_cids s)"
    using dl.reachable_inv [OF refl assms] by (simp add: dl_inv_def)
  then have "length (dl_tasks s) = length (dl_downloading s)"
    using distinct_card [of "dl_cids s"] by (simp add: slots_inv_def bset_length)
  with inv show ?thesis
    by (auto simp: slots_inv_def dl_config_new_def bset_inv_iff)
qed

text \<open>
  C16: What is read of a file is a first part of one complete response of the gateway for that very content, of
  at most 20 MiB, whatever tasks and writes interleaved, and all of it once the last write to the file has succeeded; or
  it is the file that has been there from the start, unchanged. This holds for every content whose temporary file
  was never created again while a write of an earlier attempt was still under way.
\<close>

theorem downloaded_file_is_response:
  assumes "(dl_step (dl_config_new url dir))\<^sup>*\<^sup>* (downloader_new found) s" "cid_ok cid"
    and "dl_read (dl_config_new url dir) io_error cid s = Ok (Some data)" "cid \<notin> set (dl_reopened s)"
  shows "(\<exists>chunks. (cid, chunks) \<in> set (dl_responses s) \<and> length (concat chunks) \<le> 1024 * 1024 * 20 \<and>
      data = take (length data) (concat chunks) \<and>
      (dl_writes s (path_of (dl_config_new url dir) cid) = Idle \<longrightarrow> data = concat chunks)) \<or>
    found (path_of (dl_config_new url dir) cid) = Some data"
proof -
  let ?cfg = "dl_config_new url dir"
  have stored: "dl_files s (path_of ?cfg cid) = Some data"
    using assms(3) by (simp add: dl_read_def split: option.splits)
  have inv: "files_inv ?cfg found s" using dl.reachable_inv [OF refl assms(1)] by (simp add: dl_inv_def)
  then have "path_ok ?cfg found s cid" using assms(2,4) unfolding files_inv_def by blast
  then consider chunks where "(cid, chunks) \<in> set (dl_responses s)" "holds s (path_of ?cfg cid) chunks"
    | "found (path_of ?cfg cid) = Some data"
    using stored unfolding path_ok_def by auto
  then show ?thesis
  proof cases
    case (1 chunks)
    have "length (concat chunks) \<le> max_file_size ?cfg" using inv 1(1) unfolding files_inv_def by fastforce
    then have len: "length (concat chunks) \<le> 1024 * 1024 * 20" by (simp add: dl_config_new_def)
    have idle: "dl_writes s (path_of ?cfg cid) = Idle \<longrightarrow> data = concat chunks"
      using 1(2) stored by (auto simp: holds_def)
    have "\<exists>rest. concat chunks = data @ rest"
      using 1(2) stored by (auto simp: holds_def intro: exI [of _ "[]"] split: write_state.splits) metis+
    then have "data = take (length data) (concat chunks)" by auto
    with 1(1) len idle show ?thesis by blast
  qed simp
qed

theorem downloaded_file_is_response_witness:
  "\<exists>data chunks. dl_read demo_cfg None ''Qm'' demo_written = Ok (Some data) \<and> data = [1, 2] \<and>
     (''Qm'', chunks) \<in> set (dl_responses demo_written) \<and> data = concat chunks"
proof -
  have "dl_read demo_cfg None ''Qm'' demo_written = Ok (Some [1, 2])" "cid_ok ''Qm''" "''Qm'' \<notin> set (dl_reopened demo_written)"
    "dl_writes demo_written (path_of demo_cfg ''Qm'') = Idle"
    by (simp_all add: dl_read_def demo_dl_defs cid_ok_def)
  with downloaded_file_is_response [OF demo_written_reachable [unfolded demo_cfg_def], of "''Qm''" None "[1, 2]"]
  show ?thesis by (auto simp: demo_cfg_def)
qed

text \<open>Steps with time.\<close>

lemma dl_timed_reach:
  assumes "\<forall>n. dl_timed cfg lag (f n) (f (Suc n))" "(dl_step cfg)\<^sup>*\<^sup>* s0 (snd (snd (f 0)))"
  shows "(dl_step cfg)\<^sup>*\<^sup>* s0 (snd (snd (f n)))"
proof (induction n)
  case (Suc n)
  have "dl_timed cfg lag (f n) (f (Suc n))" using assms(1) by blast
  then have "snd (snd (f (Suc n))) = snd (snd (f n)) \<or> dl_step cfg (snd (snd (f n))) (snd (snd (f (Suc n))))"
    by cases (auto intro: dl_step.works dl_step.empty_chunk)
  with Suc show ?case by (auto intro: rtranclp.rtrancl_into_rtrancl)
qed (use assms(2) in simp)

text \<open>An empty chunk leaves the work as it is, and changes nothing that matters to the timers.\<close>

lemma empty_chunk_keeps:
  assumes "i < length (dl_tasks s)" "dt_stage (dl_tasks s ! i) = Receiving sz chunks" "sz \<le> max_file_size cfg"
  shows "work_left cfg (task_chunk cfg i k [] s) = work_left cfg s"
    and "unfinished (task_chunk cfg i k [] s) = unfinished s" "dt_cid (dl_tasks s ! i) \<in> unfinished s"
proof -
  have s': "task_chunk cfg i k [] s = set_stage i (Receiving sz (chunks @ [[]])) s"
    using assms by (simp add: task_chunk_def Let_def)
  have in': "in_flight (set_stage i st s) = in_flight s" for st by (simp add: in_flight_def)
  show "work_left cfg (task_chunk cfg i k [] s) = work_left cfg s"
    using sum_list_update_nat [OF assms(1), of "\<lambda>t. stage_weight (max_file_size cfg) (dt_stage t)"
        "(dl_tasks s ! i)\<lparr>dt_stage := Receiving sz (chunks @ [[]])\<rparr>"] assms(2)
    by (simp add: s' work_left_def in')
  have un: "unfinished s = {c. \<exists>j < length (dl_tasks s). c = dt_cid (dl_tasks s ! j) \<and>
      (\<forall>event. dt_stage (dl_tasks s ! j) \<noteq> Finished event)}" for s
    by (fastforce simp: unfinished_def in_set_conv_nth)
  have "dt_cid (dl_tasks (task_chunk cfg i k [] s) ! j) = dt_cid (dl_tasks s ! j)"
    "(\<forall>event. dt_stage (dl_tasks (task_chunk cfg i k [] s) ! j) \<noteq> Finished event) =
     (\<forall>event. dt_stage (dl_tasks s ! j) \<noteq> Finished event)" if "j < length (dl_tasks s)" for j
    using that assms(2) by (cases "j = i"; simp add: s')+
  moreover have "length (dl_tasks (task_chunk cfg i k [] s)) = length (dl_tasks s)" by (simp add: s')
  ultimately show "unfinished (task_chunk cfg i k [] s) = unfinished s" unfolding un by (simp cong: conj_cong)
  show "dt_cid (dl_tasks s ! i) \<in> unfinished s" using assms(1,2) unfolding un by fastforce
qed

lemma decreasing_settles:
  assumes "\<And>n. (w (Suc n) :: nat) \<le> w n" shows "\<exists>N. \<forall>n \<ge> N. w n = w N"
proof -
  obtain N where N: "w N \<le> w n" for n using ex_has_least_nat [of "\<lambda>_. True" 0 w] by auto
  have "w n \<le> w N" if "n \<ge> N" for n using that by (induction rule: dec_induct) (auto intro: le_trans assms)
  with N show ?thesis by (metis le_antisym)
qed

text \<open>A step that does not use up work is an empty chunk or the passing of time.\<close>

lemma dl_timed_idle:
  assumes step: "dl_timed cfg lag a b" and reach: "(dl_step cfg)\<^sup>*\<^sup>* (downloader_new found) (snd (snd a))"
  shows "work_left cfg (snd (snd b)) \<le> work_left cfg (snd (snd a))" "fst a \<le> fst b"
    and "work_left cfg (snd (snd b)) = work_left cfg (snd (snd a)) \<Longrightarrow>
      unfinished (snd (snd b)) = unfinished (snd (snd a)) \<and> fst (snd b) = fst (snd a) \<and>
      (unfinished (snd (snd a)) = {} \<longrightarrow> snd (snd b) = snd (snd a)) \<and>
      (fst b = fst a \<or> (\<forall>c \<in> unfinished (snd (snd a)). fst b \<le> fst (snd a) c + max_download_time cfg + lag))"
proof -
  have small: "sz \<le> max_file_size cfg"
    if "i < length (dl_tasks (snd (snd a)))" "dt_stage (dl_tasks (snd (snd a)) ! i) = Receiving sz chunks" for i sz chunks
    using dl_inv_stage [OF dl.reachable_inv [OF refl reach] that(1)] that(2) by (simp add: stage_ok_def)
  have "work_left cfg (snd (snd b)) \<le> work_left cfg (snd (snd a)) \<and> fst a \<le> fst b \<and>
     (work_left cfg (snd (snd b)) = work_left cfg (snd (snd a)) \<longrightarrow>
      unfinished (snd (snd b)) = unfinished (snd (snd a)) \<and> fst (snd b) = fst (snd a) \<and>
      (unfinished (snd (snd a)) = {} \<longrightarrow> snd (snd b) = snd (snd a)) \<and>
      (fst b = fst a \<or> (\<forall>c \<in> unfinished (snd (snd a)). fst b \<le> fst (snd a) c + max_download_time cfg + lag)))"
    using step
  proof cases
    case (timed_work s s' now began)
    then have "work_left cfg s' < work_left cfg s" using work_left_decreases reachable_finite reach by simp
    with timed_work show ?thesis by simp
  next
    case (timed_empty i s sz chunks now began k)
    note keep = empty_chunk_keeps [OF timed_empty(3,4), of cfg] small [of i sz chunks]
    then show ?thesis using timed_empty by (simp, blast)
  next
    case (timed_tick s now began)
    then show ?thesis by (simp add: Suc_le_eq)
  qed
  then show "work_left cfg (snd (snd b)) \<le> work_left cfg (snd (snd a))" "fst a \<le> fst b"
    "work_left cfg (snd (snd b)) = work_left cfg (snd (snd a)) \<Longrightarrow>
      unfinished (snd (snd b)) = unfinished (snd (snd a)) \<and> fst (snd b) = fst (snd a) \<and>
      (unfinished (snd (snd a)) = {} \<longrightarrow> snd (snd b) = snd (snd a)) \<and>
      (fst b = fst a \<or> (\<forall>c \<in> unfinished (snd (snd a)). fst b \<le> fst (snd a) c + max_download_time cfg + lag))"
    by blast+
qed

text \<open>When time goes on, no attempt stays unfinished, and then nothing changes but the time.\<close>

lemma dl_timed_settles:
  assumes reach: "(dl_step cfg)\<^sup>*\<^sup>* (downloader_new found) (snd (snd (f 0)))"
    and run: "\<forall>n. dl_timed cfg lag (f n) (f (Suc n))" and time: "\<forall>T. \<exists>n. T \<le> fst (f n)"
  shows "\<exists>N. \<forall>n \<ge> N. snd (snd (f n)) = snd (snd (f N)) \<and> unfinished (snd (snd (f n))) = {}"
proof -
  let ?S = "\<lambda>n. snd (snd (f n))" and ?B = "\<lambda>n. fst (snd (f n))"
  have step: "dl_timed cfg lag (f n) (f (Suc n))" for n using run by blast
  have at: "(dl_step cfg)\<^sup>*\<^sup>* (downloader_new found) (?S n)" for n by (rule dl_timed_reach [OF run reach])
  note idle = dl_timed_idle [OF step at]
  obtain N where N: "\<forall>n \<ge> N. work_left cfg (?S n) = work_left cfg (?S N)"
    using decreasing_settles [of "\<lambda>n. work_left cfg (?S n)", OF idle(1)] by (rule exE)
  have idle_step: "unfinished (?S (Suc n)) = unfinished (?S n) \<and> ?B (Suc n) = ?B n \<and>
      (unfinished (?S n) = {} \<longrightarrow> ?S (Suc n) = ?S n) \<and>
      (fst (f (Suc n)) = fst (f n) \<or> (\<forall>c \<in> unfinished (?S n). fst (f (Suc n)) \<le> ?B n c + max_download_time cfg + lag))"
    if "n \<ge> N" for n
  proof (rule idle(3))
    show "work_left cfg (?S (Suc n)) = work_left cfg (?S n)"
      using N [rule_format, OF that] N [rule_format, OF le_SucI [OF that]] by (simp only:)
  qed
  have same: "unfinished (?S n) = unfinished (?S N) \<and> ?B n = ?B N" if "n \<ge> N" for n
    using that
  proof (induction rule: dec_induct)
    case (step n)
    then show ?case using idle_step [OF step(1)] by simp
  qed simp
  have none: "unfinished (?S n) = {}" if n: "n \<ge> N" for n
  proof (rule ccontr)
    assume "unfinished (?S n) \<noteq> {}"
    then obtain c where c: "c \<in> unfinished (?S N)" using same [OF n] by blast
    let ?D = "max (fst (f N)) (?B N c + max_download_time cfg + lag)"
    have late: "fst (f m) \<le> ?D" if "m \<ge> N" for m
      using that
    proof (induction rule: dec_induct)
      case (step m)
      have "c \<in> unfinished (?S m)" "?B m = ?B N" using same [OF step(1)] c by simp_all
      then have "fst (f (Suc m)) = fst (f m) \<or> fst (f (Suc m)) \<le> ?B N c + max_download_time cfg + lag"
        using idle_step [OF step(1)] by auto
      with step(3) show ?case by linarith
    qed simp
    have "fst (f m) \<le> fst (f N)" if "m \<le> N" for m
      using lift_Suc_mono_le [of "\<lambda>n. fst (f n)", OF idle(2) that] .
    with late have "fst (f m) \<le> ?D" for m by (cases "m \<le> N") (simp_all add: le_max_iff_disj)
    moreover obtain m where "Suc ?D \<le> fst (f m)" using time by blast
    ultimately show False using not_less_eq_eq by blast
  qed
  have const: "?S n = ?S N" if "n \<ge> N" for n
    using that
  proof (induction rule: dec_induct)
    case (step n)
    then show ?case using idle_step [OF step(1)] none [OF step(1)] by simp
  qed simp
  show ?thesis by (intro exI [of _ N] allI impI conjI const none)
qed

text \<open>
  A download from its request until the write has ended, after which only time passes.
\<close>

definition demo_run :: "nat \<Rightarrow> timed" where
  "demo_run n =
     (n - 5, \<lambda>_. 0,
      [demo_requested, demo_opened, demo_received, demo_completed, demo_announced, demo_written] ! min n 5)"

lemma demo_run_states:
  "demo_run 0 = (0, \<lambda>_. 0, demo_requested)" "demo_run 1 = (0, \<lambda>_. 0, demo_opened)" "demo_run 2 = (0, \<lambda>_. 0, demo_received)"
  "demo_run 3 = (0, \<lambda>_. 0, demo_completed)" "demo_run 4 = (0, \<lambda>_. 0, demo_announced)"
  "5 \<le> n \<Longrightarrow> demo_run n = (n - 5, \<lambda>_. 0, demo_written)"
  by (simp_all add: demo_run_def min_absorb2)

lemma demo_written_idle: "dl_tasks demo_written = []"
  by (simp add: demo_dl_defs)

lemma demo_run_steps: "dl_timed demo_cfg lag (demo_run n) (demo_run (Suc n))"
proof -
  have work: "dl_timed demo_cfg lag (0, \<lambda>_. 0, s) (0, \<lambda>_. 0, s')" if "dl_work demo_cfg s s'" for s s'
    using dl_timed.timed_work [OF that, of lag 0 "\<lambda>_. 0"] by simp
  have five: "demo_run 5 = (0, \<lambda>_. 0, demo_written)" using demo_run_states(6) [of 5] by simp
  have "unfinished demo_written = {}" by (simp add: unfinished_def demo_written_idle)
  then have tick: "dl_timed demo_cfg lag (t, \<lambda>_. 0, demo_written) (Suc t, \<lambda>_. 0, demo_written)" for t
    by (intro dl_timed.timed_tick) simp
  consider "n = 0" | "n = 1" | "n = 2" | "n = 3" | "n = 4" | "5 \<le> n" by linarith
  then show ?thesis
  proof cases
    case 6
    then have "demo_run (Suc n) = (Suc (n - 5), \<lambda>_. 0, demo_written)" using demo_run_states(6) [of "Suc n"] by simp
    with 6 tick show ?thesis by (simp only: demo_run_states(6))
  qed (use demo_works [THEN work] demo_run_states five in \<open>simp_all add: eval_nat_numeral(2,3)\<close>)
qed

text \<open>
  C17: Downloads come to an end: in every run without new requests, in any order of the steps of tasks and writes and
  with any number of empty chunks, in which time goes on (no attempt outliving the download timeout by more than some
  lag) and no finished task waits for the lock forever, from some point on no download is running or queued.
\<close>

theorem downloader_drains:
  assumes "(dl_step cfg)\<^sup>*\<^sup>* (downloader_new found) (snd (snd (f 0)))" "0 < max_downloading cfg"
    and "\<forall>n. dl_timed cfg lag (f n) (f (Suc n))" "\<forall>T. \<exists>n. T \<le> fst (f n)"
    and "\<forall>n. \<forall>t \<in> set (dl_tasks (snd (snd (f n)))). \<forall>event. dt_stage t = Finished event \<longrightarrow>
      (\<exists>m \<ge> n. t \<notin> set (dl_tasks (snd (snd (f m)))))"
  shows "\<exists>N. \<forall>n \<ge> N. dl_tasks (snd (snd (f n))) = [] \<and> dl_downloading (snd (snd (f n))) = [] \<and>
    dl_pending (snd (snd (f n))) = []"
proof -
  obtain N where N: "snd (snd (f n)) = snd (snd (f N)) \<and> unfinished (snd (snd (f n))) = {}" if "n \<ge> N" for n
    using dl_timed_settles [OF assms(1,3,4)] by metis
  have "t \<notin> set (dl_tasks (snd (snd (f N))))" for t
  proof
    assume t: "t \<in> set (dl_tasks (snd (snd (f N))))"
    then obtain event where "dt_stage t = Finished event" using N [of N] by (auto simp: unfinished_def)
    with assms(5) t obtain m where "m \<ge> N" "t \<notin> set (dl_tasks (snd (snd (f m))))" by blast
    with N t show False by metis
  qed
  then have "dl_tasks (snd (snd (f N))) = []" by (metis list.set_intros(1) neq_Nil_conv)
  with dl.reachable_inv [OF refl dl_timed_reach [OF assms(3,1), of N]] assms(2)
  have "dl_tasks (snd (snd (f N))) = [] \<and> dl_downloading (snd (snd (f N))) = [] \<and> dl_pending (snd (snd (f N))) = []"
    by (auto simp: dl_inv_def slots_inv_def)
  with N show ?thesis by metis
qed

theorem downloader_drains_witness:
  "dl_downloading (snd (snd (demo_run 0))) = [''Qm''] \<and>
   (\<exists>N. \<forall>n \<ge> N. dl_tasks (snd (snd (demo_run n))) = [] \<and> dl_downloading (snd (snd (demo_run n))) = [] \<and>
     dl_pending (snd (snd (demo_run n))) = [])"
proof -
  have r: "(dl_step demo_cfg)\<^sup>*\<^sup>* (downloader_new (\<lambda>_. None)) (snd (snd (demo_run 0)))"
    by (simp add: demo_run_states demo_requested_reachable)
  have p: "0 < max_downloading demo_cfg" by (simp add: demo_cfg_def dl_config_new_def)
  have "T \<le> fst (demo_run (T + 5))" for T by (simp add: demo_run_states)
  then have t: "\<forall>T. \<exists>n. T \<le> fst (demo_run n)" by blast
  have "t \<notin> set (dl_tasks (snd (snd (demo_run (n + 5)))))" for n t by (simp add: demo_run_states demo_written_idle)
  then have u: "\<forall>n. \<forall>t \<in> set (dl_tasks (snd (snd (demo_run n)))). \<forall>event. dt_stage t = Finished event \<longrightarrow>
      (\<exists>m \<ge> n. t \<notin> set (dl_tasks (snd (snd (demo_run m)))))" by (meson le_add1)
  have "dl_downloading demo_requested = [''Qm'']" by (simp add: demo_dl_defs)
  with downloader_drains [OF r p _ t u, of 0] demo_run_steps show ?thesis by (simp add: demo_run_states(1))
qed



end
