(* ===== verification/Bridge.thy ===== *)
theory Bridge
  imports Rpc_Service Ipfs_Downloader "HOL-Library.Product_Lexorder"
begin

text \<open>
  The bridge between the chain and a worker (\<open>wapod-pherry/src/bridge.rs\<close>, with the transaction nonces of
  \<open>chain_state/chain_client.rs\<close>, the registration of \<open>register.rs\<close> and the client of
  \<open>rpc_client.rs\<close>): it follows the chain's tickets, plans which apps the worker should run, deploys and removes
  them, and reports metrics and scores. Every method is a function of the bridge's state; the state has
  the worker behind the client and the downloader too, and counts the calls that are awaited, so that the
  answers of the chain, of the network and of the clock, and what the downloader does meanwhile, are given
  by the number of the call. The worker's operations are an interface (\<open>WorkerClient\<close>): the bridge is defined over it, and
  the model of the RPC services implements it at the end of the definitions.
\<close>

section \<open>Data\<close>

record BridgeConfig =
  bc_max_apps :: nat
  bc_metrics_interval :: nat
  bc_recipient :: string
  bc_operator :: string
  bc_pccs_url :: string
  bc_gas_until_report :: u64
  bc_reuse_instances :: bool

text \<open>
  The chain's types are generated from its metadata; of a ticket and a heartbeat the code uses these fields.
\<close>

datatype WorkerSet = AnyWorker | WorkerList u64

record TicketInfo =
  ti_address :: bytes
  ti_manifest_cid :: string
  ti_workers :: WorkerSet

record HeartbeatChallenge =
  hb_seed :: "256 word"
  hb_online_target :: "256 word"

record ChainState =
  cs_tickets :: "(u64, TicketInfo) btree"
  cs_worker_list_workers :: "(u64, bytes list) btree"
  cs_bench_app_address :: "bytes option"
  cs_heartbeat_challenge :: "HeartbeatChallenge option"

record Ticket =
  tk_info :: TicketInfo
  tk_manifest :: AppManifest

record PlanApp =
  pa_manifest :: AppManifest
  pa_tickets :: "u64 list"
  pa_balance :: u128

record PlanningState =
  ps_tickets :: "(u64, Ticket) btree"
  ps_ticket_balances :: "(u64, u128) btree"
  ps_bench_app :: "(bytes \<times> u64) option"
  ps_all_apps :: "(bytes, PlanApp) btree"
  ps_selected_apps :: "(bytes, PlanApp) btree"
  ps_download_failures :: "(string, string) btree"

definition planning_default :: PlanningState where
  "planning_default =
     \<lparr> ps_tickets = [], ps_ticket_balances = [], ps_bench_app = None, ps_all_apps = [],
       ps_selected_apps = [], ps_download_failures = [] \<rparr>"

definition chain_state_default :: ChainState where
  "chain_state_default =
     \<lparr> cs_tickets = [], cs_worker_list_workers = [], cs_bench_app_address = None,
       cs_heartbeat_challenge = None \<rparr>"

text \<open>The transactions, with the nonce each is signed with.\<close>

datatype bridge_tx =
    RegisterWorker WorkerRegistrationInfoV2 bytes
  | WorkerSessionUpdate SessionUpdate bytes bytes
  | TicketSettle AppsMetrics bytes bytes "(bytes \<times> u64 list) list"
  | BenchmarkScoreSubmit bool bytes

datatype rpc_failure = TransportError | ServerError rpc_error

datatype bridge_error =
    RpcFailed rpc_failure | ChainFailed string | InvalidPubkey | InvalidAppAddress | InvalidBlobCid
  | InvalidManifestCid | BlobMissing | DownloaderFailed download_error | ManifestInvalid
  | ManifestDownloadFailed string | BlobDownloadFailed string | InvalidScore | InvalidOperator
  | CollateralFailed | InvalidReport | InvalidSessionUpdate | UnknownTicket | MonitorEnded | EventsClosed

text \<open>What is written to the log as an error.\<close>

datatype bridge_log =
    UploadFailed bytes | DeployFailed bytes | AddressMismatch bytes bytes | RemoveFailed bytes
  | ResolveFailed u64 | TicketAddressMismatch u64 | Ignored string

record 'w BridgeState =
  bs_worker_pubkey :: bytes
  bs_worker :: 'w
  bs_downloader :: Downloader
  bs_planning_state :: PlanningState
  bs_chain_state :: ChainState
  bs_config :: BridgeConfig
  bs_last_metrics_report :: instant
  bs_init_score_reported :: bool
  bs_next_nonce :: "u64 option"
  bs_sent :: "(u64 \<times> bridge_tx) list"
  bs_log :: "bridge_log list"
  bs_calls :: nat

text \<open>
  The operations of a worker that the bridge calls.
\<close>

record 'w WorkerClient =
  wc_info :: "'w \<Rightarrow> (bytes \<times> WorkerInfo, rpc_failure) result \<times> 'w"
  wc_app_list :: "u32 \<Rightarrow> u32 \<Rightarrow> 'w \<Rightarrow> (AppInfo list, rpc_failure) result \<times> 'w"
  wc_blob_exists :: "string \<Rightarrow> 'w \<Rightarrow> (bool, rpc_failure) result \<times> 'w"
  wc_blob_put :: "string \<Rightarrow> bytes \<Rightarrow> 'w \<Rightarrow> (unit, rpc_failure) result \<times> 'w"
  wc_app_deploy :: "PbManifest option \<Rightarrow> bool \<Rightarrow> 'w \<Rightarrow> (bytes, rpc_failure) result \<times> 'w"
  wc_app_remove :: "bytes \<Rightarrow> 'w \<Rightarrow> (unit, rpc_failure) result \<times> 'w"
  wc_app_remove_all :: "'w \<Rightarrow> (unit, rpc_failure) result \<times> 'w"
  wc_worker_init :: "bytes \<Rightarrow> string \<Rightarrow> 'w \<Rightarrow> (InitResponse, rpc_failure) result \<times> 'w"
  wc_set_bench_app :: "bytes option \<Rightarrow> u64 \<Rightarrow> 'w \<Rightarrow> (unit, rpc_failure) result \<times> 'w"
  wc_app_metrics :: "bytes list \<Rightarrow> 'w \<Rightarrow> (AppsMetrics \<times> bytes, rpc_failure) result \<times> 'w"
  wc_app_query :: "QueryArgs \<Rightarrow> 'w \<Rightarrow> (bytes, rpc_failure) result \<times> 'w"
  wc_sign_register_info :: "bytes \<Rightarrow> bytes option \<Rightarrow> u32 \<Rightarrow> 'w \<Rightarrow>
    (WorkerRegistrationInfoV2 \<times> bytes option, rpc_failure) result \<times> 'w"

text \<open>The answers of the chain's node.\<close>

record ChainAnswers =
  ca_worker_known :: "bytes \<Rightarrow> (bool, string) result"
  ca_worker_session :: "bytes \<Rightarrow> ((bytes \<times> bytes) option, string) result"
  ca_computing :: "bytes \<Rightarrow> (bool, string) result"
  ca_ticket_balance :: "u64 \<Rightarrow> (u128, string) result"
  ca_paraid :: "(u32, string) result"
  ca_genesis_hash :: bytes
  ca_account_nonce :: "(u64, string) result"
  ca_mk_params :: "(unit, string) result"
  ca_sign :: "(unit, string) result"
  ca_submit :: "bridge_tx \<Rightarrow> u64 \<Rightarrow> (unit, string) result"
  ca_finalize :: "bridge_tx \<Rightarrow> u64 \<Rightarrow> (unit, string) result"

text \<open>
  Libraries: content identifiers, JSON, hashes, SCALE, the collateral service. The decoders of a report and of a session
  update get what the worker encoded.
\<close>

record BridgeLibs =
  bl_parse_cid :: "string \<Rightarrow> string option"
  bl_parse_manifest :: "bytes \<Rightarrow> AppManifest option"
  bl_encode_manifest :: "AppManifest \<Rightarrow> bytes"
  bl_blake2_256 :: "bytes \<Rightarrow> bytes"
  bl_decode_address :: "bytes \<Rightarrow> bytes option"
  bl_parse_score :: "bytes \<Rightarrow> u64 option"
  bl_decode_signed_score :: "bytes \<Rightarrow> bytes option"
  bl_parse_account :: "string \<Rightarrow> bytes option"
  bl_report :: "string \<Rightarrow> bytes option \<Rightarrow> bytes option"
  bl_u256 :: "bytes \<Rightarrow> 256 word"
  bl_decode_metrics :: "AppsMetrics \<Rightarrow> AppsMetrics option"
  bl_decode_session_update :: "SessionUpdate \<Rightarrow> SessionUpdate option"

record 'w BridgeEnv =
  be_client :: "nat \<Rightarrow> 'w WorkerClient"
  be_chain :: "nat \<Rightarrow> ChainAnswers"
  be_background :: "nat \<Rightarrow> Downloader \<Rightarrow> Downloader"
  be_read_error :: "nat \<Rightarrow> string option"
  be_time :: "nat \<Rightarrow> instant"
  be_dl :: DlConfig
  be_libs :: BridgeLibs

section \<open>Sequencing\<close>

type_synonym ('w, 'a) bridge_io = "'w BridgeState \<Rightarrow> ('a, bridge_error) result \<times> 'w BridgeState"

definition io_return :: "'a \<Rightarrow> ('w, 'a) bridge_io" where
  "io_return v s = (Ok v, s)"

definition io_bind :: "('w, 'a) bridge_io \<Rightarrow> ('a \<Rightarrow> ('w, 'b) bridge_io) \<Rightarrow> ('w, 'b) bridge_io" where
  "io_bind m f s = (case m s of (Ok v, s1) \<Rightarrow> f v s1 | (Err e, s1) \<Rightarrow> (Err e, s1))"

definition io_of :: "('a, bridge_error) result \<Rightarrow> ('w, 'a) bridge_io" where
  "io_of r s = (r, s)"

definition io_get :: "('w BridgeState \<Rightarrow> 'a) \<Rightarrow> ('w, 'a) bridge_io" where
  "io_get f s = (Ok (f s), s)"

definition io_update :: "('w BridgeState \<Rightarrow> 'w BridgeState) \<Rightarrow> ('w, unit) bridge_io" where
  "io_update f s = (Ok (), f s)"

definition log_error :: "bridge_log \<Rightarrow> ('w, unit) bridge_io" where
  "log_error l = io_update (\<lambda>s. s\<lparr>bs_log := bs_log s @ [l]\<rparr>)"

text \<open>The outcome of a call as a value.\<close>

definition io_try :: "('w, 'a) bridge_io \<Rightarrow> ('w, ('a, bridge_error) result) bridge_io" where
  "io_try m s = (let (r, s1) = m s in (Ok r, s1))"

definition ignore_error :: "string \<Rightarrow> ('w, 'a) bridge_io \<Rightarrow> ('w, unit) bridge_io" where
  "ignore_error what m =
     io_bind (io_try m) (\<lambda>r. case r of Ok _ \<Rightarrow> io_return () | Err _ \<Rightarrow> log_error (Ignored what))"

text \<open>
  While a call is awaited the downloader's tasks run.
\<close>

definition awaited :: "'w BridgeEnv \<Rightarrow> 'w BridgeState \<Rightarrow> 'w BridgeState" where
  "awaited env s = s\<lparr>bs_downloader := be_background env (bs_calls s) (bs_downloader s), bs_calls := Suc (bs_calls s)\<rparr>"

definition worker_call ::
  "'w BridgeEnv \<Rightarrow> ('w WorkerClient \<Rightarrow> 'w \<Rightarrow> ('a, rpc_failure) result \<times> 'w) \<Rightarrow> ('w, 'a) bridge_io" where
  "worker_call env f s =
     (let (r, w) = f (be_client env (bs_calls s)) (bs_worker s)
      in (map_err RpcFailed r, awaited env (s\<lparr>bs_worker := w\<rparr>)))"

definition chain_call ::
  "'w BridgeEnv \<Rightarrow> (ChainAnswers \<Rightarrow> ('a, string) result) \<Rightarrow> ('w, 'a) bridge_io" where
  "chain_call env f s = (map_err ChainFailed (f (be_chain env (bs_calls s))), awaited env s)"

definition ipfs_read :: "'w BridgeEnv \<Rightarrow> string \<Rightarrow> ('w, bytes option) bridge_io" where
  "ipfs_read env cid s =
     (map_err DownloaderFailed (dl_read (be_dl env) (be_read_error env (bs_calls s)) cid (bs_downloader s)),
      awaited env s)"

definition ipfs_download :: "'w BridgeEnv \<Rightarrow> string \<Rightarrow> bool \<Rightarrow> ('w, bool) bridge_io" where
  "ipfs_download env cid force s =
     (let (r, d) = download (be_dl env) cid force (bs_downloader s)
      in (map_err DownloaderFailed r, s\<lparr>bs_downloader := d\<rparr>))"

section \<open>Transactions\<close>

definition nonce_next :: "'w BridgeEnv \<Rightarrow> ('w, u64) bridge_io" where
  "nonce_next env =
     io_bind (io_get bs_next_nonce) (\<lambda>next_nonce.
     io_bind (case next_nonce of Some nonce \<Rightarrow> io_return nonce | None \<Rightarrow> chain_call env ca_account_nonce) (\<lambda>nonce.
     io_bind (io_update (\<lambda>s. s\<lparr>bs_next_nonce := Some (nonce + 1)\<rparr>)) (\<lambda>_.
     io_return nonce)))"

definition nonce_reset :: "('w, unit) bridge_io" where
  "nonce_reset = io_update (\<lambda>s. s\<lparr>bs_next_nonce := None\<rparr>)"

definition submit_tx :: "'w BridgeEnv \<Rightarrow> bridge_tx \<Rightarrow> bool \<Rightarrow> ('w, unit) bridge_io" where
  "submit_tx env tx wait_finalized =
     io_bind (chain_call env ca_mk_params) (\<lambda>_.
     io_bind (nonce_next env) (\<lambda>nonce.
     io_bind (chain_call env ca_sign) (\<lambda>_.
     io_bind (chain_call env (\<lambda>c. ca_submit c tx nonce)) (\<lambda>_.
     io_bind (io_update (\<lambda>s. s\<lparr>bs_sent := bs_sent s @ [(nonce, tx)]\<rparr>)) (\<lambda>_.
     if wait_finalized then chain_call env (\<lambda>c. ca_finalize c tx nonce) else io_return ())))))"

section \<open>Registration and session\<close>

definition register_with_client :: "'w BridgeEnv \<Rightarrow> string \<Rightarrow> string \<Rightarrow> ('w, unit) bridge_io" where
  "register_with_client env operator pccs_url =
     io_bind (chain_call env ca_paraid) (\<lambda>para_id.
     io_bind (io_get (\<lambda>s. ca_genesis_hash (be_chain env (bs_calls s)))) (\<lambda>genesis_block_hash.
     io_bind (if operator = [] then io_return None
              else io_of (map_ok Some (ok_or (bl_parse_account (be_libs env) operator) InvalidOperator))) (\<lambda>operator.
     io_bind (worker_call env (\<lambda>c. wc_sign_register_info c genesis_block_hash operator para_id)) (\<lambda>(info, attestation).
     io_bind (io_of (ok_or (bl_report (be_libs env) pccs_url attestation) CollateralFailed)) (\<lambda>report.
     io_bind (submit_tx env (RegisterWorker info report) True) (\<lambda>_.
     io_bind (worker_call env wc_info) (\<lambda>_. io_return ())))))))"

definition decode_pubkey :: "'w BridgeEnv \<Rightarrow> bytes \<Rightarrow> ('w, bytes) bridge_io" where
  "decode_pubkey env raw = io_of (ok_or (bl_decode_address (be_libs env) raw) InvalidPubkey)"

definition maybe_register_worker :: "'w BridgeEnv \<Rightarrow> ('w, unit) bridge_io" where
  "maybe_register_worker env =
     io_bind (worker_call env wc_info) (\<lambda>(raw, _).
     io_bind (decode_pubkey env raw) (\<lambda>pubkey.
     io_bind (chain_call env (\<lambda>c. ca_worker_known c pubkey)) (\<lambda>known.
     if known then io_return ()
     else io_bind (io_get bs_config) (\<lambda>config.
            register_with_client env (bc_operator config) (bc_pccs_url config)))))"

text \<open>
  The chain's record of the worker's session is its id and the last nonce. Decoding an update fails, apart from the codec,
  if its recipient exceeds the bound of its vector.
\<close>

definition decode_session_update :: "BridgeLibs \<Rightarrow> SessionUpdate \<Rightarrow> (SessionUpdate, bridge_error) result" where
  "decode_session_update L encoded =
     and_then (ok_or (bl_decode_session_update L encoded) InvalidSessionUpdate) (\<lambda>update.
       if length (inner (su_recipient update)) > 32 then Err InvalidSessionUpdate else Ok update)"

definition maybe_update_session :: "'w BridgeEnv \<Rightarrow> ('w, unit) bridge_io" where
  "maybe_update_session env =
     io_bind (worker_call env wc_info) (\<lambda>(raw, info).
     io_bind (decode_pubkey env raw) (\<lambda>pubkey.
     io_bind (chain_call env (\<lambda>c. ca_worker_session c pubkey)) (\<lambda>session.
     if Some (wi_session info) = map_option fst session then io_return ()
     else
       let pnonce = (case session of Some (_, last_nonce) \<Rightarrow> last_nonce | None \<Rightarrow> [])
       in io_bind (worker_call env wc_app_remove_all) (\<lambda>_.
          io_bind (io_get bs_config) (\<lambda>config.
          io_bind (worker_call env (\<lambda>c. wc_worker_init c pnonce (bc_recipient config))) (\<lambda>response.
          io_bind (io_of (decode_session_update (be_libs env) (ir_update response))) (\<lambda>update.
          submit_tx env (WorkerSessionUpdate update (ir_signature response) pubkey) True)))))))"

definition set_chain_state :: "ChainState \<Rightarrow> 'w BridgeState \<Rightarrow> 'w BridgeState" where
  "set_chain_state cs s = s\<lparr>bs_chain_state := cs, bs_planning_state := planning_default\<rparr>"

section \<open>Applying the plan\<close>

fun decode_apps ::
  "BridgeLibs \<Rightarrow> AppInfo list \<Rightarrow> ((bytes \<times> nat) list, bridge_error) result" where
  "decode_apps L [] = Ok []"
| "decode_apps L (app # rest) =
     (case bl_decode_address L (ai_address app) of
        None \<Rightarrow> Err InvalidAppAddress
      | Some address \<Rightarrow> map_ok (\<lambda>xs. (address, ai_running_instances app) # xs) (decode_apps L rest))"

text \<open>\<open>collect\<close> into a \<open>BTreeMap\<close> and into a \<open>BTreeSet\<close>.\<close>

definition btree_collect :: "('k::linorder \<times> 'v) list \<Rightarrow> ('k, 'v) btree" where
  "btree_collect xs = fold (\<lambda>(k, v). btree_insert k v) xs []"

definition bset_collect :: "'a::linorder list \<Rightarrow> 'a list" where
  "bset_collect xs = fold bset_insert xs []"

definition get_running_apps :: "'w BridgeEnv \<Rightarrow> ('w, (bytes, nat) btree) bridge_io" where
  "get_running_apps env =
     io_bind (worker_call env (\<lambda>c. wc_app_list c 0 (- 1))) (\<lambda>apps.
     io_of (map_ok btree_collect (decode_apps (be_libs env) apps)))"

fun ticket_blobs :: "(u64, Ticket) btree \<Rightarrow> u64 list \<Rightarrow> ((string \<times> string) list, bridge_error) result" where
  "ticket_blobs tickets [] = Ok []"
| "ticket_blobs tickets (i # rest) =
     (case map_of tickets i of
        None \<Rightarrow> Err UnknownTicket
      | Some ticket \<Rightarrow> map_ok (\<lambda>xs. required_blobs (tk_manifest ticket) @ xs) (ticket_blobs tickets rest))"

text \<open>
  Indexing the map of tickets panics when the key is missing; the model's error \<open>UnknownTicket\<close> is that panic.

  Uploading what an app needs: the value tells whether all of it is at the worker; an upload that fails
  skips the app, other failures end the plan.
\<close>

fun upload_blobs :: "'w BridgeEnv \<Rightarrow> bytes \<Rightarrow> (string \<times> string) list \<Rightarrow> ('w, bool) bridge_io" where
  "upload_blobs env address [] = io_return True"
| "upload_blobs env address ((hash_str, cid_str) # deps) =
     io_bind (worker_call env (\<lambda>c. wc_blob_exists c hash_str)) (\<lambda>uploaded.
     if uploaded then upload_blobs env address deps
     else
       io_bind (io_of (ok_or (bl_parse_cid (be_libs env) cid_str) InvalidBlobCid)) (\<lambda>cid.
       io_bind (ipfs_read env cid) (\<lambda>data.
       io_bind (io_of (ok_or data BlobMissing)) (\<lambda>blob.
       io_bind (io_try (worker_call env (\<lambda>c. wc_blob_put c hash_str blob))) (\<lambda>result.
       case result of
         Err _ \<Rightarrow> io_bind (log_error (UploadFailed address)) (\<lambda>_. io_return False)
       | Ok _ \<Rightarrow> upload_blobs env address deps)))))"

definition upload_and_deploy :: "'w BridgeEnv \<Rightarrow> bytes \<Rightarrow> PlanApp \<Rightarrow> (string \<times> string) list \<Rightarrow> ('w, unit) bridge_io" where
  "upload_and_deploy env address info deps =
     io_bind (upload_blobs env address deps) (\<lambda>uploaded.
     if \<not> uploaded then io_return ()
     else
       io_bind (io_get (\<lambda>s. bc_reuse_instances (bs_config s))) (\<lambda>reuse_instances.
       io_bind (io_try (worker_call env (\<lambda>c. wc_app_deploy c (Some (manifest_to_pb (pa_manifest info))) reuse_instances)))
         (\<lambda>result.
       case result of
         Ok got \<Rightarrow> if got \<noteq> address then log_error (AddressMismatch address got) else io_return ()
       | Err _ \<Rightarrow> log_error (DeployFailed address))))"

definition deploy_one :: "'w BridgeEnv \<Rightarrow> bytes \<Rightarrow> PlanApp \<Rightarrow> ('w, unit) bridge_io" where
  "deploy_one env address info =
     io_bind (io_get (\<lambda>s. ticket_blobs (ps_tickets (bs_planning_state s)) (pa_tickets info))) (\<lambda>blobs.
     io_bind (io_of blobs) (\<lambda>blobs. upload_and_deploy env address info (bset_collect blobs)))"

fun deploy_all :: "'w BridgeEnv \<Rightarrow> (bytes \<times> PlanApp) list \<Rightarrow> ('w, unit) bridge_io" where
  "deploy_all env [] = io_return ()"
| "deploy_all env ((address, info) # rest) =
     io_bind (deploy_one env address info) (\<lambda>_. deploy_all env rest)"

fun remove_all :: "'w BridgeEnv \<Rightarrow> bytes list \<Rightarrow> ('w, unit) bridge_io" where
  "remove_all env [] = io_return ()"
| "remove_all env (address # rest) =
     io_bind (io_try (worker_call env (\<lambda>c. wc_app_remove c address))) (\<lambda>result.
     io_bind (case result of Ok _ \<Rightarrow> io_return () | Err _ \<Rightarrow> log_error (RemoveFailed address)) (\<lambda>_.
     remove_all env rest))"

definition apply_plan :: "'w BridgeEnv \<Rightarrow> ('w, unit) bridge_io" where
  "apply_plan env =
     io_bind (worker_call env wc_info) (\<lambda>_.
     io_bind (get_running_apps env) (\<lambda>apps.
     io_bind (io_get (\<lambda>s. ps_selected_apps (bs_planning_state s))) (\<lambda>selected.
     let to_deploy = filter (\<lambda>(address, _). map_of apps address = None) selected;
         to_remove = map fst (filter (\<lambda>(address, _). map_of selected address = None) apps)
     in io_bind (deploy_all env to_deploy) (\<lambda>_. remove_all env to_remove))))"

section \<open>Planning\<close>

fun blobs_ready :: "'w BridgeEnv \<Rightarrow> (string \<times> string) list \<Rightarrow> ('w, bool) bridge_io" where
  "blobs_ready env [] = io_return True"
| "blobs_ready env ((_, cid_str) # rest) =
     io_bind (io_of (ok_or (bl_parse_cid (be_libs env) cid_str) InvalidBlobCid)) (\<lambda>cid.
     io_bind (io_get (\<lambda>s. map_of (ps_download_failures (bs_planning_state s)) cid_str)) (\<lambda>failure.
     case failure of
       Some err \<Rightarrow> io_of (Err (BlobDownloadFailed err))
     | None \<Rightarrow>
         io_bind (ipfs_download env cid False) (\<lambda>downloaded.
         if \<not> downloaded then io_return False else blobs_ready env rest)))"

definition try_resolve :: "'w BridgeEnv \<Rightarrow> TicketInfo \<Rightarrow> ('w, Ticket option) bridge_io" where
  "try_resolve env ticket_info =
     io_bind (io_of (ok_or (bl_parse_cid (be_libs env) (ti_manifest_cid ticket_info)) InvalidManifestCid)) (\<lambda>cid.
     io_bind (ipfs_read env cid) (\<lambda>data.
     case data of
       None \<Rightarrow>
         io_bind (io_get (\<lambda>s. map_of (ps_download_failures (bs_planning_state s)) (ti_manifest_cid ticket_info))) (\<lambda>failure.
         case failure of
           Some err \<Rightarrow> io_of (Err (ManifestDownloadFailed err))
         | None \<Rightarrow> io_bind (ipfs_download env cid False) (\<lambda>_. io_return None))
     | Some manifest_data \<Rightarrow>
         io_bind (io_of (ok_or (bl_parse_manifest (be_libs env) manifest_data) ManifestInvalid)) (\<lambda>m.
         io_bind (blobs_ready env (required_blobs m)) (\<lambda>ready.
         io_return (if ready then Some \<lparr> tk_info = ticket_info, tk_manifest = m \<rparr> else None)))))"

definition is_ticket_for_worker :: "bytes \<Rightarrow> ChainState \<Rightarrow> TicketInfo \<Rightarrow> bool" where
  "is_ticket_for_worker worker_pubkey cs info =
     (if Some (ti_address info) = cs_bench_app_address cs then True
      else case ti_workers info of
        AnyWorker \<Rightarrow> False
      | WorkerList list_id \<Rightarrow>
          (case map_of (cs_worker_list_workers cs) list_id of
             None \<Rightarrow> False
           | Some workers \<Rightarrow> worker_pubkey \<in> set workers))"

fun resolve_tickets :: "'w BridgeEnv \<Rightarrow> (u64 \<times> TicketInfo) list \<Rightarrow> ('w, unit) bridge_io" where
  "resolve_tickets env [] = io_return ()"
| "resolve_tickets env ((i, info) # rest) =
     io_bind (io_get (\<lambda>s. map_of (ps_tickets (bs_planning_state s)) i \<noteq> None \<or>
                          \<not> is_ticket_for_worker (bs_worker_pubkey s) (bs_chain_state s) info)) (\<lambda>skip.
     if skip then resolve_tickets env rest
     else
       io_bind (io_try (try_resolve env info)) (\<lambda>resolved.
       io_bind
         (case resolved of
            Err _ \<Rightarrow> log_error (ResolveFailed i)
          | Ok None \<Rightarrow> io_return ()
          | Ok (Some ticket) \<Rightarrow>
              io_update (\<lambda>s. s\<lparr>bs_planning_state := (bs_planning_state s)\<lparr>ps_tickets :=
                btree_insert i ticket (ps_tickets (bs_planning_state s))\<rparr>\<rparr>))
         (\<lambda>_. resolve_tickets env rest)))"

definition try_resolve_deps :: "'w BridgeEnv \<Rightarrow> ('w, unit) bridge_io" where
  "try_resolve_deps env = io_bind (io_get (\<lambda>s. cs_tickets (bs_chain_state s))) (resolve_tickets env)"

definition maybe_sync_bench_app :: "'w BridgeEnv \<Rightarrow> ('w, unit) bridge_io" where
  "maybe_sync_bench_app env =
     io_bind (io_get (\<lambda>s. ps_bench_app (bs_planning_state s))) (\<lambda>bench.
     let (address, n) = (case bench of Some (a, k) \<Rightarrow> (Some a, k) | None \<Rightarrow> (None, 0))
     in worker_call env (\<lambda>c. wc_set_bench_app c address n))"

definition app_address :: "BridgeLibs \<Rightarrow> AppManifest \<Rightarrow> bytes" where
  "app_address L m = manifest_address (bl_encode_manifest L) (bl_blake2_256 L) m"

definition ticket_balance :: "'w BridgeEnv \<Rightarrow> u64 \<Rightarrow> ('w, u128) bridge_io" where
  "ticket_balance env i =
     io_bind (io_get (\<lambda>s. map_of (ps_ticket_balances (bs_planning_state s)) i)) (\<lambda>cached.
     case cached of
       Some b \<Rightarrow> io_return b
     | None \<Rightarrow>
         io_bind (chain_call env (\<lambda>c. ca_ticket_balance c i)) (\<lambda>balance.
         io_bind (io_update (\<lambda>s. s\<lparr>bs_planning_state := (bs_planning_state s)\<lparr>ps_ticket_balances :=
             btree_insert i balance (ps_ticket_balances (bs_planning_state s))\<rparr>\<rparr>)) (\<lambda>_.
         io_return balance)))"

definition add_ticket :: "bytes \<Rightarrow> u64 \<Rightarrow> AppManifest \<Rightarrow> u128 \<Rightarrow> (bytes, PlanApp) btree \<Rightarrow> (bytes, PlanApp) btree" where
  "add_ticket address i m balance all_apps =
     (let app_info = (case map_of all_apps address of
            Some info \<Rightarrow> info
          | None \<Rightarrow> \<lparr> pa_manifest = m, pa_tickets = [], pa_balance = 0 \<rparr>)
      in btree_insert address
           (app_info\<lparr>pa_tickets := bset_insert i (pa_tickets app_info), pa_balance := pa_balance app_info + balance\<rparr>)
           all_apps)"

fun collect_apps ::
  "'w BridgeEnv \<Rightarrow> (u64 \<times> Ticket) list \<Rightarrow> (bytes, PlanApp) btree \<Rightarrow> ('w, (bytes, PlanApp) btree) bridge_io" where
  "collect_apps env [] all_apps = io_return all_apps"
| "collect_apps env ((i, ticket) # rest) all_apps =
     (let address = app_address (be_libs env) (tk_manifest ticket)
      in if ti_address (tk_info ticket) \<noteq> address
         then io_bind (log_error (TicketAddressMismatch i)) (\<lambda>_. collect_apps env rest all_apps)
         else io_bind (ticket_balance env i) (\<lambda>balance.
                collect_apps env rest (add_ticket address i (tk_manifest ticket) balance all_apps)))"

text \<open>
  The stable sort by balance in descending order, and the apps taken from its front.
\<close>

definition sort_by_balance :: "(bytes \<times> PlanApp) list \<Rightarrow> (bytes \<times> PlanApp) list" where
  "sort_by_balance xs = sort_key (\<lambda>(_, info). 2 ^ 128 - unat (pa_balance info)) xs"

definition select_apps :: "nat \<Rightarrow> (bytes, PlanApp) btree \<Rightarrow> (bytes, PlanApp) btree" where
  "select_apps max_apps all_apps = btree_collect (take max_apps (sort_by_balance all_apps))"

definition update_plan :: "'w BridgeEnv \<Rightarrow> ('w, unit) bridge_io" where
  "update_plan env =
     io_bind (try_resolve_deps env) (\<lambda>_.
     io_bind (worker_call env wc_info) (\<lambda>(_, winfo).
     io_bind (io_get (\<lambda>s. ps_tickets (bs_planning_state s))) (\<lambda>tickets.
     io_bind (collect_apps env tickets []) (\<lambda>all_apps.
     io_bind (io_update (\<lambda>s. s\<lparr>bs_planning_state := (bs_planning_state s)\<lparr>
         ps_all_apps := all_apps,
         ps_selected_apps := select_apps (bc_max_apps (bs_config s)) all_apps,
         ps_bench_app := map_option (\<lambda>address. (address, wi_max_instances winfo))
           (cs_bench_app_address (bs_chain_state s))\<rparr>\<rparr>)) (\<lambda>_.
     apply_plan env)))))"

section \<open>Reports\<close>

definition MAX_APPS_METRICS :: nat where
  "MAX_APPS_METRICS = 64"

definition MAX_CLAIM_TICKETS :: nat where
  "MAX_CLAIM_TICKETS = 3"

text \<open>Decoding a report fails, apart from the codec, if it has more apps than the bound of its vector.\<close>

definition decode_metrics :: "BridgeLibs \<Rightarrow> AppsMetrics \<Rightarrow> (AppsMetrics, bridge_error) result" where
  "decode_metrics L encoded =
     and_then (ok_or (bl_decode_metrics L encoded) InvalidReport) (\<lambda>metrics.
       if length (ams_apps metrics) > MAX_APPS_METRICS then Err InvalidReport else Ok metrics)"

definition claim_map :: "(bytes, PlanApp) btree \<Rightarrow> AppMetrics list \<Rightarrow> (bytes \<times> u64 list) list" where
  "claim_map all_apps metrics =
     List.map_filter (\<lambda>m. map_option (\<lambda>info. (am_address m, take MAX_CLAIM_TICKETS (pa_tickets info)))
       (map_of all_apps (am_address m))) (take MAX_APPS_METRICS metrics)"

definition maybe_report_app_metrics :: "'w BridgeEnv \<Rightarrow> ('w, unit) bridge_io" where
  "maybe_report_app_metrics env =
     io_bind (io_get (\<lambda>s. elapsed (be_time env (bs_calls s)) (bs_last_metrics_report s) < bc_metrics_interval (bs_config s)))
       (\<lambda>early.
     if early then io_return ()
     else
       io_bind (io_update (\<lambda>s. s\<lparr>bs_last_metrics_report := be_time env (bs_calls s)\<rparr>)) (\<lambda>_.
       io_bind (worker_call env (\<lambda>c. wc_app_metrics c [])) (\<lambda>(encoded, sig).
       io_bind (io_of (decode_metrics (be_libs env) encoded)) (\<lambda>metrics.
       io_bind (io_get (\<lambda>s. claim_map (ps_all_apps (bs_planning_state s)) (ams_apps metrics))) (\<lambda>claims.
       if claims = [] then io_return ()
       else io_bind (io_get bs_worker_pubkey) (\<lambda>pubkey.
              submit_tx env (TicketSettle metrics sig pubkey claims) False))))))"

definition query_args :: "bytes \<Rightarrow> string \<Rightarrow> QueryArgs" where
  "query_args address path =
     \<lparr> qa_address = address, qa_path = path, qa_payload = [], qa_encoded_signature = [] \<rparr>"

definition do_report_bench_score :: "'w BridgeEnv \<Rightarrow> bool \<Rightarrow> ('w, unit) bridge_io" where
  "do_report_bench_score env is_init =
     io_bind (io_get (\<lambda>s. ps_bench_app (bs_planning_state s))) (\<lambda>bench.
     case bench of
       None \<Rightarrow> io_return ()
     | Some (address, _) \<Rightarrow>
         io_bind (worker_call env (\<lambda>c. wc_app_query c (query_args address ''/signedScore''))) (\<lambda>signed_score.
         io_bind (io_of (ok_or (bl_decode_signed_score (be_libs env) signed_score) InvalidScore)) (\<lambda>score.
         io_bind (submit_tx env (BenchmarkScoreSubmit is_init score) False) (\<lambda>_.
         io_update (\<lambda>s. s\<lparr>bs_init_score_reported := True\<rparr>)))))"

definition maybe_report_init_score :: "'w BridgeEnv \<Rightarrow> ('w, unit) bridge_io" where
  "maybe_report_init_score env =
     io_bind (io_get bs_init_score_reported) (\<lambda>reported.
     if reported then io_return ()
     else
       io_bind (io_get (\<lambda>s. ps_bench_app (bs_planning_state s))) (\<lambda>bench.
       case bench of
         None \<Rightarrow> io_return ()
       | Some (address, _) \<Rightarrow>
           io_bind (worker_call env (\<lambda>c. wc_app_query c (query_args address ''/score''))) (\<lambda>encoded_score.
           io_bind (io_of (ok_or (bl_parse_score (be_libs env) encoded_score) InvalidScore)) (\<lambda>gas_consumed.
           io_bind (io_get (\<lambda>s. bc_gas_until_report (bs_config s))) (\<lambda>gas_until_report.
           if gas_consumed < gas_until_report then io_return ()
           else do_report_bench_score env True)))))"

definition is_challenging_the_worker :: "BridgeLibs \<Rightarrow> HeartbeatChallenge \<Rightarrow> bytes \<Rightarrow> bool" where
  "is_challenging_the_worker L heartbeat worker_pubkey =
     (let pkh = bl_blake2_256 L worker_pubkey;
          hashed_id = bl_u256 L pkh;
          seed = hb_seed heartbeat;
          online_target = hb_online_target heartbeat;
          x = hashed_id XOR seed
      in x \<le> online_target)"

definition maybe_report_bench_score :: "'w BridgeEnv \<Rightarrow> ('w, unit) bridge_io" where
  "maybe_report_bench_score env =
     io_bind (io_get (\<lambda>s. (cs_heartbeat_challenge (bs_chain_state s), bs_worker_pubkey s))) (\<lambda>(challenge, pubkey).
     case challenge of
       None \<Rightarrow> io_return ()
     | Some challenge \<Rightarrow>
         if \<not> is_challenging_the_worker (be_libs env) challenge pubkey then io_return ()
         else
           io_bind (chain_call env (\<lambda>c. ca_computing c pubkey)) (\<lambda>working.
           if \<not> working then io_return () else do_report_bench_score env False))"

section \<open>The loop\<close>

datatype bridge_event =
    MonitorReturned
  | ChainStateReceived "ChainState option"
  | DownloaderEvent "(DlEvent, unit) result"

text \<open>
  One round: what one of the three sources delivers, then the plan. The value tells whether the rest of the
  round was skipped.
\<close>

definition handle_event :: "'w BridgeEnv \<Rightarrow> bridge_event \<Rightarrow> ('w, bool) bridge_io" where
  "handle_event env event =
     (case event of
        MonitorReturned \<Rightarrow> io_return False
      | ChainStateReceived state \<Rightarrow>
          io_bind (ignore_error ''failed to report bench score'' (maybe_report_bench_score env)) (\<lambda>_.
          io_bind (ignore_error ''failed to report init score'' (maybe_report_init_score env)) (\<lambda>_.
          io_bind (ignore_error ''failed to report app metrics'' (maybe_report_app_metrics env)) (\<lambda>_.
          io_bind (io_of (ok_or state MonitorEnded)) (\<lambda>cs.
          io_bind (io_update (set_chain_state cs)) (\<lambda>_. io_return False)))))
      | DownloaderEvent (Err _) \<Rightarrow> io_of (Err EventsClosed)
      | DownloaderEvent (Ok (Downloaded _)) \<Rightarrow> io_return False
      | DownloaderEvent (Ok (DownloadFailure cid error)) \<Rightarrow>
          io_bind (io_update (\<lambda>s. s\<lparr>bs_planning_state := (bs_planning_state s)\<lparr>ps_download_failures :=
              btree_insert cid error (ps_download_failures (bs_planning_state s))\<rparr>\<rparr>)) (\<lambda>_.
          io_return True))"

definition bridge_round :: "'w BridgeEnv \<Rightarrow> bridge_event \<Rightarrow> ('w, unit) bridge_io" where
  "bridge_round env event =
     io_bind nonce_reset (\<lambda>_.
     io_bind (handle_event env event) (\<lambda>skip.
     if skip then io_return ()
     else
       io_bind (ignore_error ''failed to update plan'' (update_plan env)) (\<lambda>_.
       ignore_error ''failed to sync bench app'' (maybe_sync_bench_app env))))"

fun bridge_rounds :: "'w BridgeEnv \<Rightarrow> bridge_event list \<Rightarrow> ('w, unit) bridge_io" where
  "bridge_rounds env [] = io_return ()"
| "bridge_rounds env (event # events) = io_bind (bridge_round env event) (\<lambda>_. bridge_rounds env events)"

definition bridge :: "'w BridgeEnv \<Rightarrow> bridge_event list \<Rightarrow> ('w, unit) bridge_io" where
  "bridge env events =
     io_bind (maybe_register_worker env) (\<lambda>_.
     io_bind (maybe_update_session env) (\<lambda>_. bridge_rounds env events))"

definition bridge_create ::
  "'w BridgeEnv \<Rightarrow> BridgeConfig \<Rightarrow> Downloader \<Rightarrow> 'w \<Rightarrow> ('w BridgeState, bridge_error) result" where
  "bridge_create env cfg dl w =
     (let (r, w1) = wc_info (be_client env 0) w
      in and_then (map_err RpcFailed r) (\<lambda>(raw, _).
           map_ok (\<lambda>pubkey.
             \<lparr> bs_worker_pubkey = pubkey, bs_worker = w1, bs_downloader = be_background env 0 dl,
               bs_planning_state = planning_default, bs_chain_state = chain_state_default, bs_config = cfg,
               bs_last_metrics_report = be_time env 0, bs_init_score_reported = False, bs_next_nonce = None,
               bs_sent = [], bs_log = [], bs_calls = 1 \<rparr>)
           (ok_or (bl_decode_address (be_libs env) raw) InvalidPubkey)))"

section \<open>The client\<close>

text \<open>
  One request of the client over HTTP: \<open>send\<close> posts a body with an optional bearer token to a URL and gives the
  status and the body that could be read, or nothing if sending failed.
\<close>

datatype client_error = RpcError | ServerReplied string

definition client_request ::
  "(string \<Rightarrow> string option \<Rightarrow> bytes \<Rightarrow> (http_status \<times> bytes option) option) \<Rightarrow> (bytes \<Rightarrow> string option) \<Rightarrow>
   string \<Rightarrow> string \<Rightarrow> string \<Rightarrow> bytes \<Rightarrow> (bytes, client_error) result" where
  "client_request send decode_error base_url token path body =
     (let url = trim_end_slash base_url @ ''/prpc/'' @ path;
          auth = (if token = [] then None else Some token)
      in case send url auth body of
           None \<Rightarrow> Err RpcError
         | Some (status, answer) \<Rightarrow>
             if \<not> (200 \<le> status \<and> status < 300)
             then (if status = 400
                   then (case answer of
                           None \<Rightarrow> Err RpcError
                         | Some data \<Rightarrow> (case decode_error data of None \<Rightarrow> Err RpcError | Some e \<Rightarrow> Err (ServerReplied e)))
                   else Err RpcError)
             else ok_or answer RpcError)"

text \<open>
  The worker behind the client: its state and its blob store. A connection tells what the network does with one
  call: the request or the response may be lost. The encoders of arguments are generated.
\<close>

datatype net_outcome = Delivered | RequestLost | ResponseLost

record RpcConn =
  rc_env :: RpcEnv
  rc_net :: net_outcome
  rc_blobs :: BlobLibs
  rc_fails :: "fs_step \<Rightarrow> bool"
  rc_uuid :: string
  rc_enc_opt_address :: "bytes option \<Rightarrow> bytes"

definition over_net ::
  "net_outcome \<Rightarrow> ('w \<Rightarrow> ('a, rpc_error) result \<times> 'w) \<Rightarrow> 'w \<Rightarrow> ('a, rpc_failure) result \<times> 'w" where
  "over_net net f w =
     (case net of
        RequestLost \<Rightarrow> (Err TransportError, w)
      | ResponseLost \<Rightarrow> (Err TransportError, snd (f w))
      | Delivered \<Rightarrow> (map_err ServerError (fst (f w)), snd (f w)))"

definition on_worker ::
  "(WorkerState \<Rightarrow> ('a, rpc_error) result \<times> WorkerState) \<Rightarrow> WorkerState \<times> Store \<Rightarrow>
   ('a, rpc_error) result \<times> (WorkerState \<times> Store)" where
  "on_worker f w = (let (r, w1) = f (fst w) in (r, (w1, snd w)))"

definition rpc_client :: "RpcConn \<Rightarrow> (WorkerState \<times> Store) WorkerClient" where
  "rpc_client c =
     (let env = rc_env c
      in \<lparr> wc_info = over_net (rc_net c) (\<lambda>w. (Ok (pair_public (keylibs env) (worker_key env), worker_info (fst w)), w)),
           wc_app_list = (\<lambda>start cnt. over_net (rc_net c) (\<lambda>w. (Ok (rpc_app_list env start cnt (fst w)), w))),
           wc_blob_exists = (\<lambda>h. over_net (rc_net c) (\<lambda>w. (rpc_blob_exists (rc_blobs c) h (snd w), w))),
           wc_blob_put = (\<lambda>h d. over_net (rc_net c) (\<lambda>w.
             let (r, st) = rpc_blob_put (rc_blobs c) (rc_fails c) (rc_uuid c) h d (snd w)
             in (map_ok (\<lambda>_. ()) r, (fst w, st)))),
           wc_app_deploy = (\<lambda>m reuse. over_net (rc_net c) (on_worker (\<lambda>w.
             let (r, w1) = rpc_app_deploy env m reuse w in (map_ok fst r, w1)))),
           wc_app_remove = (\<lambda>a. over_net (rc_net c) (on_worker (rpc_app_remove env a))),
           wc_app_remove_all = over_net (rc_net c) (on_worker (\<lambda>w. (Ok (), rpc_app_remove_all w))),
           wc_worker_init = (\<lambda>pnonce recipient. over_net (rc_net c) (on_worker (rpc_worker_init env pnonce recipient))),
           wc_set_bench_app = (\<lambda>a n. over_net (rc_net c) (on_worker (rpc_set_bench_app env (rc_enc_opt_address c a) n))),
           wc_app_metrics = (\<lambda>as. over_net (rc_net c) (on_worker (rpc_app_metrics env as))),
           wc_app_query = (\<lambda>q. over_net (rc_net c) (on_worker (rpc_app_query env q))),
           wc_sign_register_info = (\<lambda>genesis operator para_id. over_net (rc_net c) (\<lambda>w.
             (rpc_sign_register_info env genesis (rc_enc_opt_address c operator) para_id, w))) \<rparr>)"

end
