(* ===== verification/Bridge_Properties.thy ===== *)
theory Bridge_Properties
  imports Bridge
begin

text \<open>
  What the bridge promises. The first part is a small calculus for the bridge's sequenced operations; then the
  choice of apps, the invariant of the plan, and the effect of a plan on a worker, which is proved once
  for every worker that keeps the contract \<open>worker_api\<close> and then used for the model of the RPC services.
\<close>

section \<open>Sequenced operations\<close>

lemma io_simps [simp]:
  "io_return v s = (Ok v, s)" "io_of r s = (r, s)" "io_get f s = (Ok (f s), s)" "io_update g s = (Ok (), g s)"
  "log_error l s = (Ok (), s\<lparr>bs_log := bs_log s @ [l]\<rparr>)"
  by (simp_all add: io_return_def io_of_def io_get_def io_update_def log_error_def)

lemma io_bind_eq: "m s = (Ok v, s1) \<Longrightarrow> io_bind m f s = f v s1" "m s = (Err e, s1) \<Longrightarrow> io_bind m f s = (Err e, s1)"
  by (simp_all add: io_bind_def)

lemma io_bind_simps [simp]:
  "io_bind (io_return v) f = f v" "io_bind (io_get g) f' s = f' (g s) s" "io_bind (io_update h) f'' s = f'' () (h s)"
  "io_bind (log_error l) f'' s = f'' () (s\<lparr>bs_log := bs_log s @ [l]\<rparr>)"
  by (simp_all add: io_bind_def fun_eq_iff)

lemma io_bind_of: "io_bind (io_of r) f s = (case r of Ok v \<Rightarrow> f v s | Err e \<Rightarrow> (Err e, s))"
  by (simp add: io_bind_def split: result.split)

lemma io_bind_OkD: "io_bind m f s = (Ok v, s') \<Longrightarrow> \<exists>u s1. m s = (Ok u, s1) \<and> f u s1 = (Ok v, s')"
  by (auto simp: io_bind_def split: prod.splits result.splits)

lemma io_try_eq: "io_try m s = (Ok (fst (m s)), snd (m s))"
  by (simp add: io_try_def split: prod.split)

text \<open>
  \<open>io_inv P m\<close>: the operation keeps \<open>P\<close>, whether it succeeds or fails. \<open>io_post P m Q\<close>: from a state with
  \<open>P\<close>, a success ends in \<open>Q\<close>.
\<close>

definition io_inv :: "('w BridgeState \<Rightarrow> bool) \<Rightarrow> ('w, 'a) bridge_io \<Rightarrow> bool" where
  "io_inv P m \<longleftrightarrow> (\<forall>s. P s \<longrightarrow> P (snd (m s)))"

definition io_post :: "('w BridgeState \<Rightarrow> bool) \<Rightarrow> ('w, 'a) bridge_io \<Rightarrow> ('a \<Rightarrow> 'w BridgeState \<Rightarrow> bool) \<Rightarrow> bool" where
  "io_post P m Q \<longleftrightarrow> (\<forall>s v s'. P s \<longrightarrow> m s = (Ok v, s') \<longrightarrow> Q v s')"

named_theorems io_inv_rules \<open>operations that keep an invariant of the bridge\<close>

lemma io_invI: "(\<And>s. P s \<Longrightarrow> P (snd (m s))) \<Longrightarrow> io_inv P m"
  by (simp add: io_inv_def)

lemma io_invD: "io_inv P m \<Longrightarrow> P s \<Longrightarrow> m s = (r, s') \<Longrightarrow> P s'"
  unfolding io_inv_def by (metis snd_conv)

lemma io_inv_bind [io_inv_rules]: "io_inv P m \<Longrightarrow> (\<And>v. io_inv P (f v)) \<Longrightarrow> io_inv P (io_bind m f)"
  unfolding io_inv_def io_bind_def by (auto split: prod.splits result.splits)

lemma io_inv_pure [io_inv_rules]: "io_inv P (io_return v)" "io_inv P (io_of r)" "io_inv P (io_get g)" "io_inv P (Pair r)"
  by (simp_all add: io_inv_def)

lemma io_inv_try [io_inv_rules]: "io_inv P m \<Longrightarrow> io_inv P (io_try m)"
  by (simp add: io_inv_def io_try_eq)

lemma io_inv_ignore [io_inv_rules]:
  "io_inv P m \<Longrightarrow> (\<And>l. io_inv P (log_error l)) \<Longrightarrow> io_inv P (ignore_error what m)"
  unfolding ignore_error_def by (intro io_inv_bind io_inv_try) (auto split: result.split intro: io_inv_pure)

lemma io_postI: "(\<And>s v s'. P s \<Longrightarrow> m s = (Ok v, s') \<Longrightarrow> Q v s') \<Longrightarrow> io_post P m Q"
  by (simp add: io_post_def)

lemma io_postD: "io_post P m Q \<Longrightarrow> P s \<Longrightarrow> m s = (Ok v, s') \<Longrightarrow> Q v s'"
  by (simp add: io_post_def)

lemma io_post_bind: "io_post P m R \<Longrightarrow> (\<And>v. io_post (R v) (f v) Q) \<Longrightarrow> io_post P (io_bind m f) Q"
  unfolding io_post_def by (meson io_bind_OkD)

lemma io_post_of_inv: "io_inv P m \<Longrightarrow> io_post P m (\<lambda>_. P)"
  unfolding io_inv_def io_post_def by (metis snd_conv)

lemma io_inv_bind_get: "(\<And>s. P s \<Longrightarrow> io_inv P (f (g s))) \<Longrightarrow> io_inv P (io_bind (io_get g) f)"
  by (simp add: io_inv_def)

lemma io_inv_bind_post:
  assumes "io_inv P m" "io_post P m (\<lambda>v _. R v)" "\<And>v. R v \<Longrightarrow> io_inv P (f v)"
  shows "io_inv P (io_bind m f)"
proof (rule io_invI)
  fix s assume "P s"
  obtain r s1 where m: "m s = (r, s1)" by force
  have "P s1" using io_invD [OF assms(1) \<open>P s\<close> m] .
  moreover have "R v" if "r = Ok v" for v using io_postD [OF assms(2) \<open>P s\<close>] m that by simp
  ultimately show "P (snd (io_bind m f s))"
    using assms(3) by (cases r) (auto simp: io_bind_def m io_inv_def)
qed

text \<open>
  Predicates that are kept by what happens while a call is awaited and by requests to the downloader, and do not depend
  on the cached balances or on the log growing. The calls to the chain, the downloads and the collection of apps
  keep every such predicate. A predicate that does not depend on the downloader at all is calm.
\<close>

definition steady :: "'w BridgeEnv \<Rightarrow> ('w BridgeState \<Rightarrow> bool) \<Rightarrow> bool" where
  "steady env P \<longleftrightarrow>
     (\<forall>s. P s \<longrightarrow> P (awaited env s)) \<and>
     (\<forall>s cid force. P s \<longrightarrow> P (s\<lparr>bs_downloader := snd (download (be_dl env) cid force (bs_downloader s))\<rparr>)) \<and>
     (\<forall>s l. P s \<longrightarrow> P (s\<lparr>bs_log := bs_log s @ l\<rparr>)) \<and>
     (\<forall>s b. P s \<longrightarrow> P (s\<lparr>bs_planning_state := (bs_planning_state s)\<lparr>ps_ticket_balances := b\<rparr>\<rparr>))"

definition calm :: "('w BridgeState \<Rightarrow> bool) \<Rightarrow> bool" where
  "calm P \<longleftrightarrow>
     (\<forall>s d n. P s \<longrightarrow> P (s\<lparr>bs_downloader := d, bs_calls := n\<rparr>)) \<and>
     (\<forall>s l. P s \<longrightarrow> P (s\<lparr>bs_log := bs_log s @ l\<rparr>)) \<and>
     (\<forall>s b. P s \<longrightarrow> P (s\<lparr>bs_planning_state := (bs_planning_state s)\<lparr>ps_ticket_balances := b\<rparr>\<rparr>))"

lemma calm_downloader: "calm P \<Longrightarrow> P s \<Longrightarrow> P (s\<lparr>bs_downloader := d\<rparr>)"
  unfolding calm_def by (metis (no_types, lifting) BridgeState.surjective BridgeState.update_convs(12))

lemma calm_steady: "calm P \<Longrightarrow> steady env P"
  using calm_downloader by (auto simp: calm_def steady_def awaited_def)

lemma steadyD:
  assumes "steady env P" "P s"
  shows "P (awaited env s)" "P (s\<lparr>bs_downloader := snd (download (be_dl env) cid force (bs_downloader s))\<rparr>)"
    "P (s\<lparr>bs_log := bs_log s @ l\<rparr>)" "P (s\<lparr>bs_planning_state := (bs_planning_state s)\<lparr>ps_ticket_balances := b\<rparr>\<rparr>)"
  using assms by (simp_all add: steady_def)

lemmas calmD = steadyD [OF calm_steady]

lemma steady_io [io_inv_rules]:
  assumes "steady env P"
  shows "io_inv P (chain_call env g)" "io_inv P (ipfs_read env cid)" "io_inv P (ipfs_download env cid force)"
  using steadyD [OF assms] by (auto simp: io_inv_def chain_call_def ipfs_read_def ipfs_download_def case_prod_beta)

lemma steady_log: "steady env P \<Longrightarrow> io_inv P (log_error l)"
  using steadyD(3) [where l = "[l]"] by (auto simp: io_inv_def)

lemmas calm_io = steady_io [OF calm_steady] steady_log [OF calm_steady]

lemmas calm_awaited = steadyD(1) [OF calm_steady]

lemma io_inv_worker:
  assumes "steady env P" "\<And>s w. P s \<Longrightarrow> P (s\<lparr>bs_worker := w\<rparr>)"
  shows "io_inv P (worker_call env f)"
  using steadyD(1) [OF assms(1) assms(2)] by (auto simp: io_inv_def worker_call_def split: prod.split)

lemma io_inv_ticket_balance [io_inv_rules]: "steady env P \<Longrightarrow> io_inv P (ticket_balance env i)"
  unfolding ticket_balance_def
  by (rule io_inv_bind, rule io_inv_pure)
    (auto split: option.split intro!: io_inv_rules simp: io_inv_def [of _ "io_update _"] steadyD)

lemma io_inv_collect [io_inv_rules]: "steady env P \<Longrightarrow> io_inv P (collect_apps env ts all_apps)"
  by (induction ts arbitrary: all_apps) (auto simp: Let_def intro!: io_inv_rules steady_log [where env = env])

lemma io_inv_blobs_ready [io_inv_rules]: "steady env P \<Longrightarrow> io_inv P (blobs_ready env bs)"
  by (induction bs) (auto intro!: io_inv_rules split: option.split)

lemma io_inv_try_resolve [io_inv_rules]: "steady env P \<Longrightarrow> io_inv P (try_resolve env info)"
  unfolding try_resolve_def by (auto intro!: io_inv_rules split: option.split)

text \<open>
  What the downloader may give for a content is described by a relation \<open>served\<close>. A ticket that is resolved has the
  chain's information on it and a manifest that was parsed from what the downloader gave for the content it names.
\<close>

definition offers :: "DlConfig \<Rightarrow> (string \<Rightarrow> bytes \<Rightarrow> bool) \<Rightarrow> Downloader \<Rightarrow> bool" where
  "offers cfg served d \<longleftrightarrow> (\<forall>e cid data. dl_read cfg e cid d = Ok (Some data) \<longrightarrow> served cid data)"

definition resolved_as :: "BridgeLibs \<Rightarrow> (string \<Rightarrow> bytes \<Rightarrow> bool) \<Rightarrow> TicketInfo \<Rightarrow> AppManifest \<Rightarrow> bool" where
  "resolved_as L served info m \<longleftrightarrow>
     (\<exists>cid data. bl_parse_cid L (ti_manifest_cid info) = Some cid \<and> served cid data \<and> bl_parse_manifest L data = Some m)"

lemma offers_download: "offers cfg served d \<Longrightarrow> offers cfg served (snd (download cfg' cid force d))"
  by (auto simp: offers_def dl_read_def download_def)

lemma offers_any [simp]: "offers cfg (\<lambda>_ _. True) d"
  by (simp add: offers_def)

lemma ipfs_read_served:
  "offers (be_dl env) served (bs_downloader s) \<Longrightarrow> ipfs_read env cid s = (Ok (Some data), s') \<Longrightarrow> served cid data"
  by (auto simp: ipfs_read_def offers_def map_err_def split: result.splits)

lemma try_resolve_info:
  assumes "\<And>s. P s \<Longrightarrow> offers (be_dl env) served (bs_downloader s)"
  shows "io_post P (try_resolve env info)
    (\<lambda>t _. \<forall>ticket. t = Some ticket \<longrightarrow> tk_info ticket = info \<and> resolved_as (be_libs env) served info (tk_manifest ticket))"
proof (rule io_postI, intro allI impI)
  fix s v s' ticket assume P: "P s" and m: "try_resolve env info s = (Ok v, s')" and v: "v = Some ticket"
  from m obtain cid s1 where cid: "bl_parse_cid (be_libs env) (ti_manifest_cid info) = Some cid"
    and rest: "io_bind (ipfs_read env cid) (\<lambda>data.
     case data of
       None \<Rightarrow>
         io_bind (io_get (\<lambda>s. map_of (ps_download_failures (bs_planning_state s)) (ti_manifest_cid info))) (\<lambda>failure.
         case failure of
           Some err \<Rightarrow> io_of (Err (ManifestDownloadFailed err))
         | None \<Rightarrow> io_bind (ipfs_download env cid False) (\<lambda>_. io_return None))
     | Some manifest_data \<Rightarrow>
         io_bind (io_of (ok_or (bl_parse_manifest (be_libs env) manifest_data) ManifestInvalid)) (\<lambda>m.
         io_bind (blobs_ready env (required_blobs m)) (\<lambda>ready.
         io_return (if ready then Some \<lparr> tk_info = info, tk_manifest = m \<rparr> else None)))) s = (Ok v, s')"
    unfolding try_resolve_def by (auto simp: io_bind_of ok_or_def split: option.splits)
  from io_bind_OkD [OF rest] obtain data s2 where data: "ipfs_read env cid s = (Ok data, s2)"
    and k: "(case data of
       None \<Rightarrow>
         io_bind (io_get (\<lambda>s. map_of (ps_download_failures (bs_planning_state s)) (ti_manifest_cid info))) (\<lambda>failure.
         case failure of
           Some err \<Rightarrow> io_of (Err (ManifestDownloadFailed err))
         | None \<Rightarrow> io_bind (ipfs_download env cid False) (\<lambda>_. io_return None))
     | Some manifest_data \<Rightarrow>
         io_bind (io_of (ok_or (bl_parse_manifest (be_libs env) manifest_data) ManifestInvalid)) (\<lambda>m.
         io_bind (blobs_ready env (required_blobs m)) (\<lambda>ready.
         io_return (if ready then Some \<lparr> tk_info = info, tk_manifest = m \<rparr> else None)))) s2 = (Ok v, s')" by blast
  show "tk_info ticket = info \<and> resolved_as (be_libs env) served info (tk_manifest ticket)"
  proof (cases data)
    case None
    with k v show ?thesis by (auto dest!: io_bind_OkD split: option.splits)
  next
    case (Some d)
    have "served cid d" by (rule ipfs_read_served [OF assms [OF P] data [unfolded Some]])
    with k v cid Some show ?thesis
      by (auto simp: resolved_as_def io_bind_of ok_or_def intro!: exI [of _ d] dest!: io_bind_OkD split: option.splits if_splits)
  qed
qed

lemma io_inv_resolve:
  assumes calm: "steady env P" and off: "\<And>s. P s \<Longrightarrow> offers (be_dl env) served (bs_downloader s)"
    and keep: "\<And>i info t s. (i, info) \<in> set ts \<Longrightarrow> P s \<Longrightarrow> is_ticket_for_worker (bs_worker_pubkey s) (bs_chain_state s) info \<Longrightarrow>
      tk_info t = info \<Longrightarrow> resolved_as (be_libs env) served info (tk_manifest t) \<Longrightarrow>
      P (s\<lparr>bs_planning_state := (bs_planning_state s)\<lparr>ps_tickets := btree_insert i t (ps_tickets (bs_planning_state s))\<rparr>\<rparr>)"
    and pub: "\<And>s. P s \<Longrightarrow> bs_worker_pubkey s = pk \<and> bs_chain_state s = cs"
  shows "io_inv P (resolve_tickets env ts)"
  using keep
proof (induction ts)
  case Nil
  show ?case by (simp add: io_inv_def)
next
  case (Cons x ts)
  obtain i info where x: "x = (i, info)" by force
  have rest: "io_inv P (resolve_tickets env ts)" by (rule Cons.IH, rule Cons.prems) simp_all
  have upd: "io_inv P (io_update (\<lambda>s. s\<lparr>bs_planning_state := (bs_planning_state s)\<lparr>ps_tickets :=
      btree_insert i t (ps_tickets (bs_planning_state s))\<rparr>\<rparr>))"
    if "is_ticket_for_worker pk cs info" "tk_info t = info" "resolved_as (be_libs env) served info (tk_manifest t)" for t
    using Cons.prems [of i info] that pub by (auto simp: io_inv_def x)
  have step: "io_inv P (io_bind (io_try (try_resolve env info)) (\<lambda>resolved.
       io_bind (case resolved of Err _ \<Rightarrow> log_error (ResolveFailed i) | Ok None \<Rightarrow> io_return ()
          | Ok (Some ticket) \<Rightarrow> io_update (\<lambda>s. s\<lparr>bs_planning_state := (bs_planning_state s)\<lparr>ps_tickets :=
                btree_insert i ticket (ps_tickets (bs_planning_state s))\<rparr>\<rparr>))
         (\<lambda>_. resolve_tickets env ts)))" if "is_ticket_for_worker pk cs info"
  proof (rule io_inv_bind_post [where R = "\<lambda>r. \<forall>t. r = Ok (Some t) \<longrightarrow>
      tk_info t = info \<and> resolved_as (be_libs env) served info (tk_manifest t)"])
    show "io_post P (io_try (try_resolve env info)) (\<lambda>v _. \<forall>t. v = Ok (Some t) \<longrightarrow>
        tk_info t = info \<and> resolved_as (be_libs env) served info (tk_manifest t))"
      using io_postD [OF try_resolve_info [OF off]] by (auto simp: io_post_def io_try_eq) (metis prod.collapse)+
  qed (use upd that rest in \<open>auto intro!: io_inv_rules calm steady_log [OF calm] split: result.split option.split\<close>)
  show ?case unfolding x resolve_tickets.simps
    by (rule io_inv_bind_get) (use pub step rest in \<open>auto simp del: resolve_tickets.simps\<close>)
qed

section \<open>Choosing the apps\<close>

lemma map_of_btree_collect: "map_of (fold (\<lambda>(k, v). btree_insert k v) xs m) k =
    (case map_of (rev xs) k of Some v \<Rightarrow> Some v | None \<Rightarrow> map_of m k)"
  by (induction xs arbitrary: m) (auto simp: map_of_btree_insert map_add_def split: option.splits)

lemma btree_collect_lookup: "distinct (map fst xs) \<Longrightarrow> map_of (btree_collect xs) = map_of xs"
proof
  fix k assume d: "distinct (map fst xs)"
  then have "map_of (rev xs) k = map_of xs k"
    by (metis map_of_inject_set distinct_rev rev_map set_rev)
  then show "map_of (btree_collect xs) k = map_of xs k"
    unfolding btree_collect_def map_of_btree_collect by (simp split: option.split)
qed

lemma btree_inv_collect: "btree_inv (btree_collect xs)"
proof -
  have "btree_inv m \<Longrightarrow> btree_inv (fold (\<lambda>(k, v). btree_insert k v) xs m)" for m
    by (induction xs arbitrary: m) (auto simp: btree_inv_insert)
  then show ?thesis unfolding btree_collect_def by (simp add: btree.inv_empty)
qed

lemma btree_collect_set: "distinct (map fst xs) \<Longrightarrow> set (btree_collect xs) = set xs"
  by (metis btree_collect_lookup btree_distinct btree_inv_collect map_of_inject_set map_of_eq_Some_iff
      subset_antisym subsetI surj_pair)

lemma btree_collect_keys: "fst ` set (btree_collect xs) = fst ` set xs"
proof -
  have "fst ` set (fold (\<lambda>(k, v). btree_insert k v) xs m) = fst ` set xs \<union> fst ` set m" for m
    by (induction xs arbitrary: m) (simp_all add: fst_set_btree_insert case_prod_unfold insert_commute)
  then show ?thesis by (simp add: btree_collect_def)
qed

lemma select_apps_set:
  assumes "btree_inv all_apps"
  shows "set (select_apps n all_apps) = set (take n (sort_by_balance all_apps))"
    "length (select_apps n all_apps) = min n (length all_apps)"
proof -
  have "mset (map fst (sort_by_balance all_apps)) = mset (map fst all_apps)" by (simp add: sort_by_balance_def)
  then have d: "distinct (map fst (sort_by_balance all_apps))"
    using btree_distinct [OF assms] mset_eq_imp_distinct_iff by blast
  then have "distinct (map fst (take n (sort_by_balance all_apps)))" by (simp add: take_map [symmetric])
  then show set: "set (select_apps n all_apps) = set (take n (sort_by_balance all_apps))"
    unfolding select_apps_def by (rule btree_collect_set)
  have "distinct (select_apps n all_apps)" "distinct (take n (sort_by_balance all_apps))"
    using btree_distinct [OF btree_inv_collect, of "take n (sort_by_balance all_apps)"] d
    by (simp_all add: select_apps_def distinct_map)
  then have "length (select_apps n all_apps) = length (take n (sort_by_balance all_apps))"
    using set by (simp only: distinct_card [symmetric])
  then show "length (select_apps n all_apps) = min n (length all_apps)" by (simp add: sort_by_balance_def min.commute)
qed

lemma sorted_take_drop:
  assumes "sorted (map f xs)" "x \<in> set (take n xs)" "y \<in> set (drop n xs)" shows "f x \<le> f y"
proof -
  have "sorted (map f (take n xs) @ map f (drop n xs))" using assms(1) by (simp add: map_append [symmetric])
  with assms(2,3) show ?thesis by (simp add: sorted_append)
qed

text \<open>
  The plan selects as many apps as the bridge may run, of all the apps with resolved tickets, and no app
  that is left out has a larger balance than one that is selected.
\<close>

lemma richest_apps_selected:
  assumes "btree_inv all_apps"
  shows "set (select_apps n all_apps) \<subseteq> set all_apps \<and> length (select_apps n all_apps) = min n (length all_apps) \<and>
    btree_inv (select_apps n all_apps) \<and>
    (\<forall>(a, chosen) \<in> set (select_apps n all_apps). \<forall>(b, other) \<in> set all_apps - set (select_apps n all_apps).
       pa_balance other \<le> pa_balance chosen)"
proof -
  let ?key = "\<lambda>(_ :: bytes, info). 2 ^ 128 - unat (pa_balance info)"
  let ?xs = "sort_by_balance all_apps"
  have set: "set ?xs = set all_apps" by (simp add: sort_by_balance_def)
  have sorted: "sorted (map ?key ?xs)" by (simp add: sort_by_balance_def sorted_sort_key)
  have "pa_balance other \<le> pa_balance chosen"
    if "(a, chosen) \<in> set (take n ?xs)" "(b, other) \<in> set ?xs" "(b, other) \<notin> set (take n ?xs)" for a b chosen other
  proof -
    from that have "(b, other) \<in> set (drop n ?xs)" by (metis Un_iff append_take_drop_id set_append)
    from sorted_take_drop [OF sorted that(1) this] show ?thesis
      using unat_lt_2p [of "pa_balance chosen"] unat_lt_2p [of "pa_balance other"] by (simp add: word_le_nat_alt)
  qed
  then have "\<forall>(a, chosen) \<in> set (take n ?xs). \<forall>(b, other) \<in> set ?xs - set (take n ?xs). pa_balance other \<le> pa_balance chosen"
    by (intro ballI, clarify, blast)
  moreover have "set (take n ?xs) \<subseteq> set ?xs" by (rule set_take_subset)
  ultimately show ?thesis
    using select_apps_set [OF assms, of n] btree_inv_collect [of "take n ?xs"] by (simp add: set select_apps_def)
qed

section \<open>The effect of a plan\<close>

text \<open>
  \<open>triple P m Q\<close>: from a state with \<open>P\<close> the operation's result and state satisfy \<open>Q\<close>.
\<close>

definition triple ::
  "('w BridgeState \<Rightarrow> bool) \<Rightarrow> ('w, 'a) bridge_io \<Rightarrow> (('a, bridge_error) result \<Rightarrow> 'w BridgeState \<Rightarrow> bool) \<Rightarrow> bool" where
  "triple P m Q \<longleftrightarrow> (\<forall>s. P s \<longrightarrow> Q (fst (m s)) (snd (m s)))"

lemma tripleD: "triple P m Q \<Longrightarrow> P s \<Longrightarrow> m s = (r, s') \<Longrightarrow> Q r s'"
  unfolding triple_def by (metis fst_conv snd_conv)

lemma triple_bind:
  assumes "triple P m (\<lambda>r s. case r of Ok v \<Rightarrow> R v s | Err e \<Rightarrow> Q (Err e) s)" "\<And>v. triple (R v) (f v) Q"
  shows "triple P (io_bind m f) Q"
  unfolding triple_def
proof (intro allI impI)
  fix s assume "P s"
  obtain r s1 where m: "m s = (r, s1)" by force
  from tripleD [OF assms(1) \<open>P s\<close> m] assms(2) show "Q (fst (io_bind m f s)) (snd (io_bind m f s))"
    by (cases r) (auto simp: io_bind_def m triple_def)
qed

lemma triple_bind_inv:
  assumes "triple P m (\<lambda>_. I)" "\<And>e s. I s \<Longrightarrow> Q (Err e) s" "\<And>v. triple I (f v) Q"
  shows "triple P (io_bind m f) Q"
  by (rule triple_bind [where R = "\<lambda>_. I"]) (use assms in \<open>auto simp: triple_def split: result.split\<close>)

lemma triple_pure:
  "(\<And>s. P s \<Longrightarrow> Q (Ok v) s) \<Longrightarrow> triple P (io_return v) Q"
  "(\<And>s. P s \<Longrightarrow> Q r s) \<Longrightarrow> triple P (io_of r) Q"
  "(\<And>s. P s \<Longrightarrow> Q (Ok (g s)) s) \<Longrightarrow> triple P (io_get g) Q"
  "(\<And>s. P s \<Longrightarrow> Q (Ok ()) (h s)) \<Longrightarrow> triple P (io_update h) Q"
  "(\<And>s. P s \<Longrightarrow> Q (Ok ()) (s\<lparr>bs_log := bs_log s @ [l]\<rparr>)) \<Longrightarrow> triple P (log_error l) Q"
  by (simp_all add: triple_def)

lemma triple_keep: "triple P (io_of r) (\<lambda>_. P)"
  by (simp add: triple_def)

lemma triple_try: "triple P m (\<lambda>r. Q (Ok r)) \<Longrightarrow> triple P (io_try m) Q"
  by (simp add: triple_def io_try_eq)

lemma triple_weaken: "triple P' m Q' \<Longrightarrow> (\<And>s. P s \<Longrightarrow> P' s) \<Longrightarrow> (\<And>r s. Q' r s \<Longrightarrow> Q r s) \<Longrightarrow> triple P m Q"
  by (simp add: triple_def)

definition plan_view ::
  "('w \<Rightarrow> bytes set) \<Rightarrow> PlanningState \<Rightarrow> bytes set \<Rightarrow> bridge_log list \<Rightarrow> 'w BridgeState \<Rightarrow> bool" where
  "plan_view deployed ps D lg s \<longleftrightarrow> bs_planning_state s = ps \<and> deployed (bs_worker s) = D \<and> bs_log s = lg"

lemma plan_view_awaited [simp]: "plan_view deployed ps D lg (awaited env s) = plan_view deployed ps D lg s"
  by (simp add: plan_view_def awaited_def)

lemma plan_view_log [simp]:
  "plan_view deployed ps D lg s \<Longrightarrow> plan_view deployed ps D (lg @ [l]) (s\<lparr>bs_log := bs_log s @ [l]\<rparr>)"
  by (simp add: plan_view_def)

text \<open>
  The contract of a worker's operations: which apps they list, add and remove. Connections differ in what the
  network and the worker's other tasks do; \<open>usable\<close> are those on which only the bridge deploys and removes apps.
\<close>

locale worker_api =
  fixes client :: "'c \<Rightarrow> 'w WorkerClient"
    and usable :: "'c \<Rightarrow> bool"
    and deployed :: "'w \<Rightarrow> bytes set"
    and listable :: "'w \<Rightarrow> bool"
    and named :: "'c \<Rightarrow> AppManifest \<Rightarrow> bytes"
  assumes info_same: "snd (wc_info (client c) w) = w"
    and exists_same: "snd (wc_blob_exists (client c) h w) = w"
    and list_same: "snd (wc_app_list (client c) i n w) = w"
    and put_apps: "deployed (snd (wc_blob_put (client c) h d w)) = deployed w"
    and list_all: "listable w \<Longrightarrow> wc_app_list (client c) 0 (- 1) w = (Ok l, w') \<Longrightarrow> ai_address ` set l = deployed w"
    and deploy_apps: "usable c \<Longrightarrow> wc_app_deploy (client c) (Some (manifest_to_pb m)) reuse w = (r, w') \<Longrightarrow>
      deployed w \<subseteq> deployed w' \<and> deployed w' \<subseteq> insert (named c m) (deployed w) \<and>
      (\<forall>a. r = Ok a \<longrightarrow> a = named c m \<and> a \<in> deployed w')"
    and remove_apps: "usable c \<Longrightarrow> length a = 32 \<Longrightarrow> wc_app_remove (client c) a w = (u, w') \<Longrightarrow>
      deployed w - {a} \<subseteq> deployed w' \<and> deployed w' \<subseteq> deployed w \<and> (u = Ok () \<longrightarrow> a \<notin> deployed w')"
begin

lemma triple_worker:
  assumes "\<And>n. be_client env n = client (conn n) \<and> usable (conn n)"
    and "\<And>c s r w'. usable c \<Longrightarrow> P s \<Longrightarrow> f (client c) (bs_worker s) = (r, w') \<Longrightarrow>
      Q (map_err RpcFailed r) (awaited env (s\<lparr>bs_worker := w'\<rparr>))"
  shows "triple P (worker_call env f) Q"
  unfolding triple_def
proof (intro allI impI)
  fix s assume "P s"
  obtain r w' where "f (client (conn (bs_calls s))) (bs_worker s) = (r, w')" by force
  with assms(1) [of "bs_calls s"] assms(2) [OF _ \<open>P s\<close>, of "conn (bs_calls s)" r w']
  show "Q (fst (worker_call env f s)) (snd (worker_call env f s))" by (simp add: worker_call_def)
qed

lemma plan_view_worker:
  "plan_view deployed ps D lg s \<Longrightarrow> plan_view deployed ps D' lg (s\<lparr>bs_worker := w'\<rparr>) \<longleftrightarrow> deployed w' = D'"
  by (simp add: plan_view_def)

lemma worker_keeps:
  assumes conn: "\<And>n. be_client env n = client (conn n) \<and> usable (conn n)"
    and keeps: "\<And>c w. usable c \<Longrightarrow> deployed (snd (f (client c) w)) = deployed w"
  shows "triple (\<lambda>s. \<exists>l. plan_view deployed ps D (lg @ l) s) (worker_call env f) (\<lambda>_ s. \<exists>l. plan_view deployed ps D (lg @ l) s)"
proof (rule triple_worker [OF conn])
  fix c s r w' assume c: "usable c" and s: "\<exists>l. plan_view deployed ps D (lg @ l) s" and f: "f (client c) (bs_worker s) = (r, w')"
  from keeps [OF c, of "bs_worker s"] f have "deployed w' = deployed (bs_worker s)" by simp
  with s show "\<exists>l. plan_view deployed ps D (lg @ l) (awaited env (s\<lparr>bs_worker := w'\<rparr>))" by (simp add: plan_view_def awaited_def)
qed

lemma upload_keeps:
  assumes conn: "\<And>n. be_client env n = client (conn n) \<and> usable (conn n)"
  shows "triple (\<lambda>s. \<exists>l. plan_view deployed ps D (lg @ l) s) (upload_blobs env a deps)
    (\<lambda>r s. \<exists>l. plan_view deployed ps D (lg @ l) s \<and> (r = Ok False \<longrightarrow> UploadFailed a \<in> set l))"
proof (induction deps)
  case Nil
  show ?case by (simp add: triple_def)
next
  case (Cons dep deps)
  obtain h c where dep: "dep = (h, c)" by force
  let ?I = "\<lambda>s. \<exists>l. plan_view deployed ps D (lg @ l) s"
  let ?Q = "\<lambda>r s. \<exists>l. plan_view deployed ps D (lg @ l) s \<and> (r = Ok False \<longrightarrow> UploadFailed a \<in> set l)"
  have exists: "triple ?I (worker_call env (\<lambda>c. wc_blob_exists c h)) (\<lambda>_. ?I)"
    by (rule worker_keeps [OF conn]) (simp add: exists_same)
  have put: "triple ?I (worker_call env (\<lambda>c. wc_blob_put c h d)) (\<lambda>_. ?I)" for d
    by (rule worker_keeps [OF conn]) (rule put_apps)
  have read: "triple ?I (ipfs_read env cid) (\<lambda>_. ?I)" for cid
    by (auto simp: triple_def ipfs_read_def)
  have log: "triple ?I (io_bind (log_error (UploadFailed a)) (\<lambda>_. io_return False)) ?Q"
    by (auto simp: triple_def plan_view_def)
  have fail: "\<And>e s. ?I s \<Longrightarrow> ?Q (Err e) s" by simp
  note bind = triple_bind_inv [where I = ?I and Q = ?Q and P = ?I, OF _ fail]
  show ?case
    unfolding dep upload_blobs.simps
  proof (intro bind exists)
    fix uploaded
    show "triple ?I (if uploaded then upload_blobs env a deps else
        io_bind (io_of (ok_or (bl_parse_cid (be_libs env) c) InvalidBlobCid)) (\<lambda>cid.
        io_bind (ipfs_read env cid) (\<lambda>data.
        io_bind (io_of (ok_or data BlobMissing)) (\<lambda>blob.
        io_bind (io_try (worker_call env (\<lambda>c. wc_blob_put c h blob))) (\<lambda>result.
        case result of
          Err _ \<Rightarrow> io_bind (log_error (UploadFailed a)) (\<lambda>_. io_return False)
        | Ok _ \<Rightarrow> upload_blobs env a deps))))) ?Q"
    proof (cases uploaded)
      case False
      have "triple ?I (case r of Err _ \<Rightarrow> io_bind (log_error (UploadFailed a)) (\<lambda>_. io_return False)
          | Ok _ \<Rightarrow> upload_blobs env a deps) ?Q" for r :: "(unit, bridge_error) result"
        using Cons.IH log by (cases r) simp_all
      then show ?thesis unfolding if_not_P [OF False]
        by (intro bind triple_keep read triple_try put)
    qed (simp add: Cons.IH)
  qed
qed

text \<open>Deploying an app adds at most that app, and does so unless a failure is logged for it.\<close>

lemma deploy_one_effect:
  assumes conn: "\<And>n. be_client env n = client (conn n) \<and> usable (conn n)"
    and addr: "\<And>n. named (conn n) (pa_manifest info) = a"
    and s: "plan_view deployed ps D lg s" and run: "deploy_one env a info s = (Ok u, s')"
  shows "\<exists>D' l. plan_view deployed ps D' (lg @ l) s' \<and> D \<subseteq> D' \<and> D' \<subseteq> insert a D \<and>
    (a \<in> D' \<or> DeployFailed a \<in> set l \<or> UploadFailed a \<in> set l)"
proof -
  from run obtain blobs where run1: "upload_and_deploy env a info (bset_collect blobs) s = (Ok u, s')"
    by (auto simp: deploy_one_def io_bind_of split: result.splits)
  note run1 = run1 [unfolded upload_and_deploy_def]
  obtain ru s1 where up: "upload_blobs env a (bset_collect blobs) s = (ru, s1)" by force
  have "\<exists>l. plan_view deployed ps D (lg @ l) s" using s by (intro exI [of _ "[]"]) simp
  from tripleD [OF upload_keeps [OF conn] this up] obtain l where
    v1: "plan_view deployed ps D (lg @ l) s1" "ru = Ok False \<longrightarrow> UploadFailed a \<in> set l" by blast
  show ?thesis
  proof (cases "ru = Ok True")
    case False
    with run1 up have "s' = s1" "ru = Ok False" by (cases ru; auto simp: io_bind_def)+
    with v1 show ?thesis by blast
  next
    case True
    define c where "c = conn (bs_calls s1)"
    obtain r w' where dep: "wc_app_deploy (client c) (Some (manifest_to_pb (pa_manifest info)))
        (bc_reuse_instances (bs_config s1)) (bs_worker s1) = (r, w')" by force
    let ?s2 = "awaited env (s1\<lparr>bs_worker := w'\<rparr>)"
    have eff: "D \<subseteq> deployed w'" "deployed w' \<subseteq> insert a D" "\<forall>b. r = Ok b \<longrightarrow> b = a \<and> a \<in> deployed w'"
      using deploy_apps [OF _ dep] conn [of "bs_calls s1"] addr [of "bs_calls s1"] v1(1)
      by (auto simp: c_def plan_view_def)
    have v2: "plan_view deployed ps (deployed w') (lg @ l) ?s2" using v1(1) by (simp add: plan_view_worker)
    have "worker_call env (\<lambda>c. wc_app_deploy c (Some (manifest_to_pb (pa_manifest info))) (bc_reuse_instances (bs_config s1))) s1 =
        (map_err RpcFailed r, ?s2)"
      using dep conn [of "bs_calls s1"] by (simp add: worker_call_def c_def)
    then have "s' = (case r of Ok b \<Rightarrow> ?s2 | Err _ \<Rightarrow> ?s2\<lparr>bs_log := bs_log ?s2 @ [DeployFailed a]\<rparr>)"
      using run1 up True eff(3) by (cases r) (simp_all add: io_bind_def io_try_eq)
    then show ?thesis
      using eff v2 plan_view_log [OF v2, of "DeployFailed a"]
      by (cases r) (auto, metis UnI2 append.assoc list.set_intros(1) set_append)
  qed
qed

lemma deploy_all_effect:
  assumes conn: "\<And>n. be_client env n = client (conn n) \<and> usable (conn n)"
    and addr: "\<And>n a info. (a, info) \<in> set todo \<Longrightarrow> named (conn n) (pa_manifest info) = a"
    and "plan_view deployed ps D lg s" "deploy_all env todo s = (Ok u, s')"
  shows "\<exists>D' l. plan_view deployed ps D' (lg @ l) s' \<and> D \<subseteq> D' \<and> D' \<subseteq> fst ` set todo \<union> D \<and>
    (\<forall>a \<in> fst ` set todo. a \<in> D' \<or> DeployFailed a \<in> set l \<or> UploadFailed a \<in> set l)"
  using assms(2-)
proof (induction todo arbitrary: s D lg)
  case Nil
  then show ?case by (auto intro!: exI [of _ D] exI [of _ "[]"])
next
  case (Cons x todo)
  obtain a info where x: "x = (a, info)" by force
  from Cons.prems(3) obtain s1 where one: "deploy_one env a info s = (Ok (), s1)" and rest: "deploy_all env todo s1 = (Ok u, s')"
    by (auto simp: x dest!: io_bind_OkD)
  from deploy_one_effect [OF conn _ Cons.prems(2) one] Cons.prems(1) x obtain D1 l1 where
    v1: "plan_view deployed ps D1 (lg @ l1) s1" and e1: "D \<subseteq> D1" "D1 \<subseteq> insert a D"
      "a \<in> D1 \<or> DeployFailed a \<in> set l1 \<or> UploadFailed a \<in> set l1" by (metis list.set_intros(1))
  from Cons.IH [OF _ v1 rest] Cons.prems(1) obtain D2 l2 where
    v2: "plan_view deployed ps D2 (lg @ l1 @ l2) s'" and e2: "D1 \<subseteq> D2" "D2 \<subseteq> fst ` set todo \<union> D1"
      "\<forall>a \<in> fst ` set todo. a \<in> D2 \<or> DeployFailed a \<in> set l2 \<or> UploadFailed a \<in> set l2" by auto
  show ?case
    by (rule exI [of _ D2], rule exI [of _ "l1 @ l2"]) (use v2 e1 e2 in \<open>auto simp: x\<close>)
qed

lemma remove_all_effect:
  assumes conn: "\<And>n. be_client env n = client (conn n) \<and> usable (conn n)"
    and "\<And>a. a \<in> set todo \<Longrightarrow> length a = 32"
    and "plan_view deployed ps D lg s" "remove_all env todo s = (Ok u, s')"
  shows "\<exists>D' l. plan_view deployed ps D' (lg @ l) s' \<and> D - set todo \<subseteq> D' \<and> D' \<subseteq> D \<and>
    (\<forall>a \<in> set todo. a \<notin> D' \<or> RemoveFailed a \<in> set l) \<and> set l \<subseteq> RemoveFailed ` set todo"
  using assms(2-)
proof (induction todo arbitrary: s D lg)
  case Nil
  then show ?case by (auto intro!: exI [of _ D] exI [of _ "[]"])
next
  case (Cons a todo)
  define c where "c = conn (bs_calls s)"
  obtain r w' where rm: "wc_app_remove (client c) a (bs_worker s) = (r, w')" by force
  let ?s1 = "awaited env (s\<lparr>bs_worker := w'\<rparr>)"
  have eff: "D - {a} \<subseteq> deployed w'" "deployed w' \<subseteq> D" "r = Ok () \<longrightarrow> a \<notin> deployed w'"
    using remove_apps [OF _ Cons.prems(1) rm] conn [of "bs_calls s"] Cons.prems(2) by (simp_all add: c_def plan_view_def)
  define l1 where "l1 = (case r of Ok _ \<Rightarrow> [] | Err _ \<Rightarrow> [RemoveFailed a])"
  define s2 where "s2 = (case r of Ok _ \<Rightarrow> ?s1 | Err _ \<Rightarrow> ?s1\<lparr>bs_log := bs_log ?s1 @ [RemoveFailed a]\<rparr>)"
  have v1: "plan_view deployed ps (deployed w') (lg @ l1) s2"
    using Cons.prems(2) by (cases r) (simp_all add: l1_def s2_def plan_view_def awaited_def)
  have "worker_call env (\<lambda>c. wc_app_remove c a) s = (map_err RpcFailed r, ?s1)"
    using rm conn [of "bs_calls s"] by (simp add: worker_call_def c_def)
  then have "remove_all env todo s2 = (Ok u, s')"
    using Cons.prems(3) by (cases r) (simp_all add: io_bind_def io_try_eq s2_def)
  from Cons.IH [OF _ v1 this] Cons.prems(1) obtain D2 l2 where
    v2: "plan_view deployed ps D2 (lg @ l1 @ l2) s'" and e2: "deployed w' - set todo \<subseteq> D2" "D2 \<subseteq> deployed w'"
      "\<forall>a \<in> set todo. a \<notin> D2 \<or> RemoveFailed a \<in> set l2" "set l2 \<subseteq> RemoveFailed ` set todo" by auto
  have "a \<notin> D2 \<or> RemoveFailed a \<in> set l1" "set l1 \<subseteq> {RemoveFailed a}" using eff e2 by (cases r; auto simp: l1_def)+
  with v2 e2 eff show ?case
    by (intro exI [of _ D2] exI [of _ "l1 @ l2"]) auto
qed

lemma running_apps:
  assumes conn: "\<And>n. be_client env n = client (conn n) \<and> usable (conn n)"
    and dec: "\<And>a. length a = 32 \<Longrightarrow> bl_decode_address (be_libs env) a = Some a"
    and len: "\<And>a. a \<in> deployed (bs_worker s) \<Longrightarrow> length a = 32" and "listable (bs_worker s)"
    and run: "get_running_apps env s = (Ok running, s')"
  shows "fst ` set running = deployed (bs_worker s) \<and> s' = awaited env s"
proof -
  obtain l w' where l: "wc_app_list (client (conn (bs_calls s))) 0 (- 1) (bs_worker s) = (Ok l, w')"
    and d: "map_ok btree_collect (decode_apps (be_libs env) l) = Ok running" and s': "s' = awaited env (s\<lparr>bs_worker := w'\<rparr>)"
    using run conn [of "bs_calls s"]
    by (auto simp: get_running_apps_def io_bind_def worker_call_def split: prod.splits result.splits)
  have apps: "ai_address ` set l = deployed (bs_worker s)" using list_all [OF assms(4) l] .
  have "bl_decode_address (be_libs env) (ai_address x) = Some (ai_address x)" if "x \<in> set l" for x
    using that apps len dec by blast
  then have "decode_apps (be_libs env) xs = Ok (map (\<lambda>x. (ai_address x, ai_running_instances x)) xs)" if "set xs \<subseteq> set l" for xs
    using that by (induction xs) auto
  with d have "running = btree_collect (map (\<lambda>x. (ai_address x, ai_running_instances x)) l)" by simp
  then have "fst ` set running = ai_address ` set l" by (simp add: btree_collect_keys image_image)
  moreover have "w' = bs_worker s" using list_same [of "conn (bs_calls s)" 0 "- 1" "bs_worker s"] l by simp
  ultimately show ?thesis using apps s' by simp
qed

lemma map_of_None_fst: "map_of m a = None \<longleftrightarrow> a \<notin> fst ` set m"
  by (rule map_of_eq_None_iff)

text \<open>
  A plan that runs to its end leaves exactly the selected apps deployed, up to the failures it logs.
\<close>

lemma apply_plan_effect:
  assumes conn: "\<And>n. be_client env n = client (conn n) \<and> usable (conn n)"
    and dec: "\<And>a. length a = 32 \<Longrightarrow> bl_decode_address (be_libs env) a = Some a"
    and len: "\<And>a. a \<in> deployed (bs_worker s) \<Longrightarrow> length a = 32" and listable: "listable (bs_worker s)"
    and named: "\<And>n a info. (a, info) \<in> set (ps_selected_apps (bs_planning_state s)) \<Longrightarrow> named (conn n) (pa_manifest info) = a"
    and run: "apply_plan env s = (Ok u, s')"
  shows "\<exists>l. bs_log s' = bs_log s @ l \<and> bs_planning_state s' = bs_planning_state s \<and>
    (\<forall>a \<in> fst ` set (ps_selected_apps (bs_planning_state s)).
       a \<in> deployed (bs_worker s') \<or> DeployFailed a \<in> set l \<or> UploadFailed a \<in> set l) \<and>
    (\<forall>a \<in> deployed (bs_worker s'). a \<in> fst ` set (ps_selected_apps (bs_planning_state s)) \<or> RemoveFailed a \<in> set l)"
proof -
  define ps where "ps = bs_planning_state s"
  define D where "D = deployed (bs_worker s)"
  let ?sel = "ps_selected_apps ps"
  from run obtain i s1 running s2 s3 where i: "worker_call env wc_info s = (Ok i, s1)"
    and g: "get_running_apps env s1 = (Ok running, s2)"
    and dep2: "deploy_all env (filter (\<lambda>(a, _). map_of running a = None) (ps_selected_apps (bs_planning_state s2))) s2 = (Ok (), s3)"
    and rem2: "remove_all env (map fst (filter (\<lambda>(a, _). map_of (ps_selected_apps (bs_planning_state s2)) a = None) running)) s3 = (Ok u, s')"
    by (auto simp: apply_plan_def Let_def dest!: io_bind_OkD)
  have s1: "s1 = awaited env s"
    using i conn [of "bs_calls s"] info_same [of "conn (bs_calls s)" "bs_worker s"]
    by (auto simp: worker_call_def split: prod.splits)
  have "fst ` set running = D \<and> s2 = awaited env s1"
    unfolding D_def using running_apps [OF conn dec _ _ g] len listable by (simp add: s1 awaited_def)
  then have keys: "fst ` set running = D" and v2: "plan_view deployed ps D (bs_log s) s2"
    by (simp_all add: s1 plan_view_def ps_def D_def awaited_def)
  then have ps2: "bs_planning_state s2 = ps" by (simp add: plan_view_def)
  let ?td = "filter (\<lambda>(a, _). map_of running a = None) ?sel"
  let ?tr = "map fst (filter (\<lambda>(a, _). map_of ?sel a = None) running)"
  note dep = dep2 [unfolded ps2] and rem = rem2 [unfolded ps2]
  have td: "fst ` set ?td = fst ` set ?sel - D" using keys by (force simp: map_of_eq_None_iff)
  have tr: "set ?tr = D - fst ` set ?sel" using keys by (force simp: map_of_eq_None_iff)
  have "\<And>n a info. (a, info) \<in> set ?td \<Longrightarrow> named (conn n) (pa_manifest info) = a" using named by (auto simp: ps_def)
  from deploy_all_effect [OF conn this v2 dep] obtain D1 l1 where
    v3: "plan_view deployed ps D1 (bs_log s @ l1) s3" and e1: "D \<subseteq> D1" "D1 \<subseteq> (fst ` set ?sel - D) \<union> D"
      "\<forall>a \<in> fst ` set ?sel - D. a \<in> D1 \<or> DeployFailed a \<in> set l1 \<or> UploadFailed a \<in> set l1" unfolding td by blast
  have "\<And>a. a \<in> set ?tr \<Longrightarrow> length a = 32" using tr len by (simp add: D_def)
  from remove_all_effect [OF conn this v3 rem] obtain D2 l2 where
    v4: "plan_view deployed ps D2 (bs_log s @ l1 @ l2) s'" and e2: "D1 - (D - fst ` set ?sel) \<subseteq> D2" "D2 \<subseteq> D1"
      "\<forall>a \<in> D - fst ` set ?sel. a \<notin> D2 \<or> RemoveFailed a \<in> set l2" unfolding tr by auto
  define K where "K = fst ` set ?sel"
  have "\<forall>a \<in> K. a \<in> D2 \<or> DeployFailed a \<in> set (l1 @ l2) \<or> UploadFailed a \<in> set (l1 @ l2)"
    "\<forall>a \<in> D2. a \<in> K \<or> RemoveFailed a \<in> set (l1 @ l2)"
    using e1 e2 unfolding K_def [symmetric] set_append by blast+
  then show ?thesis
    by (intro exI [of _ "l1 @ l2"]) (use v4 in \<open>simp add: plan_view_def ps_def K_def\<close>)
qed

end

section \<open>The model of the worker keeps the contract\<close>

text \<open>
  A connection is usable if the worker's other tasks neither deploy nor remove apps meanwhile and addresses decode to
  themselves.
\<close>

definition app_keys :: "WorkerState \<Rightarrow> bytes set" where
  "app_keys w = fst ` set (apps w)"

definition rpc_usable :: "RpcConn \<Rightarrow> bool" where
  "rpc_usable c \<longleftrightarrow>
     (\<forall>w. app_keys (others (waits (rc_env c)) w) = app_keys w) \<and>
     (\<forall>a. length a = 32 \<longrightarrow> dec_address (codecs (rc_env c)) a = Ok a)"

lemma app_keys_dom: "app_keys w = dom (map_of (apps w))"
  by (simp add: app_keys_def dom_map_of_conv_image_fst)

lemma app_keys_put: "app_keys (put_app a app w) = insert a (app_keys w)"
  by (simp add: app_keys_dom put_app_def hash.dom_insert)

lemma app_keys_lookup: "map_of (apps w) a = Some app \<Longrightarrow> a \<in> app_keys w"
  by (auto simp: app_keys_dom)

lemma app_keys_update [simp]:
  "app_keys (w\<lparr>next_app_sn := i\<rparr>) = app_keys w" "app_keys (w\<lparr>next_run_sn := i\<rparr>) = app_keys w"
  "app_keys (w\<lparr>vms := v\<rparr>) = app_keys w" "app_keys (w\<lparr>cleanups := c\<rparr>) = app_keys w"
  by (simp_all add: app_keys_def)

lemma app_keys_start: "app_keys (snd (start_app nm a t w)) = app_keys w"
  by (auto simp: start_app_def Let_def app_keys_put dest: app_keys_lookup split: option.split)

lemma app_keys_starts: "app_keys (snd (start_instances nm n a t w)) = app_keys w"
proof (induction n arbitrary: w)
  case (Suc n)
  obtain r w1 where s: "start_app nm a t w = (r, w1)" by force
  then have "app_keys w1 = app_keys w" using app_keys_start [of nm a t w] by simp
  with Suc.IH [of w1] s show ?case
    by (cases r; cases "start_instances nm n a t w1") (auto split: result.split)
qed simp

lemma evict_keys: "evict_resizable mt as = Some (h, as') \<Longrightarrow> map fst as' = map fst as"
  by (induction mt as arbitrary: h as' rule: evict_resizable.induct) (auto split: option.splits if_splits)

lemma app_keys_reserve: "app_keys (snd (reserve_slot_if_needed mt a w)) = app_keys w"
proof -
  have "fst ` set as' = fst ` set as" if "evict_resizable mt as = Some (h, as')" for as h as'
    using evict_keys [OF that] by (metis list.set_map)
  then show ?thesis by (auto simp: reserve_slot_if_needed_def app_keys_def split: option.split)
qed

lemma app_keys_resize: "app_keys (snd (resize_app_instances nm mt a n t w)) = app_keys w"
proof -
  define rw where "rw = (if t \<noteq> None then reserve_slot_if_needed mt a w else (Ok None, w))"
  obtain r w1 where rw': "rw = (r, w1)" by force
  have k1: "app_keys w1 = app_keys w" using app_keys_reserve [of mt a w] rw' by (simp add: rw_def split: if_splits)
  have k2: "app_keys (put_app a x w1) = app_keys w1" if "map_of (apps w1) a = Some app" for x app
    using app_keys_put [of a x w1] app_keys_lookup [OF that] by auto
  show ?thesis
  proof (cases r)
    case (Err e)
    then show ?thesis unfolding resize_app_instances_def rw_def [symmetric] rw' using k1 by simp
  next
    case (Ok reserved)
    show ?thesis
    proof (cases "map_of (apps w1) a")
      case None
      then show ?thesis unfolding resize_app_instances_def rw_def [symmetric] rw' using k1 Ok by (simp add: Let_def)
    next
      case (Some app)
      define k where "k = min (available_slots w1) (n - length (instances app))"
      obtain r2 w2 where st: "start_instances nm k a t w1 = (r2, w2)" by force
      then have "app_keys w2 = app_keys w1" using app_keys_starts [of nm k a t w1] by simp
      then show ?thesis
        unfolding resize_app_instances_def rw_def [symmetric] rw'
        using k1 k2 [OF Some] Ok Some st by (cases r2) (simp_all add: Let_def k_def split: prod.split)
    qed
  qed
qed

lemma app_keys_resize_wait:
  "(\<And>w. app_keys (others ws w) = app_keys w) \<Longrightarrow> app_keys (snd (resize_and_wait nm ws mt a n demand w)) = app_keys w"
  using app_keys_resize [of nm mt a n "if demand then Some (on_demand_connection_timeout (args w)) else None" w]
  by (auto simp: resize_and_wait_def Let_def split: prod.split result.split)

lemma deploy_app_keys:
  assumes others: "\<And>w. app_keys (others ws w) = app_keys w"
    and run: "deploy_app nm ws mt size_hint gen session now m restart reuse w = (r, w')"
  shows "app_keys w \<subseteq> app_keys w' \<and> app_keys w' \<subseteq> insert (gen m) (app_keys w) \<and>
    (\<forall>i. r = Ok i \<longrightarrow> ai_address i = gen m \<and> gen m \<in> app_keys w')"
proof (cases "check_manifest size_hint m")
  case check: (Ok u)
  obtain r1 w1 where reg: "register_app (gen m) session now m restart reuse w = (r1, w1)" by force
  have k1: "app_keys w1 = (case r1 of Ok _ \<Rightarrow> insert (gen m) (app_keys w) | Err _ \<Rightarrow> app_keys w)"
    using reg by (auto simp: register_app_def Let_def app_keys_put split: if_splits)
  define rw where "rw = (if \<not> on_demand m then resize_and_wait nm ws mt (gen m) 1 False (others ws w1) else (Ok (), others ws w1))"
  have k2: "app_keys (snd rw) = app_keys w1"
    using app_keys_resize_wait [OF others, where w = "others ws w1"] others by (simp add: rw_def)
  show ?thesis
  proof (cases r1)
    case (Ok v)
    have "app_keys w' = app_keys (snd rw)" "\<forall>i. r = Ok i \<longrightarrow> ai_address i = gen m"
      using run reg check Ok
      by (simp_all add: deploy_app_def rw_def [symmetric]) (auto simp: app_info_def Let_def split: prod.splits result.splits option.splits)
    with k1 k2 Ok show ?thesis by auto
  qed (use run reg check k1 in \<open>auto simp: deploy_app_def\<close>)
qed (use run in \<open>auto simp: deploy_app_def\<close>)

lemma over_net_cases:
  "over_net net f w = (r, w') \<Longrightarrow> w' = w \<and> (\<exists>e. r = Err e) \<or> w' = snd (f w) \<and> (r = map_err ServerError (fst (f w)) \<or> (\<exists>e. r = Err e))"
  by (cases net) (auto simp: over_net_def)

lemma over_net_same: "(\<And>w. snd (f w) = w) \<Longrightarrow> snd (over_net net f w) = w"
  by (cases net) (simp_all add: over_net_def)

lemma rpc_deploy_keys:
  assumes "rpc_usable c" "rpc_app_deploy (rc_env c) (Some (manifest_to_pb m)) reuse w = (r, w')"
  shows "app_keys w \<subseteq> app_keys w' \<and> app_keys w' \<subseteq> insert (man_address (rc_env c) m) (app_keys w) \<and>
    (\<forall>a. map_ok fst r = Ok a \<longrightarrow> a = man_address (rc_env c) m \<and> a \<in> app_keys w')"
proof (cases "ws_session w = None")
  case False
  let ?env = "rc_env c"
  obtain rd wd where d: "deploy_app (naming ?env) (waits ?env) (meters ?env) (man_size_hint ?env) (man_address ?env)
    (random32 ?env) (clock ?env) m True reuse w = (rd, wd)" by force
  have "\<And>w. app_keys (others (waits ?env) w) = app_keys w" using assms(1) by (simp add: rpc_usable_def)
  note keys = deploy_app_keys [OF this d]
  have "w' = wd" "map_ok fst r = (case rd of Ok i \<Rightarrow> Ok (ai_address i) | Err e \<Rightarrow> Err (FromWorker e))"
    using assms(2) False d by (auto simp: rpc_app_deploy_def manifest_pb_roundtrip split: result.splits)
  with keys show ?thesis by (cases rd) auto
qed (use assms(2) in \<open>auto simp: rpc_app_deploy_def\<close>)

lemma rpc_remove_keys:
  assumes "rpc_usable c" "length a = 32" "rpc_app_remove (rc_env c) a w = (r, w')"
  shows "app_keys w - {a} \<subseteq> app_keys w' \<and> app_keys w' \<subseteq> app_keys w \<and> (r = Ok () \<longrightarrow> a \<notin> app_keys w')"
proof -
  have o: "\<And>w. app_keys (others (waits (rc_env c)) w) = app_keys w" and "dec_address (codecs (rc_env c)) a = Ok a"
    using assms(1,2) by (simp_all add: rpc_usable_def)
  moreover have "app_keys (w\<lparr>apps := hash_remove a (apps w)\<rparr>) = app_keys w - {a}"
    by (simp add: app_keys_dom hash.dom_remove)
  ultimately show ?thesis
    using assms(3) by (auto simp: rpc_app_remove_def decode_address_def remove_app_def split: option.splits)
qed

abbreviation rpc_deployed :: "WorkerState \<times> Store \<Rightarrow> bytes set" where
  "rpc_deployed w \<equiv> app_keys (fst w)"

definition rpc_listable :: "WorkerState \<times> Store \<Rightarrow> bool" where
  "rpc_listable w \<longleftrightarrow> length (apps (fst w)) < 2 ^ 32"

lemma rpc_list_all:
  "length (apps w) < 2 ^ 32 \<Longrightarrow> ai_address ` set (rpc_app_list env 0 (- 1) w) = app_keys w"
  by (simp add: rpc_app_list_def list_apps_def app_keys_def unat_max_word image_image app_info_def case_prod_unfold)

interpretation rpc_api: worker_api rpc_client rpc_usable rpc_deployed rpc_listable "\<lambda>c. man_address (rc_env c)"
proof unfold_locales
  fix c w l w' assume "rpc_listable w" "wc_app_list (rpc_client c) 0 (- 1) w = (Ok l, w')"
  then show "ai_address ` set l = rpc_deployed w"
    using rpc_list_all [of "fst w" "rc_env c"]
    by (auto simp: rpc_client_def Let_def rpc_listable_def over_net_def split: net_outcome.splits)
next
  fix c m reuse w r w'
  assume u: "rpc_usable c" and d: "wc_app_deploy (rpc_client c) (Some (manifest_to_pb m)) reuse w = (r, w')"
  obtain r1 w1 where r1: "rpc_app_deploy (rc_env c) (Some (manifest_to_pb m)) reuse (fst w) = (r1, w1)" by force
  have "w' = w \<and> (\<exists>e. r = Err e) \<or> fst w' = w1 \<and> (r = map_err ServerError (map_ok fst r1) \<or> (\<exists>e. r = Err e))"
    using over_net_cases [OF d [unfolded rpc_client_def Let_def, simplified]] r1 by (auto simp: on_worker_def)
  then show "rpc_deployed w \<subseteq> rpc_deployed w' \<and> rpc_deployed w' \<subseteq> insert (man_address (rc_env c) m) (rpc_deployed w) \<and>
      (\<forall>a. r = Ok a \<longrightarrow> a = man_address (rc_env c) m \<and> a \<in> rpc_deployed w')"
    using rpc_deploy_keys [OF u r1] by auto
next
  fix c a w r w'
  assume u: "rpc_usable c" and a: "length a = 32" and d: "wc_app_remove (rpc_client c) a w = (r, w')"
  obtain r1 w1 where r1: "rpc_app_remove (rc_env c) a (fst w) = (r1, w1)" by force
  have "w' = w \<and> (\<exists>e. r = Err e) \<or> fst w' = w1 \<and> (r = map_err ServerError r1 \<or> (\<exists>e. r = Err e))"
    using over_net_cases [OF d [unfolded rpc_client_def Let_def, simplified]] r1 by (auto simp: on_worker_def)
  then show "rpc_deployed w - {a} \<subseteq> rpc_deployed w' \<and> rpc_deployed w' \<subseteq> rpc_deployed w \<and> (r = Ok () \<longrightarrow> a \<notin> rpc_deployed w')"
    using rpc_remove_keys [OF u a r1] by auto
next
  fix c h d and w :: "WorkerState \<times> Store"
  show "rpc_deployed (snd (wc_blob_put (rpc_client c) h d w)) = rpc_deployed w"
    by (cases "rc_net c") (simp_all add: rpc_client_def Let_def over_net_def split: prod.split)
qed (simp_all add: rpc_client_def Let_def over_net_same)

section \<open>The collected apps\<close>

text \<open>
  Every app of a plan has the address of its manifest, and its tickets satisfy what is known of the tickets for that
  address.
\<close>

definition apps_good :: "BridgeLibs \<Rightarrow> (u64 \<Rightarrow> bytes \<Rightarrow> bool) \<Rightarrow> (bytes, PlanApp) btree \<Rightarrow> bool" where
  "apps_good L J all_apps \<longleftrightarrow> btree_inv all_apps \<and>
     (\<forall>(a, info) \<in> set all_apps. app_address L (pa_manifest info) = a \<and> (\<forall>i \<in> set (pa_tickets info). J i a))"

lemma add_ticket_good:
  assumes "apps_good L J all_apps" "app_address L m = a" "J i a"
  shows "apps_good L J (add_ticket a i m b all_apps)"
proof -
  have "(case map_of all_apps a of Some info \<Rightarrow> info | None \<Rightarrow> \<lparr> pa_manifest = m, pa_tickets = [], pa_balance = 0 \<rparr>) = info \<Longrightarrow>
      app_address L (pa_manifest info) = a \<and> (\<forall>i \<in> set (pa_tickets info). J i a)" for info
    using assms by (auto simp: apps_good_def dest!: map_of_SomeD split: option.splits)
  then show ?thesis
    using assms set_btree_insert unfolding apps_good_def add_ticket_def Let_def
    by (fastforce simp: btree_inv_insert)
qed

lemma collect_good:
  assumes "\<And>i t. (i, t) \<in> set ts \<Longrightarrow> ti_address (tk_info t) = app_address (be_libs env) (tk_manifest t) \<Longrightarrow> J i (ti_address (tk_info t))"
    and "apps_good (be_libs env) J all_apps"
  shows "io_post P (collect_apps env ts all_apps) (\<lambda>v _. apps_good (be_libs env) J v)"
  using assms
proof (induction ts arbitrary: all_apps P)
  case (Cons x ts)
  obtain i t where x: "x = (i, t)" by force
  have ih: "io_post P' (collect_apps env ts all) (\<lambda>v _. apps_good (be_libs env) J v)" if "apps_good (be_libs env) J all" for P' all
    by (rule Cons.IH [OF Cons.prems(1) that]) simp_all
  have good: "apps_good (be_libs env) J (add_ticket (app_address (be_libs env) (tk_manifest t)) i (tk_manifest t) b all_apps)"
    if "ti_address (tk_info t) = app_address (be_libs env) (tk_manifest t)" for b
    by (rule add_ticket_good [OF Cons.prems(2) refl]) (use Cons.prems(1) [of i t] that x in simp)
  show ?case
    using ih good Cons.prems(2) unfolding x
    by (auto simp: Let_def io_post_def dest!: io_bind_OkD) blast+
qed (simp add: io_post_def)

lemma apps_good_mono: "apps_good L J all_apps \<Longrightarrow> (\<And>i a. J i a \<Longrightarrow> J' i a) \<Longrightarrow> apps_good L J' all_apps"
  by (fastforce simp: apps_good_def)

lemma apps_good_ticket: "apps_good L J all_apps \<Longrightarrow> (a, info) \<in> set all_apps \<Longrightarrow> i \<in> set (pa_tickets info) \<Longrightarrow> J i a"
  by (auto simp: apps_good_def)

lemma apps_good_empty: "apps_good L J []"
  by (simp add: apps_good_def btree.inv_empty)

lemma select_apps_good: "apps_good L J all_apps \<Longrightarrow> set (select_apps n all_apps) \<subseteq> set all_apps"
  using select_apps_set(1) [of all_apps n] in_set_takeD unfolding apps_good_def sort_by_balance_def by fastforce

section \<open>From the chain's tickets to the worker's apps\<close>

definition kept :: "'w BridgeState \<Rightarrow> 'w BridgeState \<Rightarrow> bool" where
  "kept s0 s \<longleftrightarrow> bs_worker s = bs_worker s0 \<and> bs_config s = bs_config s0 \<and> bs_worker_pubkey s = bs_worker_pubkey s0 \<and>
     bs_chain_state s = bs_chain_state s0 \<and> (\<exists>l. bs_log s = bs_log s0 @ l)"

lemma kept_calm: "calm (kept s0)"
  by (auto simp: calm_def kept_def)

lemma kept_resolve: "io_inv (kept s0) (try_resolve_deps env)"
  unfolding try_resolve_deps_def
  by (intro io_inv_bind io_inv_pure io_inv_resolve [OF calm_steady [OF kept_calm], where served = "\<lambda>_ _. True" and pk = "bs_worker_pubkey s0" and cs = "bs_chain_state s0"])
    (auto simp: kept_def)

text \<open>The state in which \<open>update_plan\<close> applies the plan.\<close>

lemma update_plan_planned:
  assumes info: "\<And>n w. snd (wc_info (be_client env n) w) = w"
    and run: "update_plan env s = (Ok u, s')"
  shows "\<exists>s1 all_apps. apply_plan env s1 = (Ok u, s') \<and> kept s s1 \<and> apps_good (be_libs env) (\<lambda>_ _. True) all_apps \<and>
    ps_all_apps (bs_planning_state s1) = all_apps \<and>
    ps_selected_apps (bs_planning_state s1) = select_apps (bc_max_apps (bs_config s)) all_apps"
proof -
  from run obtain u1 s1 i s2 all s3 where steps: "try_resolve_deps env s = (Ok u1, s1)" "worker_call env wc_info s1 = (Ok i, s2)"
    "collect_apps env (ps_tickets (bs_planning_state s2)) [] s2 = (Ok all, s3)"
    and last: "io_bind (io_update (\<lambda>s. s\<lparr>bs_planning_state := (bs_planning_state s)\<lparr>
         ps_all_apps := all, ps_selected_apps := select_apps (bc_max_apps (bs_config s)) all,
         ps_bench_app := map_option (\<lambda>address. (address, wi_max_instances (snd i)))
           (cs_bench_app_address (bs_chain_state s))\<rparr>\<rparr>)) (\<lambda>_. apply_plan env) s3 = (Ok u, s')"
    unfolding update_plan_def by (elim io_bind_OkD [THEN exE, THEN exE, THEN conjE]) (auto dest!: io_bind_OkD)
  have "kept s s1" using io_invD [OF kept_resolve _ steps(1)] by (simp add: kept_def)
  moreover have "s2 = awaited env s1" using steps(2) info [of "bs_calls s1" "bs_worker s1"]
    by (auto simp: worker_call_def split: prod.splits)
  ultimately have "kept s s2" using calm_awaited [OF kept_calm] by simp
  then have "kept s s3" using io_invD [OF io_inv_collect [OF calm_steady [OF kept_calm]] _ steps(3)] by simp
  moreover have "apps_good (be_libs env) (\<lambda>_ _. True) all"
    by (rule io_postD [OF collect_good [where P = "\<lambda>_. True"] _ steps(3)]) (simp_all add: apps_good_empty)
  ultimately show ?thesis using last by (auto simp: kept_def)
qed

text \<open>
  C11: A plan the bridge carries out over the worker's RPC services to its end, whatever requests and responses
  get lost meanwhile, leaves the worker with exactly the apps it selected, unless it logged a failure for the app in
  question; it selects at most the configured number of apps, and each is deployed under the address of its manifest.
\<close>

theorem plan_carried_out:
  assumes "\<And>n. be_client env n = rpc_client (conn n) \<and> rpc_usable (conn n) \<and>
      man_address (rc_env (conn n)) = app_address (be_libs env)"
    and "\<And>a. length a = 32 \<Longrightarrow> bl_decode_address (be_libs env) a = Some a"
    and "\<And>a. a \<in> fst ` set (apps (fst (bs_worker s))) \<Longrightarrow> length a = 32"
    and "length (apps (fst (bs_worker s))) < 2 ^ 32"
    and "update_plan env s = (Ok u, s')"
  shows "\<exists>failures selected. bs_log s' = bs_log s @ failures \<and> selected = ps_selected_apps (bs_planning_state s') \<and>
    length selected \<le> bc_max_apps (bs_config s) \<and>
    (\<forall>(a, info) \<in> set selected. app_address (be_libs env) (pa_manifest info) = a) \<and>
    (\<forall>a \<in> fst ` set selected. a \<in> fst ` set (apps (fst (bs_worker s'))) \<or> DeployFailed a \<in> set failures \<or> UploadFailed a \<in> set failures) \<and>
    (\<forall>a \<in> fst ` set (apps (fst (bs_worker s'))). a \<in> fst ` set selected \<or> RemoveFailed a \<in> set failures)"
proof -
  have conn: "\<And>n. be_client env n = rpc_client (conn n) \<and> rpc_usable (conn n)" using assms(1) by blast
  have info: "\<And>n w. snd (wc_info (be_client env n) w) = w" using conn rpc_api.info_same by simp
  from update_plan_planned [OF info assms(5)] obtain s1 all_apps where
    run: "apply_plan env s1 = (Ok u, s')" and kept: "kept s s1" and good: "apps_good (be_libs env) (\<lambda>_ _. True) all_apps"
    and sel: "ps_selected_apps (bs_planning_state s1) = select_apps (bc_max_apps (bs_config s)) all_apps" by blast
  let ?sel = "select_apps (bc_max_apps (bs_config s)) all_apps"
  have addr: "app_address (be_libs env) (pa_manifest info) = a" if "(a, info) \<in> set ?sel" for a info
    using good subsetD [OF select_apps_good [OF good] that] by (auto simp: apps_good_def)
  have w1: "bs_worker s1 = bs_worker s" using kept by (simp add: kept_def)
  have "\<And>a. a \<in> rpc_deployed (bs_worker s1) \<Longrightarrow> length a = 32" "rpc_listable (bs_worker s1)"
    using assms(3,4) by (simp_all add: w1 app_keys_def rpc_listable_def)
  moreover have "\<And>n a info. (a, info) \<in> set (ps_selected_apps (bs_planning_state s1)) \<Longrightarrow> man_address (rc_env (conn n)) (pa_manifest info) = a"
    using addr assms(1) sel by simp
  ultimately obtain l where l: "bs_log s' = bs_log s1 @ l" "bs_planning_state s' = bs_planning_state s1"
    "\<forall>a \<in> fst ` set ?sel. a \<in> rpc_deployed (bs_worker s') \<or> DeployFailed a \<in> set l \<or> UploadFailed a \<in> set l"
    "\<forall>a \<in> rpc_deployed (bs_worker s'). a \<in> fst ` set ?sel \<or> RemoveFailed a \<in> set l"
    using rpc_api.apply_plan_effect [OF conn assms(2) _ _ _ run] unfolding sel by blast
  from kept obtain l0 where "bs_log s1 = bs_log s @ l0" by (auto simp: kept_def)
  moreover have "length ?sel \<le> bc_max_apps (bs_config s)"
    using select_apps_set(2) [of all_apps] good by (simp add: apps_good_def)
  moreover have "\<forall>(a, info) \<in> set ?sel. app_address (be_libs env) (pa_manifest info) = a" using addr by blast
  ultimately show ?thesis
    using l sel by (intro exI [of _ "l0 @ l"] exI [of _ ?sel]) (auto simp: app_keys_def)
qed

section \<open>Indexing the tickets\<close>

text \<open>
  \<open>calls_ok P m\<close>: the operation keeps \<open>P\<close> and does not panic.
\<close>

definition calls_ok :: "('w BridgeState \<Rightarrow> bool) \<Rightarrow> ('w, 'a) bridge_io \<Rightarrow> bool" where
  "calls_ok P m \<longleftrightarrow> triple P m (\<lambda>r s. P s \<and> r \<noteq> Err UnknownTicket)"

named_theorems calls_ok_rules \<open>operations that do not panic\<close>

lemma calls_ok_bind [calls_ok_rules]: "calls_ok P m \<Longrightarrow> (\<And>v. calls_ok P (f v)) \<Longrightarrow> calls_ok P (io_bind m f)"
  unfolding calls_ok_def by (rule triple_bind [where R = "\<lambda>_. P"]) (auto simp: triple_def split: result.split)

lemma calls_ok_pure [calls_ok_rules]:
  "calls_ok P (io_return v)" "r \<noteq> Err UnknownTicket \<Longrightarrow> calls_ok P (io_of r)" "calls_ok P (io_get g)"
  by (simp_all add: calls_ok_def triple_def)

lemma calls_ok_iff: "calls_ok P m \<longleftrightarrow> io_inv P m \<and> (\<forall>s. P s \<longrightarrow> fst (m s) \<noteq> Err UnknownTicket)"
  by (auto simp: calls_ok_def triple_def io_inv_def)

lemma calls_ok_try [calls_ok_rules]: "io_inv P m \<Longrightarrow> calls_ok P (io_try m)"
  by (simp add: calls_ok_iff io_inv_try) (simp add: io_try_eq)

lemma calls_ok_log [calls_ok_rules]: "calm P \<Longrightarrow> calls_ok P (log_error l)"
  by (simp add: calls_ok_iff calm_io)

lemma map_err_no_panic [simp]:
  "map_err RpcFailed r \<noteq> Err UnknownTicket" "map_err ChainFailed r' \<noteq> Err UnknownTicket" "map_err DownloaderFailed r'' \<noteq> Err UnknownTicket"
  by (cases r; cases r'; cases r''; simp)+

lemma ok_or_no_panic [simp]: "ok_or x e = Err UnknownTicket \<longleftrightarrow> x = None \<and> e = UnknownTicket"
  by (cases x) auto

lemma calls_ok_calls [calls_ok_rules]:
  assumes "calm P"
  shows "calls_ok P (chain_call env g)" "calls_ok P (ipfs_read env cid)" "calls_ok P (ipfs_download env cid force)"
  using calm_io [OF assms]
  by (auto simp: calls_ok_iff chain_call_def ipfs_read_def ipfs_download_def split: prod.split)

definition worker_free :: "('w BridgeState \<Rightarrow> bool) \<Rightarrow> bool" where
  "worker_free P \<longleftrightarrow> (\<forall>s w. P s \<longrightarrow> P (s\<lparr>bs_worker := w\<rparr>))"

lemma calls_ok_worker [calls_ok_rules]: "calm P \<Longrightarrow> worker_free P \<Longrightarrow> calls_ok P (worker_call env f)"
  by (simp add: calls_ok_iff io_inv_worker calm_steady worker_free_def) (simp add: worker_call_def split: prod.split)

lemma calls_ok_upload [calls_ok_rules]:
  "calm P \<Longrightarrow> worker_free P \<Longrightarrow> calls_ok P (upload_blobs env a deps)"
proof (induction deps)
  case (Cons x deps)
  then show ?case
    by (cases x) (auto intro!: calls_ok_rules io_inv_worker calm_steady simp: worker_free_def split: result.split)
qed (simp add: calls_ok_pure)

lemma calls_ok_remove [calls_ok_rules]: "calm P \<Longrightarrow> worker_free P \<Longrightarrow> calls_ok P (remove_all env todo)"
  by (induction todo) (auto intro!: calls_ok_rules io_inv_worker calm_steady simp: worker_free_def split: result.split)

lemma ticket_blobs_known: "(\<forall>i \<in> set is. map_of T i \<noteq> None) \<Longrightarrow> \<exists>bs. ticket_blobs T is = Ok bs"
  by (induction "is") auto

lemma calls_ok_deploy:
  assumes "calm P" "worker_free P" "\<And>s. P s \<Longrightarrow> ps_tickets (bs_planning_state s) = T"
    and "\<And>a info i. (a, info) \<in> set todo \<Longrightarrow> i \<in> set (pa_tickets info) \<Longrightarrow> map_of T i \<noteq> None"
  shows "calls_ok P (deploy_all env todo)"
  using assms(4)
proof (induction todo)
  case (Cons x todo)
  obtain a info where x: "x = (a, info)" by force
  from ticket_blobs_known [of "pa_tickets info" T] Cons.prems [of a info] x obtain bs where
    bs: "ticket_blobs T (pa_tickets info) = Ok bs" by auto
  have one: "calls_ok P (upload_and_deploy env a info deps)" for deps
    using assms(1,2) unfolding upload_and_deploy_def
    by (auto intro!: calls_ok_rules io_inv_worker calm_steady simp: worker_free_def split: result.split)
  have "calls_ok P (deploy_one env a info)"
    using one assms(3) bs by (auto simp: deploy_one_def calls_ok_def triple_def io_bind_of)
  moreover have "calls_ok P (deploy_all env todo)" using Cons by (meson list.set_intros(2))
  ultimately show ?case by (simp add: x calls_ok_bind)
qed (simp add: calls_ok_pure)

lemma calls_ok_apply:
  assumes "calm P" "worker_free P" "\<And>s. P s \<Longrightarrow> ps_tickets (bs_planning_state s) = T \<and> ps_selected_apps (bs_planning_state s) = S"
    and "\<And>a info i. (a, info) \<in> set S \<Longrightarrow> i \<in> set (pa_tickets info) \<Longrightarrow> map_of T i \<noteq> None"
  shows "calls_ok P (apply_plan env)"
proof -
  have d: "calls_ok P (io_bind (deploy_all env (filter Q S)) (\<lambda>_. remove_all env r))" for Q r
    by (intro calls_ok_bind calls_ok_remove assms(1,2) calls_ok_deploy [where T = T]) (use assms(3,4) in auto)
  have dec: "decode_apps L l \<noteq> Err UnknownTicket" for L l
    by (induction L l rule: decode_apps.induct) (auto simp: map_ok_def split: option.splits result.splits)
  then have "calls_ok P (io_of (map_ok btree_collect (decode_apps (be_libs env) l)))" for l
    by (intro calls_ok_pure(2)) (simp add: map_ok_def split: result.split, metis)
  then have "calls_ok P (get_running_apps env)"
    unfolding get_running_apps_def by (intro calls_ok_bind calls_ok_worker assms(1,2))
  moreover have "calls_ok P (io_bind (io_get (\<lambda>s. ps_selected_apps (bs_planning_state s))) (\<lambda>selected.
     let to_deploy = filter (\<lambda>(address, _). map_of apps address = None) selected;
         to_remove = map fst (filter (\<lambda>(address, _). map_of selected address = None) apps)
     in io_bind (deploy_all env to_deploy) (\<lambda>_. remove_all env to_remove)))" for apps :: "(bytes, nat) btree"
    using d assms(3) by (simp add: calls_ok_def triple_def Let_def)
  ultimately show ?thesis unfolding apply_plan_def
    by (rule calls_ok_bind [OF calls_ok_worker [OF assms(1,2)] calls_ok_bind])
qed

lemma calls_ok_resolve: "calls_ok (\<lambda>_. True) (try_resolve_deps env)"
proof -
  have calm: "calm (\<lambda>_. True)" by (simp add: calm_def)
  have "calls_ok (\<lambda>_. True) (resolve_tickets env ts)" for ts
  proof (induction ts)
    case (Cons x ts)
    have "calls_ok (\<lambda>_. True) (io_update h)" for h by (simp add: calls_ok_def triple_def)
    with Cons show ?case
      by (cases x, simp only: resolve_tickets.simps, intro calls_ok_bind [OF calls_ok_pure(3)])
        (auto intro!: calls_ok_rules calm calm_steady io_inv_try_resolve split: result.split option.split)
  qed (simp add: calls_ok_def triple_def)
  then show ?thesis unfolding try_resolve_deps_def by (intro calls_ok_bind calls_ok_pure)
qed

lemma calls_ok_collect: "calm P \<Longrightarrow> (\<And>i. calls_ok P (ticket_balance env i)) \<Longrightarrow> calls_ok P (collect_apps env ts all_apps)"
  by (induction ts arbitrary: all_apps) (auto simp: Let_def intro!: calls_ok_bind calls_ok_pure calls_ok_log)

lemma calls_ok_balance: "calm P \<Longrightarrow> calls_ok P (ticket_balance env i)"
  unfolding ticket_balance_def
  by (rule calls_ok_bind, rule calls_ok_pure)
    (auto split: option.split intro!: calls_ok_rules simp: calls_ok_def [of _ "io_update _"] triple_def calmD)

definition has_tickets :: "(u64, Ticket) btree \<Rightarrow> 'w BridgeState \<Rightarrow> bool" where
  "has_tickets T s \<longleftrightarrow> ps_tickets (bs_planning_state s) = T"

definition has_plan :: "(u64, Ticket) btree \<Rightarrow> (bytes, PlanApp) btree \<Rightarrow> 'w BridgeState \<Rightarrow> bool" where
  "has_plan T S s \<longleftrightarrow> has_tickets T s \<and> ps_selected_apps (bs_planning_state s) = S"

lemma plan_calm: "calm (has_tickets T)" "calm (has_plan T S)" "worker_free (has_plan T S)"
  by (simp_all add: calm_def has_tickets_def has_plan_def worker_free_def)

lemma collect_known:
  fixes env :: "'w BridgeEnv"
  shows "triple (has_tickets T) (collect_apps env T []) (\<lambda>r s. case r of Ok all \<Rightarrow> has_tickets T s \<and> apps_good (be_libs env) (\<lambda>i _. map_of T i \<noteq> None) all | Err e \<Rightarrow> r \<noteq> Err UnknownTicket)"
proof -
  have ok: "calls_ok (has_tickets T) (collect_apps env T [])"
    by (rule calls_ok_collect [OF plan_calm(1) calls_ok_balance [OF plan_calm(1)]])
  have known: "io_post (\<lambda>_. True) (collect_apps env T []) (\<lambda>all _. apps_good (be_libs env) (\<lambda>i _. map_of T i \<noteq> None) all)"
    by (rule collect_good) (auto simp: apps_good_empty dest: weak_map_of_SomeI)
  show ?thesis
    unfolding triple_def
  proof (intro allI impI)
    fix s :: "'w BridgeState" assume s: "has_tickets T s"
    obtain r s' where m: "collect_apps env T [] s = (r, s')" by force
    from tripleD [OF ok [unfolded calls_ok_def] s m] have "has_tickets T s'" "r \<noteq> Err UnknownTicket" by simp_all
    moreover have "apps_good (be_libs env) (\<lambda>i _. map_of T i \<noteq> None) all" if "r = Ok all" for all using io_postD [OF known TrueI] m that by blast
    ultimately show "case fst (collect_apps env T [] s) of Ok all \<Rightarrow> has_tickets T (snd (collect_apps env T [] s)) \<and> apps_good (be_libs env) (\<lambda>i _. map_of T i \<noteq> None) all
        | Err e \<Rightarrow> fst (collect_apps env T [] s) \<noteq> Err UnknownTicket"
      unfolding m by (cases r) simp_all
  qed
qed

text \<open>
  C38: Applying a plan never looks up a ticket that is not there: updating the plan does not panic, whatever the
  chain, the worker and the downloader answer.
\<close>

theorem plan_never_panics: "fst (update_plan env s) \<noteq> Err UnknownTicket"
proof -
  let ?Q = "\<lambda>r _. r \<noteq> Err UnknownTicket"
  let ?known = "\<lambda>T. apps_good (be_libs env) (\<lambda>i _. map_of T i \<noteq> None)"
  have applies: "triple (\<lambda>s. \<exists>S. has_plan T S s \<and> set S \<subseteq> set all) (apply_plan env) ?Q" if "?known T all" for T all
  proof -
    have "triple (has_plan T S) (apply_plan env) ?Q" if "set S \<subseteq> set all" for S
    proof -
      have "map_of T i \<noteq> None" if "(a, info) \<in> set S" "i \<in> set (pa_tickets info)" for a info i
        using apps_good_ticket [OF \<open>?known T all\<close>] \<open>set S \<subseteq> set all\<close> that by blast
      then have "calls_ok (has_plan T S) (apply_plan env)"
        by (intro calls_ok_apply [OF plan_calm(2,3), of T S]) (auto simp: has_plan_def has_tickets_def)
      then show ?thesis unfolding calls_ok_def by (rule triple_weaken) simp_all
    qed
    then show ?thesis unfolding triple_def by blast
  qed
  have update: "triple (\<lambda>s. has_tickets T s \<and> ?known T all) (io_update (\<lambda>s. s\<lparr>bs_planning_state := (bs_planning_state s)\<lparr>
         ps_all_apps := all, ps_selected_apps := select_apps (bc_max_apps (bs_config s)) all,
         ps_bench_app := map_option (\<lambda>address. (address, wi_max_instances winfo)) (cs_bench_app_address (bs_chain_state s))\<rparr>\<rparr>))
      (\<lambda>r s. case r of Ok _ \<Rightarrow> (\<exists>S. has_plan T S s \<and> set S \<subseteq> set all) \<and> ?known T all | Err e \<Rightarrow> Err e \<noteq> Err UnknownTicket)"
    for T all winfo using select_apps_good by (fastforce simp: triple_def has_plan_def has_tickets_def)
  have planned: "triple (has_tickets T) (io_bind (collect_apps env T []) (\<lambda>all. io_bind (io_update (\<lambda>s. s\<lparr>bs_planning_state := (bs_planning_state s)\<lparr>
         ps_all_apps := all, ps_selected_apps := select_apps (bc_max_apps (bs_config s)) all,
         ps_bench_app := map_option (\<lambda>address. (address, wi_max_instances winfo)) (cs_bench_app_address (bs_chain_state s))\<rparr>\<rparr>))
      (\<lambda>_. apply_plan env))) ?Q" for T winfo
  proof (rule triple_bind [where R = "\<lambda>all s. has_tickets T s \<and> ?known T all"])
    show "triple (has_tickets T) (collect_apps env T []) (\<lambda>r s. case r of Ok all \<Rightarrow> has_tickets T s \<and> ?known T all | Err e \<Rightarrow> Err e \<noteq> Err UnknownTicket)"
      using collect_known by (rule triple_weaken) (auto split: result.splits)
  next
    fix all
    show "triple (\<lambda>s. has_tickets T s \<and> ?known T all) (io_bind (io_update (\<lambda>s. s\<lparr>bs_planning_state := (bs_planning_state s)\<lparr>
         ps_all_apps := all, ps_selected_apps := select_apps (bc_max_apps (bs_config s)) all,
         ps_bench_app := map_option (\<lambda>address. (address, wi_max_instances winfo)) (cs_bench_app_address (bs_chain_state s))\<rparr>\<rparr>))
      (\<lambda>_. apply_plan env)) ?Q"
      by (rule triple_bind [where R = "\<lambda>_ s. (\<exists>S. has_plan T S s \<and> set S \<subseteq> set all) \<and> ?known T all", OF update])
        (use applies in \<open>auto simp: triple_def\<close>)
  qed
  have free: "calm (\<lambda>_. True)" "worker_free (\<lambda>_. True)" by (simp_all add: calm_def worker_free_def)
  have "calls_ok (\<lambda>_. True) (update_plan env)"
    unfolding update_plan_def case_prod_beta
    by (intro calls_ok_bind [OF calls_ok_resolve] calls_ok_bind [OF calls_ok_worker [OF free]])
      (use planned in \<open>auto simp: calls_ok_def triple_def has_tickets_def\<close>)
  then show ?thesis by (simp add: calls_ok_def triple_def)
qed

section \<open>Settlements\<close>

text \<open>
  A ticket of an app is justified by a state of the chain that has it for that app and for this worker, and by a manifest
  that the downloader gave for the ticket's content and that has the app's address.
\<close>

definition listed ::
  "BridgeLibs \<Rightarrow> (string \<Rightarrow> bytes \<Rightarrow> bool) \<Rightarrow> ChainState set \<Rightarrow> bytes \<Rightarrow> u64 \<Rightarrow> TicketInfo \<Rightarrow> AppManifest \<Rightarrow> bool" where
  "listed L served CS pk i t m \<longleftrightarrow>
     (\<exists>cs \<in> CS. (i, t) \<in> set (cs_tickets cs) \<and> is_ticket_for_worker pk cs t) \<and> resolved_as L served t m"

definition justified ::
  "BridgeLibs \<Rightarrow> (string \<Rightarrow> bytes \<Rightarrow> bool) \<Rightarrow> ChainState set \<Rightarrow> bytes \<Rightarrow> u64 \<Rightarrow> bytes \<Rightarrow> bool" where
  "justified L served CS pk i a \<longleftrightarrow> (\<exists>t m. listed L served CS pk i t m \<and> ti_address t = a \<and> app_address L m = a)"

fun tx_ok :: "(u64 \<Rightarrow> bytes \<Rightarrow> bool) \<Rightarrow> bytes \<Rightarrow> bridge_tx \<Rightarrow> bool" where
  "tx_ok J pk (TicketSettle m sig pubkey claims) \<longleftrightarrow>
     pubkey = pk \<and> length claims \<le> 64 \<and>
     (\<forall>(a, ids) \<in> set claims. a \<in> am_address ` set (ams_apps m) \<and> length ids \<le> 3 \<and> (\<forall>i \<in> set ids. J i a))"
| "tx_ok J pk _ \<longleftrightarrow> True"

definition settle_inv ::
  "'w BridgeEnv \<Rightarrow> (string \<Rightarrow> bytes \<Rightarrow> bool) \<Rightarrow> ChainState set \<Rightarrow> bytes \<Rightarrow> 'w BridgeState \<Rightarrow> bool" where
  "settle_inv env served CS pk s \<longleftrightarrow>
     bs_worker_pubkey s = pk \<and> bs_chain_state s \<in> insert chain_state_default CS \<and>
     (\<forall>(i, t) \<in> set (ps_tickets (bs_planning_state s)). listed (be_libs env) served CS pk i (tk_info t) (tk_manifest t)) \<and>
     apps_good (be_libs env) (justified (be_libs env) served CS pk) (ps_all_apps (bs_planning_state s)) \<and>
     (\<forall>(nonce, tx) \<in> set (bs_sent s). tx_ok (justified (be_libs env) served CS pk) pk tx) \<and>
     offers (be_dl env) served (bs_downloader s) \<and>
     (\<forall>n d. offers (be_dl env) served d \<longrightarrow> offers (be_dl env) served (be_background env n d))"

lemma settle_steady [io_inv_rules]: "steady env (settle_inv env served CS pk)"
  by (simp add: steady_def settle_inv_def awaited_def offers_download)

lemmas settle_log [io_inv_rules] = steady_log [OF settle_steady]

lemma settle_worker [io_inv_rules]: "io_inv (settle_inv env served CS pk) (worker_call env f)"
  by (rule io_inv_worker [OF settle_steady]) (simp add: settle_inv_def)

lemma settle_update:
  "(\<And>s. settle_inv env served CS pk s \<Longrightarrow> settle_inv env served CS pk (h s)) \<Longrightarrow> io_inv (settle_inv env served CS pk) (io_update h)"
  by (simp add: io_inv_def)

lemma settle_nonce [io_inv_rules]: "io_inv (settle_inv env served CS pk) (nonce_next env)"
  unfolding nonce_next_def
  by (auto intro!: io_inv_rules settle_update split: option.split simp: settle_inv_def)

lemma settle_submit:
  assumes "tx_ok (justified (be_libs env) served CS pk) pk tx" shows "io_inv (settle_inv env served CS pk) (submit_tx env tx wait)"
  unfolding submit_tx_def
  by (auto intro!: io_inv_rules settle_update) (use assms in \<open>auto simp: settle_inv_def\<close>)

lemma claim_map_ok:
  assumes "apps_good (be_libs env) (justified (be_libs env) served CS pk) all_apps"
  shows "tx_ok (justified (be_libs env) served CS pk) pk (TicketSettle m sig pk (claim_map all_apps (ams_apps m)))"
proof -
  have "length (List.map_filter f xs) \<le> length xs" for f :: "AppMetrics \<Rightarrow> (bytes \<times> u64 list) option" and xs
    by (induction xs) (auto simp: List.map_filter_simps split: option.split)
  from this [of _ "take 64 (ams_apps m)"] have "length (claim_map all_apps (ams_apps m)) \<le> 64"
    unfolding claim_map_def MAX_APPS_METRICS_def by (rule order_trans) simp
  moreover have "a \<in> am_address ` set (ams_apps m) \<and> length ids \<le> 3 \<and> (\<forall>i \<in> set ids. justified (be_libs env) served CS pk i a)"
    if "(a, ids) \<in> set (claim_map all_apps (ams_apps m))" for a ids
  proof -
    from that obtain e info where e: "e \<in> set (ams_apps m)" "map_of all_apps (am_address e) = Some info" "a = am_address e"
      "ids = take 3 (pa_tickets info)"
      by (auto simp: claim_map_def List.map_filter_def MAX_CLAIM_TICKETS_def dest: in_set_takeD)
    then show ?thesis using apps_good_ticket [OF assms map_of_SomeD] by (auto dest: in_set_takeD)
  qed
  ultimately show ?thesis by auto
qed

lemma settle_metrics [io_inv_rules]: "io_inv (settle_inv env served CS pk) (maybe_report_app_metrics env)"
proof -
  have claims: "io_inv (settle_inv env served CS pk) (io_bind (io_get (\<lambda>s. claim_map (ps_all_apps (bs_planning_state s)) (ams_apps m))) (\<lambda>claims.
       if claims = [] then io_return ()
       else io_bind (io_get bs_worker_pubkey) (\<lambda>pubkey. submit_tx env (TicketSettle m sig pubkey claims) False)))" for m sig
  proof (rule io_inv_bind_get)
    fix s assume s: "settle_inv env served CS pk s"
    then have "tx_ok (justified (be_libs env) served CS pk) pk (TicketSettle m sig pk (claim_map (ps_all_apps (bs_planning_state s)) (ams_apps m)))"
      by (intro claim_map_ok) (auto simp: settle_inv_def)
    then show "io_inv (settle_inv env served CS pk) (if claim_map (ps_all_apps (bs_planning_state s)) (ams_apps m) = [] then io_return ()
       else io_bind (io_get bs_worker_pubkey) (\<lambda>pubkey. submit_tx env (TicketSettle m sig pubkey
              (claim_map (ps_all_apps (bs_planning_state s)) (ams_apps m))) False))"
      by (auto intro!: io_inv_pure io_inv_bind_get settle_submit simp: settle_inv_def)
  qed
  show ?thesis unfolding maybe_report_app_metrics_def
    by (auto intro!: io_inv_rules settle_update claims) (simp add: settle_inv_def)
qed

lemma settle_scores [io_inv_rules]:
  "io_inv (settle_inv env served CS pk) (do_report_bench_score env b)"
  "io_inv (settle_inv env served CS pk) (maybe_report_init_score env)"
  "io_inv (settle_inv env served CS pk) (maybe_report_bench_score env)"
proof -
  show r: "io_inv (settle_inv env served CS pk) (do_report_bench_score env b)" for b
    unfolding do_report_bench_score_def
    by (auto intro!: io_inv_rules settle_update settle_submit split: option.split simp: settle_inv_def)
  show "io_inv (settle_inv env served CS pk) (maybe_report_init_score env)"
    unfolding maybe_report_init_score_def by (auto intro!: io_inv_rules r split: option.split)
  show "io_inv (settle_inv env served CS pk) (maybe_report_bench_score env)"
    unfolding maybe_report_bench_score_def by (auto intro!: io_inv_rules r split: option.split)
qed

lemma settle_apply [io_inv_rules]: "io_inv (settle_inv env served CS pk) (apply_plan env)"
proof -
  have up [io_inv_rules]: "io_inv (settle_inv env served CS pk) (upload_blobs env a deps)" for a deps
    by (induction deps) (auto intro!: io_inv_rules split: result.split)
  have one: "io_inv (settle_inv env served CS pk) (upload_and_deploy env a info deps)" for a info deps
    unfolding upload_and_deploy_def by (auto intro!: io_inv_rules up split: result.split)
  have "io_inv (settle_inv env served CS pk) (deploy_one env a info)" for a info
    unfolding deploy_one_def by (intro io_inv_rules one)
  then have dep: "io_inv (settle_inv env served CS pk) (deploy_all env todo)" for todo
    by (induction todo) (auto intro!: io_inv_rules)
  have rem: "io_inv (settle_inv env served CS pk) (remove_all env todo)" for todo
    by (induction todo) (auto intro!: io_inv_rules split: result.split)
  show ?thesis unfolding apply_plan_def get_running_apps_def Let_def by (intro io_inv_rules dep rem)
qed

lemma settle_resolve [io_inv_rules]: "io_inv (settle_inv env served CS pk) (try_resolve_deps env)"
proof (rule io_invI)
  fix s :: "'a BridgeState" assume s: "settle_inv env served CS pk s"
  define cs where "cs = bs_chain_state s"
  define P where "P s' \<longleftrightarrow> settle_inv env served CS pk s' \<and> bs_chain_state s' = cs" for s' :: "'a BridgeState"
  have "io_inv P (resolve_tickets env (cs_tickets cs))"
  proof (rule io_inv_resolve [where served = served and pk = pk and cs = cs])
    show "steady env P" using settle_steady [of env served CS pk] unfolding steady_def P_def by (auto simp: awaited_def)
  next
    fix i info and t :: Ticket and s' :: "'a BridgeState"
    assume t: "(i, info) \<in> set (cs_tickets cs)" "P s'" "is_ticket_for_worker (bs_worker_pubkey s') (bs_chain_state s') info" "tk_info t = info"
      "resolved_as (be_libs env) served info (tk_manifest t)"
    then have "cs \<in> CS" "bs_worker_pubkey s' = pk" by (auto simp: P_def settle_inv_def chain_state_default_def)
    with t have "listed (be_libs env) served CS pk i (tk_info t) (tk_manifest t)" by (auto simp: listed_def P_def)
    with t(2) show "P (s'\<lparr>bs_planning_state := (bs_planning_state s')\<lparr>ps_tickets := btree_insert i t (ps_tickets (bs_planning_state s'))\<rparr>\<rparr>)"
      using set_btree_insert [of i t "ps_tickets (bs_planning_state s')"] by (auto simp: P_def settle_inv_def)
  qed (auto simp: P_def settle_inv_def)
  then have "P (snd (resolve_tickets env (cs_tickets cs) s))" using s by (simp add: io_inv_def P_def cs_def)
  then show "settle_inv env served CS pk (snd (try_resolve_deps env s))" by (simp add: P_def try_resolve_deps_def cs_def)
qed

lemma settle_plan: "io_inv (settle_inv env served CS pk) (update_plan env)"
proof -
  let ?P = "settle_inv env served CS pk"
  have upd: "io_inv ?P (io_update (\<lambda>s. s\<lparr>bs_planning_state := (bs_planning_state s)\<lparr>
         ps_all_apps := all, ps_selected_apps := select_apps (bc_max_apps (bs_config s)) all,
         ps_bench_app := map_option (\<lambda>address. (address, wi_max_instances winfo)) (cs_bench_app_address (bs_chain_state s))\<rparr>\<rparr>))"
    if "apps_good (be_libs env) (justified (be_libs env) served CS pk) all" for all winfo
    using that by (auto simp: io_inv_def settle_inv_def)
  have "io_inv ?P (io_bind (io_get (\<lambda>s. ps_tickets (bs_planning_state s))) (\<lambda>tickets.
      io_bind (collect_apps env tickets []) (\<lambda>all. io_bind (io_update (\<lambda>s. s\<lparr>bs_planning_state := (bs_planning_state s)\<lparr>
         ps_all_apps := all, ps_selected_apps := select_apps (bc_max_apps (bs_config s)) all,
         ps_bench_app := map_option (\<lambda>address. (address, wi_max_instances winfo)) (cs_bench_app_address (bs_chain_state s))\<rparr>\<rparr>))
      (\<lambda>_. apply_plan env))))" for winfo
  proof (rule io_inv_bind_get, rule io_inv_bind_post [OF io_inv_collect [OF settle_steady] collect_good])
    fix s i t assume "?P s" "(i, t) \<in> set (ps_tickets (bs_planning_state s))"
      "ti_address (tk_info t) = app_address (be_libs env) (tk_manifest t)"
    then have "listed (be_libs env) served CS pk i (tk_info t) (tk_manifest t)"
      "ti_address (tk_info t) = app_address (be_libs env) (tk_manifest t)" by (auto simp: settle_inv_def)
    then show "justified (be_libs env) served CS pk i (ti_address (tk_info t))"
      unfolding justified_def by metis
  qed (intro io_inv_rules upd, assumption | rule apps_good_empty)+
  then show ?thesis unfolding update_plan_def case_prod_beta
    by (rule io_inv_bind [OF settle_resolve io_inv_bind [OF settle_worker]])
qed

lemma settle_tx: "settle_inv env served CS pk s \<Longrightarrow> (nonce, tx) \<in> set (bs_sent s) \<Longrightarrow> tx_ok (justified (be_libs env) served CS pk) pk tx"
  by (auto simp: settle_inv_def)

lemma settle_round:
  assumes "\<And>cs. event = ChainStateReceived (Some cs) \<Longrightarrow> cs \<in> CS"
  shows "io_inv (settle_inv env served CS pk) (bridge_round env event)"
proof -
  let ?P = "settle_inv env served CS pk"
  have set: "io_inv ?P (io_update (set_chain_state cs))" if "cs \<in> CS" for cs
    using that by (auto simp: io_inv_def settle_inv_def set_chain_state_def planning_default_def apps_good_empty)
  have log: "\<And>l. io_inv ?P (log_error l)" by (rule settle_log)
  have fail: "io_inv ?P (io_update (\<lambda>s. s\<lparr>bs_planning_state := (bs_planning_state s)\<lparr>ps_download_failures := f s\<rparr>\<rparr>))" for f
    by (auto simp: io_inv_def settle_inv_def)
  have handle: "io_inv ?P (handle_event env event)"
  proof (cases event)
    case (ChainStateReceived state)
    show ?thesis
    proof (cases state)
      case None
      then show ?thesis unfolding ChainStateReceived handle_event_def bridge_event.case
        by (intro io_inv_rules log io_inv_bind_post [where m = "io_of _" and R = "\<lambda>_. False"]) (auto simp: io_post_def)
    next
      case (Some cs)
      have "cs \<in> CS" using assms Some ChainStateReceived by simp
      then show ?thesis unfolding ChainStateReceived Some handle_event_def bridge_event.case
        by (intro io_inv_rules log io_inv_bind_post [where m = "io_of _" and R = "\<lambda>v. v = cs"]) (auto simp: io_post_def intro!: io_inv_rules set)
    qed
  next
    case (DownloaderEvent r)
    show ?thesis unfolding DownloaderEvent handle_event_def
      by (cases r) (auto split: DlEvent.split intro!: io_inv_rules fail)
  qed (auto simp: handle_event_def intro!: io_inv_rules)
  have reset: "io_inv ?P nonce_reset" by (auto simp: nonce_reset_def io_inv_def settle_inv_def)
  show ?thesis unfolding bridge_round_def maybe_sync_bench_app_def
    by (auto intro!: io_inv_rules reset handle log settle_plan split: option.split)
qed

text \<open>
  C12: Let \<open>served\<close> hold of every content the downloader gives out, at the start and after any of the downloader's own
  steps. Then every settlement the bridge sends, over any sequence of events and with any answers of the chain, the
  worker and the network, claims at most 64 apps of the signed metrics and at most three tickets for each. Each claimed
  ticket is one that a state of the chain the bridge received has for that app and for this worker, and it was resolved:
  its manifest was parsed from a content the downloader served for the ticket's manifest identifier, and the address of
  that manifest is the app's.
\<close>

theorem settlements_justified:
  assumes "bridge_rounds env events s = (r, s')"
    and "bs_planning_state s = planning_default" "bs_chain_state s = chain_state_default" "bs_sent s = []"
    and "(nonce, TicketSettle m sig pubkey claims) \<in> set (bs_sent s')"
    and "offers (be_dl env) served (bs_downloader s)"
    and "\<And>n d. offers (be_dl env) served d \<Longrightarrow> offers (be_dl env) served (be_background env n d)"
  shows "pubkey = bs_worker_pubkey s \<and> length claims \<le> 64 \<and>
    (\<forall>(a, ids) \<in> set claims. a \<in> am_address ` set (ams_apps m) \<and> length ids \<le> 3 \<and>
       (\<forall>i \<in> set ids. \<exists>cs t cid data manifest.
          ChainStateReceived (Some cs) \<in> set events \<and> (i, t) \<in> set (cs_tickets cs) \<and>
          ti_address t = a \<and> is_ticket_for_worker (bs_worker_pubkey s) cs t \<and>
          bl_parse_cid (be_libs env) (ti_manifest_cid t) = Some cid \<and> served cid data \<and>
          bl_parse_manifest (be_libs env) data = Some manifest \<and> app_address (be_libs env) manifest = a))"
proof -
  let ?CS = "{cs. ChainStateReceived (Some cs) \<in> set events}"
  let ?I = "settle_inv env served ?CS (bs_worker_pubkey s)"
  have "io_inv ?I (bridge_rounds env evs)" if "set evs \<subseteq> set events" for evs
    using that by (induction evs) (auto simp del: io_bind_simps io_simps intro!: io_inv_pure io_inv_bind settle_round)
  moreover have "?I s" using assms(2-4,6,7) by (simp add: settle_inv_def planning_default_def apps_good_empty)
  ultimately have "?I s'" using io_invD assms(1) by blast
  from settle_tx [OF this assms(5)] show ?thesis
    unfolding tx_ok.simps justified_def listed_def resolved_as_def by fastforce
qed

section \<open>Examples\<close>

text \<open>
  A bridge to an empty worker, on a chain with one ticket for the benchmark app, whose manifest is downloaded.
\<close>

definition demo_chain :: ChainAnswers where
  "demo_chain =
     \<lparr> ca_worker_known = \<lambda>_. Ok True, ca_worker_session = \<lambda>_. Ok None, ca_computing = \<lambda>_. Ok True,
       ca_ticket_balance = \<lambda>_. Ok 5, ca_paraid = Ok 0, ca_genesis_hash = [], ca_account_nonce = Ok 4, ca_mk_params = Ok (),
       ca_sign = Ok (), ca_submit = \<lambda>_ _. Ok (), ca_finalize = \<lambda>_ _. Ok () \<rparr>"

definition demo_bridge_libs :: "bytes \<Rightarrow> BridgeLibs" where
  "demo_bridge_libs a =
     \<lparr> bl_parse_cid = Some, bl_parse_manifest = \<lambda>_. Some demo_manifest, bl_encode_manifest = \<lambda>_. [], bl_blake2_256 = \<lambda>_. a,
       bl_decode_address = Some, bl_parse_score = \<lambda>_. Some 9, bl_decode_signed_score = Some, bl_parse_account = \<lambda>_. None,
       bl_report = \<lambda>_ _. None, bl_u256 = \<lambda>_. 0,
       bl_decode_metrics = Some, bl_decode_session_update = Some \<rparr>"

definition demo_bridge_env :: "'w WorkerClient \<Rightarrow> bytes \<Rightarrow> 'w BridgeEnv" where
  "demo_bridge_env c a =
     \<lparr> be_client = \<lambda>_. c, be_chain = \<lambda>_. demo_chain, be_background = \<lambda>_ d. d, be_read_error = \<lambda>_. None,
       be_time = \<lambda>n. n, be_dl = demo_cfg, be_libs = demo_bridge_libs a \<rparr>"

definition demo_ticket :: "bytes \<Rightarrow> TicketInfo" where
  "demo_ticket a = \<lparr> ti_address = a, ti_manifest_cid = ''Qm'', ti_workers = WorkerList 0 \<rparr>"

definition demo_chain_state :: "bytes \<Rightarrow> ChainState" where
  "demo_chain_state a =
     \<lparr> cs_tickets = [(7, demo_ticket a)], cs_worker_list_workers = [(0, [[3]])], cs_bench_app_address = None,
       cs_heartbeat_challenge = None \<rparr>"

definition demo_bridge_state :: "'w \<Rightarrow> ChainState \<Rightarrow> 'w BridgeState" where
  "demo_bridge_state w cs =
     \<lparr> bs_worker_pubkey = [3], bs_worker = w, bs_downloader = demo_written, bs_planning_state = planning_default,
       bs_chain_state = cs,
       bs_config = \<lparr> bc_max_apps = 2, bc_metrics_interval = 0, bc_recipient = [], bc_operator = [], bc_pccs_url = [],
         bc_gas_until_report = 0, bc_reuse_instances = True \<rparr>,
       bs_last_metrics_report = 0, bs_init_score_reported = False, bs_next_nonce = None, bs_sent = [], bs_log = [], bs_calls = 0 \<rparr>"

definition demo_conn_rpc :: RpcConn where
  "demo_conn_rpc =
     \<lparr> rc_env = demo_http_env, rc_net = Delivered, rc_blobs = demo_libs, rc_fails = \<lambda>_. False, rc_uuid = [],
       rc_enc_opt_address = \<lambda>_. [] \<rparr>"

definition demo_bridge_worker :: "WorkerState \<times> Store" where
  "demo_bridge_worker = ((worker_new demo_args)\<lparr>ws_session := Some [9]\<rparr>, demo_blob)"

lemma demo_dl_read: "dl_read demo_cfg None ''Qm'' demo_written = Ok (Some [1, 2])"
  by (simp add: dl_read_def demo_dl_defs)

lemma demo_conn_usable: "rpc_usable demo_conn_rpc"
  by (simp add: rpc_usable_def demo_conn_rpc_def demo_http_env_def demo_waits_def demo_codecs_def)

lemma demo_env_simps [simp]:
  "be_client (demo_bridge_env c a) n = c" "be_chain (demo_bridge_env c a) n = demo_chain" "be_background (demo_bridge_env c a) n d = d"
  "be_read_error (demo_bridge_env c a) n = None" "be_time (demo_bridge_env c a) n = n" "be_dl (demo_bridge_env c a) = demo_cfg"
  "be_libs (demo_bridge_env c a) = demo_bridge_libs a" "bl_parse_cid (demo_bridge_libs a) = Some"
  "bl_parse_manifest (demo_bridge_libs a) b = Some demo_manifest" "app_address (demo_bridge_libs a) m = a"
  "ca_ticket_balance demo_chain i = Ok 5" "ca_mk_params demo_chain = Ok ()" "ca_account_nonce demo_chain = Ok 4"
  "ca_sign demo_chain = Ok ()" "ca_submit demo_chain tx k = Ok ()"
  by (simp_all add: demo_bridge_env_def demo_bridge_libs_def demo_chain_def app_address_def manifest_address_def)

lemmas demo_bridge_defs = demo_ticket_def demo_chain_state_def demo_bridge_state_def planning_default_def

lemmas bridge_op_defs = update_plan_def try_resolve_deps_def is_ticket_for_worker_def try_resolve_def
  worker_call_def chain_call_def ipfs_read_def awaited_def io_bind_def io_try_eq apply_plan_def get_running_apps_def
  deploy_one_def upload_and_deploy_def ticket_balance_def add_ticket_def
  select_apps_def sort_by_balance_def btree_collect_def bset_collect_def bset_insert_def Let_def

definition demo_deployed_worker :: WorkerState where
  "demo_deployed_worker = snd (deploy_app demo_naming demo_waits (\<lambda>_. metrics_default) (\<lambda>_. 100) (\<lambda>_. demo_address) [] 0
     demo_manifest True True (fst demo_bridge_worker))"

lemma demo_client_calls:
  "wc_info (rpc_client demo_conn_rpc) w = (Ok (pair_public demo_keys \<lparr> secret = replicate 64 3 \<rparr>, worker_info (fst w)), w)"
  "wc_app_list (rpc_client demo_conn_rpc) 0 (- 1) demo_bridge_worker = (Ok [], demo_bridge_worker)"
  by (simp_all add: rpc_client_def demo_conn_rpc_def demo_http_env_def over_net_def rpc_app_list_def list_apps_def
      demo_bridge_worker_def worker_new_def Let_def)

lemma demo_client_deploy:
  "wc_app_deploy (rpc_client demo_conn_rpc) (Some (manifest_to_pb demo_manifest)) True demo_bridge_worker =
     (Ok demo_address, (demo_deployed_worker, demo_blob))"
proof -
  have "\<exists>info. deploy_app demo_naming demo_waits (\<lambda>_. metrics_default) (\<lambda>_. 100) (\<lambda>_. demo_address) [] 0
      demo_manifest True True (fst demo_bridge_worker) = (Ok info, demo_deployed_worker) \<and> ai_address info = demo_address"
    unfolding demo_deployed_worker_def
    by (simp add: deploy_app_def check_manifest_def demo_manifest_def MAX_MANIFEST_SIZE_def register_app_def
        demo_bridge_worker_def worker_new_def demo_args_def resize_and_wait_def resize_app_instances_def start_app_def
        put_app_def hash_insert_def available_slots_def running_instances_def demo_waits_def app_info_def Let_def)
  moreover have "ws_session (fst demo_bridge_worker) \<noteq> None" "snd demo_bridge_worker = demo_blob"
    by (simp_all add: demo_bridge_worker_def)
  ultimately show ?thesis
    by (auto simp: rpc_client_def demo_conn_rpc_def demo_http_env_def over_net_def on_worker_def rpc_app_deploy_def
        manifest_pb_roundtrip Let_def)
qed

lemma demo_blobs: "required_blobs demo_manifest = []"
  by (simp add: demo_manifest_def)

lemma demo_update_plan:
  "\<exists>s'. update_plan (demo_bridge_env (rpc_client demo_conn_rpc) demo_address)
       (demo_bridge_state demo_bridge_worker (demo_chain_state demo_address)) = (Ok (), s') \<and> bs_log s' = [] \<and>
     map fst (ps_selected_apps (bs_planning_state s')) = [demo_address]"
  by (simp add: demo_bridge_defs bridge_op_defs demo_dl_read demo_client_calls demo_client_deploy demo_blobs)

theorem plan_carried_out_witness:
  "\<exists>s'. update_plan (demo_bridge_env (rpc_client demo_conn_rpc) demo_address)
       (demo_bridge_state demo_bridge_worker (demo_chain_state demo_address)) = (Ok (), s') \<and>
     fst ` set (apps (fst (bs_worker s'))) = {demo_address}"
proof -
  let ?env = "demo_bridge_env (rpc_client demo_conn_rpc) demo_address"
  let ?s = "demo_bridge_state demo_bridge_worker (demo_chain_state demo_address)"
  obtain s' where s': "update_plan ?env ?s = (Ok (), s')" "bs_log s' = []"
    "map fst (ps_selected_apps (bs_planning_state s')) = [demo_address]"
    using demo_update_plan by (elim exE conjE) (rule that)
  have sel: "fst ` set (ps_selected_apps (bs_planning_state s')) = {demo_address}"
    using arg_cong [OF s'(3), of set] by simp
  have log: "bs_log ?s = []" by (simp add: demo_bridge_state_def)
  have addr: "man_address (rc_env demo_conn_rpc) = app_address (be_libs ?env)"
    by (simp add: demo_conn_rpc_def demo_http_env_def fun_eq_iff)
  have dec: "bl_decode_address (be_libs ?env) a = Some a" for a by (simp add: demo_bridge_libs_def)
  have empty: "apps (fst (bs_worker ?s)) = []" by (simp add: demo_bridge_state_def demo_bridge_worker_def worker_new_def)
  have conn: "be_client ?env n = rpc_client demo_conn_rpc \<and> rpc_usable demo_conn_rpc \<and>
      man_address (rc_env demo_conn_rpc) = app_address (be_libs ?env)" for n
    using demo_conn_usable addr by simp
  have "\<exists>failures selected. bs_log s' = bs_log ?s @ failures \<and> selected = ps_selected_apps (bs_planning_state s') \<and>
    length selected \<le> bc_max_apps (bs_config ?s) \<and>
    (\<forall>(a, info) \<in> set selected. app_address (be_libs ?env) (pa_manifest info) = a) \<and>
    (\<forall>a \<in> fst ` set selected. a \<in> fst ` set (apps (fst (bs_worker s'))) \<or> DeployFailed a \<in> set failures \<or> UploadFailed a \<in> set failures) \<and>
    (\<forall>a \<in> fst ` set (apps (fst (bs_worker s'))). a \<in> fst ` set selected \<or> RemoveFailed a \<in> set failures)"
    by (rule plan_carried_out [OF conn dec _ _ s'(1)]) (simp_all only: empty list.set image_empty empty_iff list.size zero_less_power zero_less_numeral)
  then have "\<forall>a \<in> {demo_address}. a \<in> fst ` set (apps (fst (bs_worker s')))"
    "\<forall>a \<in> fst ` set (apps (fst (bs_worker s'))). a \<in> {demo_address}"
    unfolding log s'(2) sel [symmetric] by (elim exE conjE, simp)+
  then have "fst ` set (apps (fst (bs_worker s'))) = {demo_address}" by blast
  with s'(1) show ?thesis by blast
qed

text \<open>A worker that only reports metrics, for the example of a settlement.\<close>

definition demo_usage :: AppsMetrics where
  "demo_usage =
     \<lparr> ams_token = \<lparr> tok_sn = 1, tok_session = [], tok_nonce = [] \<rparr>,
       ams_apps = [\<lparr> am_address = demo_address, am_session = [], am_running_time_ms = 1, am_gas_consumed = 1, am_network_ingress = 0,
         am_network_egress = 0, am_storage_read = 0, am_storage_write = 0, am_storage_used = 0, am_memory_used = 0,
         am_tip = 0, am_starts = 1 \<rparr>] \<rparr>"

definition demo_reporting_client :: "unit WorkerClient" where
  "demo_reporting_client =
     \<lparr> wc_info = \<lambda>w. (Ok ([3], worker_info (worker_new demo_args)), w), wc_app_list = \<lambda>_ _ w. (Ok [], w),
       wc_blob_exists = \<lambda>_ w. (Ok True, w), wc_blob_put = \<lambda>_ _ w. (Ok (), w), wc_app_deploy = \<lambda>_ _ w. (Ok demo_address, w),
       wc_app_remove = \<lambda>_ w. (Ok (), w), wc_app_remove_all = \<lambda>w. (Ok (), w), wc_worker_init = \<lambda>_ _ w. (Err TransportError, w),
       wc_set_bench_app = \<lambda>_ _ w. (Ok (), w), wc_app_metrics = \<lambda>_ w. (Ok (demo_usage, [8]), w),
       wc_app_query = \<lambda>_ w. (Err TransportError, w), wc_sign_register_info = \<lambda>_ _ _ w. (Err TransportError, w) \<rparr>"

lemma demo_reporting_simps [simp]:
  "wc_info demo_reporting_client w = (Ok ([3], worker_info (worker_new demo_args)), w)"
  "wc_app_list demo_reporting_client i n w = (Ok [], w)" "wc_app_deploy demo_reporting_client m b w = (Ok demo_address, w)"
  "wc_set_bench_app demo_reporting_client x k w = (Ok (), w)" "wc_app_metrics demo_reporting_client as w = (Ok (demo_usage, [8]), w)"
  by (simp_all add: demo_reporting_client_def)

abbreviation demo_reporting_env :: "unit BridgeEnv" where
  "demo_reporting_env \<equiv> demo_bridge_env demo_reporting_client demo_address"

text \<open>The parts of the state that do not change in the example.\<close>

definition demo_fixed :: "unit BridgeState \<Rightarrow> bool" where
  "demo_fixed s \<longleftrightarrow> bs_worker_pubkey s = [3] \<and> bs_downloader s = demo_written \<and> bc_metrics_interval (bs_config s) = 0 \<and>
     bc_max_apps (bs_config s) = 2 \<and> ps_bench_app (bs_planning_state s) = None \<and> cs_heartbeat_challenge (bs_chain_state s) = None"

lemma demo_scores:
  "demo_fixed s \<Longrightarrow> maybe_report_init_score demo_reporting_env s = (Ok (), s)"
  "demo_fixed s \<Longrightarrow> maybe_report_bench_score demo_reporting_env s = (Ok (), s)"
  by (simp_all add: maybe_report_init_score_def maybe_report_bench_score_def demo_fixed_def)

lemma demo_plan:
  "demo_fixed s \<Longrightarrow> bs_planning_state s = planning_default \<Longrightarrow> bs_chain_state s = demo_chain_state demo_address \<Longrightarrow>
   \<exists>s' info. update_plan demo_reporting_env s = (Ok (), s') \<and> ps_all_apps (bs_planning_state s') = [(demo_address, info)] \<and>
     pa_tickets info = [7] \<and> demo_fixed s' \<and> bs_sent s' = bs_sent s"
  by (simp add: demo_fixed_def demo_ticket_def demo_chain_state_def planning_default_def bridge_op_defs demo_dl_read demo_blobs)

abbreviation demo_event :: bridge_event where
  "demo_event \<equiv> ChainStateReceived (Some (demo_chain_state demo_address))"

text \<open>A round of the example from the state that \<open>handle_event\<close> leaves.\<close>

lemma demo_round:
  assumes handle: "handle_event demo_reporting_env demo_event (s\<lparr>bs_next_nonce := None\<rparr>) = (Ok False, s1)"
    and s1: "demo_fixed s1" "bs_planning_state s1 = planning_default" "bs_chain_state s1 = demo_chain_state demo_address"
  shows "\<exists>s' info. bridge_round demo_reporting_env demo_event s = (Ok (), s') \<and>
    ps_all_apps (bs_planning_state s') = [(demo_address, info)] \<and> pa_tickets info = [7] \<and> demo_fixed s' \<and> bs_sent s' = bs_sent s1"
proof -
  obtain s2 info where s2: "update_plan demo_reporting_env s1 = (Ok (), s2)" "ps_all_apps (bs_planning_state s2) = [(demo_address, info)]"
    "pa_tickets info = [7]" "demo_fixed s2" "bs_sent s2 = bs_sent s1"
    using demo_plan [OF s1] by (elim exE conjE) (rule that)
  then have "ps_bench_app (bs_planning_state s2) = None" "bs_downloader s2 = demo_written" by (simp_all add: demo_fixed_def)
  then have sync: "maybe_sync_bench_app demo_reporting_env s2 = (Ok (), s2\<lparr>bs_calls := Suc (bs_calls s2)\<rparr>)"
    by (simp add: maybe_sync_bench_app_def worker_call_def awaited_def)
  have "bridge_round demo_reporting_env demo_event s = (Ok (), s2\<lparr>bs_calls := Suc (bs_calls s2)\<rparr>)"
    unfolding bridge_round_def nonce_reset_def io_bind_simps io_bind_eq(1) [where m = "handle_event demo_reporting_env demo_event", OF handle]
    using s2(1) sync by (simp add: ignore_error_def io_bind_def io_try_eq)
  with s2 show ?thesis by (auto simp: demo_fixed_def)
qed

lemma demo_handle:
  assumes "demo_fixed s" "maybe_report_app_metrics demo_reporting_env s = (Ok (), s1)"
  shows "handle_event demo_reporting_env demo_event s =
    (Ok False, s1\<lparr>bs_chain_state := demo_chain_state demo_address, bs_planning_state := planning_default\<rparr>)"
  using demo_scores [OF assms(1)] assms(2)
  by (simp add: handle_event_def ignore_error_def io_bind_def io_try_eq set_chain_state_def)

lemma demo_fixed_set:
  "demo_fixed s \<Longrightarrow> demo_fixed (s\<lparr>bs_chain_state := demo_chain_state a, bs_planning_state := planning_default\<rparr>)"
  by (simp add: demo_fixed_def planning_default_def demo_chain_state_def)

lemma demo_settlement:
  "\<exists>s'. bridge_rounds demo_reporting_env [demo_event, demo_event] (demo_bridge_state () chain_state_default) = (Ok (), s') \<and>
     (4, TicketSettle demo_usage [8] [3] [(demo_address, [7])]) \<in> set (bs_sent s')"
proof -
  let ?s0 = "demo_bridge_state () chain_state_default"
  have f0: "demo_fixed (?s0\<lparr>bs_next_nonce := None\<rparr>)"
    by (simp add: demo_fixed_def demo_bridge_state_def planning_default_def chain_state_default_def)
  have m0: "maybe_report_app_metrics demo_reporting_env (?s0\<lparr>bs_next_nonce := None\<rparr>) = (Ok (), ?s0\<lparr>bs_next_nonce := None, bs_calls := 1\<rparr>)"
    by (simp add: maybe_report_app_metrics_def demo_bridge_state_def planning_default_def worker_call_def awaited_def io_bind_def
        claim_map_def List.map_filter_def demo_usage_def decode_metrics_def demo_bridge_libs_def MAX_APPS_METRICS_def)
  have g0: "demo_fixed (?s0\<lparr>bs_next_nonce := None, bs_calls := 1\<rparr>)" using f0 by (simp add: demo_fixed_def)
  obtain s1 info where s1: "bridge_round demo_reporting_env demo_event ?s0 = (Ok (), s1)"
    "ps_all_apps (bs_planning_state s1) = [(demo_address, info)]" "pa_tickets info = [7]" "demo_fixed s1"
    using demo_round [OF demo_handle [OF f0 m0] demo_fixed_set [OF g0]] by (simp, elim exE conjE) (rule that)
  define s2 where "s2 = snd (maybe_report_app_metrics demo_reporting_env (s1\<lparr>bs_next_nonce := None\<rparr>))"
  have m1: "maybe_report_app_metrics demo_reporting_env (s1\<lparr>bs_next_nonce := None\<rparr>) = (Ok (), s2) \<and> demo_fixed s2 \<and>
      (4, TicketSettle demo_usage [8] [3] [(demo_address, [7])]) \<in> set (bs_sent s2)"
    unfolding s2_def using s1(2-4)
    by (simp add: maybe_report_app_metrics_def worker_call_def chain_call_def awaited_def io_bind_def demo_fixed_def
        claim_map_def List.map_filter_def MAX_APPS_METRICS_def MAX_CLAIM_TICKETS_def submit_tx_def nonce_next_def demo_usage_def
        decode_metrics_def demo_bridge_libs_def)
  have f1: "demo_fixed (s1\<lparr>bs_next_nonce := None\<rparr>)" using s1(4) by (simp add: demo_fixed_def)
  obtain s3 where s3: "bridge_round demo_reporting_env demo_event s1 = (Ok (), s3)" "bs_sent s3 = bs_sent s2"
    using demo_round [OF demo_handle [OF f1 conjunct1 [OF m1]] demo_fixed_set] m1 by (simp, elim exE conjE) (rule that)
  show ?thesis using m1 s3 by (simp add: io_bind_eq(1) [where m = "bridge_round demo_reporting_env demo_event", OF s1(1)]
      io_bind_eq(1) [where m = "bridge_round demo_reporting_env demo_event", OF s3(1)])
qed

theorem settlements_justified_witness:
  "\<exists>s'. bridge_rounds demo_reporting_env [demo_event, demo_event] (demo_bridge_state () chain_state_default) = (Ok (), s') \<and>
     (4, TicketSettle demo_usage [8] [3] [(demo_address, [7])]) \<in> set (bs_sent s') \<and>
     (\<exists>cs t cid manifest. (7, t) \<in> set (cs_tickets cs) \<and> ti_address t = demo_address \<and> is_ticket_for_worker [3] cs t \<and>
        bl_parse_cid (be_libs demo_reporting_env) (ti_manifest_cid t) = Some cid \<and>
        bl_parse_manifest (be_libs demo_reporting_env) [1, 2] = Some manifest \<and>
        app_address (be_libs demo_reporting_env) manifest = demo_address)"
proof -
  define served where "served cid data \<longleftrightarrow> data = [1, 2]" for cid :: string and data :: bytes
  obtain s' where s': "bridge_rounds demo_reporting_env [demo_event, demo_event] (demo_bridge_state () chain_state_default) = (Ok (), s')"
    "(4, TicketSettle demo_usage [8] [3] [(demo_address, [7])]) \<in> set (bs_sent s')"
    using demo_settlement by (elim exE conjE) (rule that)
  have start: "offers (be_dl demo_reporting_env) served (bs_downloader (demo_bridge_state () chain_state_default))"
    by (auto simp: offers_def served_def demo_bridge_state_def dl_read_def demo_dl_defs split: if_splits option.splits)
  have bg: "offers (be_dl demo_reporting_env) served (be_background demo_reporting_env n d)"
    if "offers (be_dl demo_reporting_env) served d" for n d using that by simp
  have "\<exists>cs t cid manifest. (7, t) \<in> set (cs_tickets cs) \<and> ti_address t = demo_address \<and> is_ticket_for_worker [3] cs t \<and>
        bl_parse_cid (be_libs demo_reporting_env) (ti_manifest_cid t) = Some cid \<and>
        bl_parse_manifest (be_libs demo_reporting_env) [1, 2] = Some manifest \<and>
        app_address (be_libs demo_reporting_env) manifest = demo_address"
    using settlements_justified [OF s'(1) _ _ _ s'(2) start bg] unfolding served_def
    by (simp add: demo_bridge_state_def del: demo_env_simps) metis
  with s' show ?thesis by (intro exI [of _ s'] conjI)
qed

end
