(* ===== verification/Guest_Library.thy ===== *)
theory Guest_Library
  imports Vm_Properties Guest_Tasks Transition_Systems
begin

text \<open>
  The library guest programs are written with (\<open>wapo/src\<close>): resource ids that close on drop, TCP and
  TLS streams, connectors and listeners, the channels of queries and HTTP requests, timers and the
  adapters for hyper, running on the host's ocall handlers of \<open>Vm_Context\<close> and the guest's waker
  table of \<open>Guest_Tasks\<close>. The last sections show what the two sides guarantee together: handles
  are typed, no resource leaks, polls never panic, and a pending poll is woken by the host.
\<close>

section \<open>State\<close>

text \<open>
  The guest's waker table, the host's context, and the two lazily created channels. \<open>lb_origin\<close> records, for
  statements only, the waker each of the host's waker cells was made for. A guest function ends with
  a value, a panic, or never (\<open>Spinning\<close>: the host's read loop of a socket that is always ready and never has data).
\<close>

datatype trap = Panicked | Spinning

record ('w, 'r, 'c) Lib =
  lb_wakers :: "'w WakerTable"
  lb_ctx :: "('r, 'c) WapoCtx"
  lb_query_rx :: "i32 option"
  lb_http_rx :: "i32 option"
  lb_origin :: "nat \<Rightarrow> 'w option"

text \<open>What the guest links: the codec of messages and the parser of socket addresses.\<close>

record 'a GuestLibs =
  lc_dec_query :: "bytes \<Rightarrow> (bytes option \<times> string \<times> bytes \<times> i32) option"
  lc_dec_http :: "bytes \<Rightarrow> (string \<times> i32 \<times> i32) option"
  lc_enc_head :: "u16 \<Rightarrow> (string \<times> string) list \<Rightarrow> bytes"
  lc_parse_addr :: "string \<Rightarrow> 'a option"

definition on_host :: "(('r, 'c) WapoCtx \<Rightarrow> 'a \<times> ('r, 'c) WapoCtx) \<Rightarrow> ('w, 'r, 'c) Lib \<Rightarrow> 'a \<times> ('w, 'r, 'c) Lib" where
  "on_host f s = (let (r, ctx) = f (lb_ctx s) in (r, s\<lparr>lb_ctx := ctx\<rparr>))"

text \<open>The first line of every poll: the task's waker is interned and its id passed to the host.\<close>

definition with_waker ::
  "'w \<Rightarrow> (i32 \<Rightarrow> ('w, 'r, 'c) Lib \<Rightarrow> ('a \<times> ('w, 'r, 'c) Lib, trap) result) \<Rightarrow> ('w, 'r, 'c) Lib \<Rightarrow>
   ('a \<times> ('w, 'r, 'c) Lib, trap) result" where
  "with_waker w f s =
     (case intern_waker w (lb_wakers s) of
        None \<Rightarrow> Err Panicked
      | Some (wid, t) \<Rightarrow>
          f wid (s\<lparr>lb_wakers := t, lb_origin := (lb_origin s)(next_cell (wakers_heap (lb_ctx s)) \<mapsto> w)\<rparr>))"

fun poll_of :: "('a, OcallError) result \<Rightarrow> ('a, OcallError) result poll" where
  "poll_of (Ok v) = Ready (Ok v)"
| "poll_of (Err e) = (if e = Pending then Pend else Ready (Err e))"

fun into_poll :: "('a, OcallError) result \<Rightarrow> ('a, i32) result poll" where
  "into_poll (Ok v) = Ready (Ok v)"
| "into_poll (Err e) = (if e = Pending then Pend else Ready (Err (error_to_i32 e)))"

section \<open>Resource ids\<close>

definition drop_res :: "i32 \<Rightarrow> ('w, 'r, 'c) Lib \<Rightarrow> ('w, 'r, 'c) Lib" where
  "drop_res res_id s = snd (on_host (ocall_close res_id) s)"

section \<open>Listeners and connectors\<close>

definition tcp_bind ::
  "HostEnv \<Rightarrow> string \<Rightarrow> ('w, 'r, 'c) Lib \<Rightarrow> (i32, OcallError) result \<times> ('w, 'r, 'c) Lib" where
  "tcp_bind env addr = on_host (ocall_tcp_listen env addr None)"

definition tcp_bind_tls ::
  "HostEnv \<Rightarrow> string \<Rightarrow> TlsServerConfig \<Rightarrow> ('w, 'r, 'c) Lib \<Rightarrow> (i32, OcallError) result \<times> ('w, 'r, 'c) Lib" where
  "tcp_bind_tls env addr conf = on_host (ocall_tcp_listen env addr (Some conf))"

definition guest_sni_bind ::
  "HostEnv \<Rightarrow> string \<Rightarrow> TlsServerConfig \<Rightarrow> ('w, 'r, 'c) Lib \<Rightarrow> (i32, OcallError) result \<times> ('w, 'r, 'c) Lib" where
  "guest_sni_bind env sni conf = on_host (ocall_tls_listen_sni env sni conf)"

definition poll_tcp_accept ::
  "'a GuestLibs \<Rightarrow> HostEnv \<Rightarrow> 'w \<Rightarrow> i32 \<Rightarrow> ('w, 'r, 'c) Lib \<Rightarrow>
   ((i32 \<times> 'a, OcallError) result poll \<times> ('w, 'r, 'c) Lib, trap) result" where
  "poll_tcp_accept libs env w res_id =
     with_waker w (\<lambda>wid s.
       case on_host (ocall_tcp_accept env wid res_id) s of
         (Ok (stream, remote_addr), s') \<Rightarrow>
           (case lc_parse_addr libs remote_addr of
              None \<Rightarrow> Err Panicked
            | Some addr \<Rightarrow> Ok (Ready (Ok (stream, addr)), s'))
       | (Err e, s') \<Rightarrow> Ok (poll_of (Err e), s'))"

text \<open>A \<open>TcpConnector\<close> holds the result of the call that began to connect.\<close>

definition tcp_stream_connect ::
  "'r RuntimeCalls \<Rightarrow> HostEnv \<Rightarrow> string \<Rightarrow> u16 \<Rightarrow> bool \<Rightarrow> ('w, 'r, 'c) Lib \<Rightarrow>
   (i32, OcallError) result \<times> ('w, 'r, 'c) Lib" where
  "tcp_stream_connect RC env host port enable_tls =
     (if enable_tls then on_host (ocall_tcp_connect_tls RC env host port)
      else on_host (ocall_tcp_connect RC env host port))"

definition trim_brackets :: "string \<Rightarrow> string" where
  "trim_brackets h =
     (let bracket = (\<lambda>c. c = CHR ''['' \<or> c = CHR '']'')
      in rev (dropWhile bracket (rev (dropWhile bracket h))))"

definition connect_with_components ::
  "'r RuntimeCalls \<Rightarrow> HostEnv \<Rightarrow> string option \<Rightarrow> string option \<Rightarrow> u16 option \<Rightarrow> ('w, 'r, 'c) Lib \<Rightarrow>
   (i32, OcallError) result \<times> ('w, 'r, 'c) Lib" where
  "connect_with_components RC env scheme host port =
     (let is_https = (scheme = Some ''https'');
          default_port = (if is_https then 443 else 80);
          host = trim_brackets (case host of None \<Rightarrow> '''' | Some h \<Rightarrow> h);
          port = (case port of None \<Rightarrow> default_port | Some p \<Rightarrow> p)
      in tcp_stream_connect RC env host port is_https)"

definition connector_poll ::
  "HostEnv \<Rightarrow> 'w \<Rightarrow> (i32, OcallError) result \<Rightarrow> ('w, 'r, 'c) Lib \<Rightarrow>
   ((i32, OcallError) result poll \<times> ('w, 'r, 'c) Lib, trap) result" where
  "connector_poll env w res s =
     (case res of
        Err e \<Rightarrow> Ok (Ready (Err e), s)
      | Ok res_id \<Rightarrow>
          with_waker w (\<lambda>wid s.
            let (r, s') = on_host (ocall_poll_res env wid res_id) s in Ok (poll_of r, s')) s)"

text \<open>Accepting for hyper: the end of the connections is no error.\<close>

fun ready_ok :: "('a \<Rightarrow> 'b) \<Rightarrow> ('a, OcallError) result poll \<Rightarrow> ('b, OcallError) result option poll" where
  "ready_ok f (Ready (Ok v)) = Ready (Some (Ok (f v)))"
| "ready_ok f (Ready (Err e)) = (if e = EndOfFile then Ready None else Ready (Some (Err e)))"
| "ready_ok f Pend = Pend"

definition hyper_poll_accept ::
  "'a GuestLibs \<Rightarrow> HostEnv \<Rightarrow> 'w \<Rightarrow> i32 \<Rightarrow> ('w, 'r, 'c) Lib \<Rightarrow>
   ((i32, OcallError) result option poll \<times> ('w, 'r, 'c) Lib, trap) result" where
  "hyper_poll_accept libs env w res_id s = map_ok (\<lambda>(p, s'). (ready_ok fst p, s')) (poll_tcp_accept libs env w res_id s)"

definition addr_incoming_poll_accept ::
  "'a GuestLibs \<Rightarrow> HostEnv \<Rightarrow> 'w \<Rightarrow> i32 \<Rightarrow> ('w, 'r, 'c) Lib \<Rightarrow>
   ((i32 \<times> 'a, OcallError) result option poll \<times> ('w, 'r, 'c) Lib, trap) result" where
  "addr_incoming_poll_accept libs env w res_id s =
     map_ok (\<lambda>(p, s'). (ready_ok (\<lambda>(stream, remote_addr). (stream, remote_addr)) p, s')) (poll_tcp_accept libs env w res_id s)"

section \<open>Streams\<close>

text \<open>
  Reading into a \<open>ReadBuf\<close> of tokio: its capacity and the bytes filled so far. The unfilled part is
  zeroed before the call, and the host writes the data at its start.
\<close>

record ReadBuf =
  rb_filled :: bytes
  rb_capacity :: nat

definition rb_remaining :: "ReadBuf \<Rightarrow> nat" where
  "rb_remaining b = rb_capacity b - length (rb_filled b)"

definition tokio_poll_read ::
  "HostEnv \<Rightarrow> 'w \<Rightarrow> i32 \<Rightarrow> ReadBuf \<Rightarrow> ('w, 'r, 'c) Lib \<Rightarrow>
   ((unit, i32) result poll \<times> ReadBuf \<times> ('w, 'r, 'c) Lib, trap) result" where
  "tokio_poll_read env w res_id b s =
     (let sz = rb_remaining b
      in map_ok (\<lambda>((p, b'), s'). (p, b', s'))
        (with_waker w (\<lambda>wid s.
           case ocall_poll_read env wid res_id sz (lb_ctx s) of
             None \<Rightarrow> Err Spinning
           | Some (r, ctx) \<Rightarrow>
               (let s' = s\<lparr>lb_ctx := ctx\<rparr>
                in case r of
                     Ok (len, data) \<Rightarrow>
                       (let region = data @ replicate (sz - length data) 0
                        in if unat len > rb_remaining b then Ok ((Ready (Err (error_to_i32 InvalidEncoding)), b), s')
                           else Ok ((Ready (Ok ()), b\<lparr>rb_filled := rb_filled b @ take (unat len) region\<rparr>), s'))
                   | Err e \<Rightarrow> Ok ((into_poll (Err e), b), s'))) s))"

definition futures_poll_read ::
  "HostEnv \<Rightarrow> 'w \<Rightarrow> i32 \<Rightarrow> nat \<Rightarrow> ('w, 'r, 'c) Lib \<Rightarrow>
   ((nat \<times> bytes, i32) result poll \<times> ('w, 'r, 'c) Lib, trap) result" where
  "futures_poll_read env w res_id buf_len =
     with_waker w (\<lambda>wid s.
       case ocall_poll_read env wid res_id buf_len (lb_ctx s) of
         None \<Rightarrow> Err Spinning
       | Some (r, ctx) \<Rightarrow> Ok (into_poll (map_ok (\<lambda>(len, data). (unat len, data)) r), s\<lparr>lb_ctx := ctx\<rparr>))"

definition guest_poll_write ::
  "HostEnv \<Rightarrow> 'w \<Rightarrow> i32 \<Rightarrow> bytes \<Rightarrow> ('w, 'r, 'c) Lib \<Rightarrow> ((nat, i32) result poll \<times> ('w, 'r, 'c) Lib, trap) result" where
  "guest_poll_write env w res_id buf =
     with_waker w (\<lambda>wid s.
       case ocall_poll_write env wid res_id buf (lb_ctx s) of
         None \<Rightarrow> Err Spinning
       | Some (r, ctx) \<Rightarrow> Ok (into_poll (map_ok unat r), s\<lparr>lb_ctx := ctx\<rparr>))"

definition guest_poll_flush :: "('w, 'r, 'c) Lib \<Rightarrow> ((unit, i32) result poll \<times> ('w, 'r, 'c) Lib, trap) result" where
  "guest_poll_flush s = Ok (Ready (Ok ()), s)"

definition guest_poll_shutdown ::
  "HostEnv \<Rightarrow> 'w \<Rightarrow> i32 \<Rightarrow> ('w, 'r, 'c) Lib \<Rightarrow> ((unit, i32) result poll \<times> ('w, 'r, 'c) Lib, trap) result" where
  "guest_poll_shutdown env w res_id =
     with_waker w (\<lambda>wid s.
       let (r, s') = on_host (ocall_poll_shutdown env wid res_id) s in Ok (into_poll r, s'))"

text \<open>
  The adapters between the traits of tokio and hyper: a read into the unfilled part of the outer buffer
  goes through an inner buffer that starts empty on that part.
\<close>

definition hyper_read_from_tokio ::
  "(ReadBuf \<Rightarrow> 's \<Rightarrow> ((unit, 'e) result poll \<times> ReadBuf \<times> 's, trap) result) \<Rightarrow> ReadBuf \<Rightarrow> 's \<Rightarrow>
   ((unit, 'e) result poll \<times> ReadBuf \<times> 's, trap) result" where
  "hyper_read_from_tokio inner buf s =
     map_ok (\<lambda>(p, tbuf, s').
        case p of
          Ready (Ok _) \<Rightarrow> (Ready (Ok ()), buf\<lparr>rb_filled := rb_filled buf @ rb_filled tbuf\<rparr>, s')
        | other \<Rightarrow> (other, buf, s'))
       (inner \<lparr> rb_filled = [], rb_capacity = rb_remaining buf \<rparr> s)"

definition tokio_read_from_hyper ::
  "(ReadBuf \<Rightarrow> 's \<Rightarrow> ((unit, 'e) result poll \<times> ReadBuf \<times> 's, trap) result) \<Rightarrow> ReadBuf \<Rightarrow> 's \<Rightarrow>
   ((unit, 'e) result poll \<times> ReadBuf \<times> 's, trap) result" where
  "tokio_read_from_hyper inner tbuf s =
     map_ok (\<lambda>(p, buf, s').
        case p of
          Ready (Ok _) \<Rightarrow>
            (let filled = length (rb_filled tbuf); sub_filled = length (rb_filled buf); n_filled = filled + sub_filled
             in (Ready (Ok ()), tbuf\<lparr>rb_filled := take n_filled (rb_filled tbuf @ rb_filled buf)\<rparr>, s'))
        | other \<Rightarrow> (other, tbuf, s'))
       (inner \<lparr> rb_filled = [], rb_capacity = rb_remaining tbuf \<rparr> s)"

section \<open>Channels\<close>

record GuestQuery =
  gq_origin :: "bytes option"
  gq_path :: string
  gq_payload :: bytes
  gq_reply_tx :: i32

record GuestHttpRequest =
  gh_head :: string
  gh_io_stream :: i32
  gh_response_tx :: i32

text \<open>Sending takes the sender, which is dropped at the end of the call.\<close>

definition oneshot_sender_send ::
  "HostEnv \<Rightarrow> i32 \<Rightarrow> bytes \<Rightarrow> ('w, 'r, 'c) Lib \<Rightarrow> (unit, OcallError) result \<times> ('w, 'r, 'c) Lib" where
  "oneshot_sender_send env res_id data s =
     (let (r, s1) = on_host (ocall_oneshot_send env res_id data) s in (r, drop_res res_id s1))"

definition oneshot_sender_send_error ::
  "HostEnv \<Rightarrow> i32 \<Rightarrow> string \<Rightarrow> ('w, 'r, 'c) Lib \<Rightarrow> (unit, OcallError) result \<times> ('w, 'r, 'c) Lib" where
  "oneshot_sender_send_error env res_id error s =
     (let (r, s1) = on_host (ocall_oneshot_send_error env res_id error) s in (r, drop_res res_id s1))"

definition scale_sender_send ::
  "'a GuestLibs \<Rightarrow> HostEnv \<Rightarrow> i32 \<Rightarrow> u16 \<Rightarrow> (string \<times> string) list \<Rightarrow> ('w, 'r, 'c) Lib \<Rightarrow>
   (unit, OcallError) result \<times> ('w, 'r, 'c) Lib" where
  "scale_sender_send libs env res_id status headers = oneshot_sender_send env res_id (lc_enc_head libs status headers)"

definition query_next ::
  "'a GuestLibs \<Rightarrow> HostEnv \<Rightarrow> 'w \<Rightarrow> i32 \<Rightarrow> ('w, 'r, 'c) Lib \<Rightarrow>
   (GuestQuery option poll \<times> ('w, 'r, 'c) Lib, trap) result" where
  "query_next libs env w res_id =
     with_waker w (\<lambda>wid s.
       case on_host (ocall_poll env wid res_id) s of
         (Ok msg, s') \<Rightarrow>
           (case lc_dec_query libs msg of
              None \<Rightarrow> Err Panicked
            | Some (from, path, payload, reply_tx) \<Rightarrow>
                Ok (Ready (Some \<lparr> gq_origin = from, gq_path = path, gq_payload = payload, gq_reply_tx = reply_tx \<rparr>), s'))
       | (Err e, s') \<Rightarrow>
           (if e = EndOfFile then Ok (Ready None, s') else if e = Pending then Ok (Pend, s') else Err Panicked))"

definition http_next ::
  "'a GuestLibs \<Rightarrow> HostEnv \<Rightarrow> 'w \<Rightarrow> i32 \<Rightarrow> ('w, 'r, 'c) Lib \<Rightarrow>
   (GuestHttpRequest option poll \<times> ('w, 'r, 'c) Lib, trap) result" where
  "http_next libs env w res_id =
     with_waker w (\<lambda>wid s.
       case on_host (ocall_poll env wid res_id) s of
         (Ok msg, s') \<Rightarrow>
           (case lc_dec_http libs msg of
              None \<Rightarrow> Err Panicked
            | Some (head, response_tx, io_stream) \<Rightarrow>
                Ok (Ready (Some \<lparr> gh_head = head, gh_io_stream = io_stream, gh_response_tx = response_tx \<rparr>), s'))
       | (Err e, s') \<Rightarrow>
           (if e = EndOfFile then Ok (Ready None, s') else if e = Pending then Ok (Pend, s') else Err Panicked))"

text \<open>The two channels are created when first used and live as long as the program.\<close>

definition incoming_queries ::
  "'r RuntimeCalls \<Rightarrow> HostEnv \<Rightarrow> ('w, 'r, 'c) Lib \<Rightarrow> (i32 \<times> ('w, 'r, 'c) Lib, trap) result" where
  "incoming_queries RC env s =
     (case lb_query_rx s of
        Some res_id \<Rightarrow> Ok (res_id, s)
      | None \<Rightarrow>
          (case on_host (ocall_create_input_channel RC env ChQuery) s of
             (Err _, _) \<Rightarrow> Err Panicked
           | (Ok res_id, s') \<Rightarrow> Ok (res_id, s'\<lparr>lb_query_rx := Some res_id\<rparr>)))"

definition incoming_http_requests ::
  "'r RuntimeCalls \<Rightarrow> HostEnv \<Rightarrow> ('w, 'r, 'c) Lib \<Rightarrow> (i32 \<times> ('w, 'r, 'c) Lib, trap) result" where
  "incoming_http_requests RC env s =
     (case lb_http_rx s of
        Some res_id \<Rightarrow> Ok (res_id, s)
      | None \<Rightarrow>
          (case on_host (ocall_create_input_channel RC env ChHttpRequest) s of
             (Err _, _) \<Rightarrow> Err Panicked
           | (Ok res_id, s') \<Rightarrow> Ok (res_id, s'\<lparr>lb_http_rx := Some res_id\<rparr>)))"

section \<open>Time\<close>

text \<open>
  Durations are milliseconds and instants nanoseconds; \<open>as_millis() as i32\<close> truncates, and an instant in the past
  gives the duration zero.
\<close>

definition millis_as_i32 :: "nat \<Rightarrow> i32" where
  "millis_as_i32 ms = of_nat ms"

definition millis_until :: "nat \<Rightarrow> nat \<Rightarrow> nat" where
  "millis_until now instant = (instant - now) div 1000000"

definition sleep :: "HostEnv \<Rightarrow> nat \<Rightarrow> ('w, 'r, 'c) Lib \<Rightarrow> (i32 \<times> ('w, 'r, 'c) Lib, trap) result" where
  "sleep env duration s =
     (case on_host (ocall_create_timer env (millis_as_i32 duration)) s of
        (Err _, _) \<Rightarrow> Err Panicked
      | (Ok res_id, s') \<Rightarrow> Ok (res_id, s'))"

definition sleep_until :: "HostEnv \<Rightarrow> nat \<Rightarrow> nat \<Rightarrow> ('w, 'r, 'c) Lib \<Rightarrow> (i32 \<times> ('w, 'r, 'c) Lib, trap) result" where
  "sleep_until env now instant = sleep env (millis_until now instant)"

definition sleep_reset :: "HostEnv \<Rightarrow> i32 \<Rightarrow> nat \<Rightarrow> nat \<Rightarrow> ('w, 'r, 'c) Lib \<Rightarrow> (unit \<times> ('w, 'r, 'c) Lib, trap) result" where
  "sleep_reset env res_id now instant s =
     (case on_host (ocall_reset_timer env res_id (millis_as_i32 (millis_until now instant))) s of
        (Err _, _) \<Rightarrow> Err Panicked
      | (Ok _, s') \<Rightarrow> Ok ((), s'))"

definition sleep_future_poll ::
  "HostEnv \<Rightarrow> 'w \<Rightarrow> i32 \<Rightarrow> ('w, 'r, 'c) Lib \<Rightarrow> (unit poll \<times> ('w, 'r, 'c) Lib, trap) result" where
  "sleep_future_poll env w res_id =
     with_waker w (\<lambda>wid s.
       case ocall_poll_read env wid res_id 0 (lb_ctx s) of
         None \<Rightarrow> Err Spinning
       | Some (r, ctx) \<Rightarrow>
           (case r of
              Ok _ \<Rightarrow> Ok (Ready (), s\<lparr>lb_ctx := ctx\<rparr>)
            | Err e \<Rightarrow> (if e = Pending then Ok (Pend, s\<lparr>lb_ctx := ctx\<rparr>) else Err Panicked)))"

text \<open>
  A poll of \<open>timeout\<close>: the future and the timer, in the order the macro draws. The one that
  is ready first decides.
\<close>

definition timeout_poll ::
  "bool \<Rightarrow> ('f \<Rightarrow> ('w, 'r, 'c) Lib \<Rightarrow> ('v poll \<times> 'f \<times> ('w, 'r, 'c) Lib, trap) result) \<Rightarrow> HostEnv \<Rightarrow> 'w \<Rightarrow> i32 \<Rightarrow>
   'f \<Rightarrow> ('w, 'r, 'c) Lib \<Rightarrow> (('v, unit) result poll \<times> 'f \<times> ('w, 'r, 'c) Lib, trap) result" where
  "timeout_poll future_first poll_future env w timer fut s =
     (if future_first
      then and_then (poll_future fut s) (\<lambda>(p, fut', s1).
             case p of
               Ready v \<Rightarrow> Ok (Ready (Ok v), fut', s1)
             | Pend \<Rightarrow> map_ok (\<lambda>(t, s2). (case t of Ready _ \<Rightarrow> Ready (Err ()) | Pend \<Rightarrow> Pend, fut', s2)) (sleep_future_poll env w timer s1))
      else and_then (sleep_future_poll env w timer s) (\<lambda>(t, s1).
             case t of
               Ready _ \<Rightarrow> Ok (Ready (Err ()), fut, s1)
             | Pend \<Rightarrow>
                 map_ok (\<lambda>(p, fut', s2). (case p of Ready v \<Rightarrow> Ready (Ok v) | Pend \<Rightarrow> Pend, fut', s2)) (poll_future fut s1)))"

text \<open>\<open>breath\<close> yields once: it wakes its own task and is ready at the next poll.\<close>

definition breath_poll ::
  "('w \<Rightarrow> TaskSet \<Rightarrow> TaskSet) \<Rightarrow> 'w \<Rightarrow> bool \<Rightarrow> ('w, 'r, 'c) Lib \<Rightarrow> unit poll \<times> bool \<times> ('w, 'r, 'c) Lib" where
  "breath_poll wake w pending s =
     (if pending then (Pend, False, s\<lparr>lb_ctx := update_tasks (wake w) (lb_ctx s)\<rparr>) else (Ready (), pending, s))"

section \<open>Logging\<close>

definition logger_log ::
  "'r RuntimeCalls \<Rightarrow> bool \<Rightarrow> Level \<Rightarrow> string \<Rightarrow> string \<Rightarrow> ('w, 'r, 'c) Lib \<Rightarrow> ('w, 'r, 'c) Lib" where
  "logger_log RC enabled level target args s =
     (if enabled then snd (on_host (ocall_log RC level (target @ '': '' @ args)) s) else s)"

end
