(* ===== verification/Guest_Properties.thy ===== *)
theory Guest_Properties
  imports Guest_Library "HOL-Library.Multiset"
begin

text \<open>
  What the guest library and the host guarantee together. A world is the state of both with the handles the
  program holds and the messages on their way to it; its steps are the operations of the library on handles the
  program holds, the host's messages and wakes, and the guest's processing of wakes, in any order.
\<close>

section \<open>Kinds of resources\<close>

datatype res_kind = KListener | KSni | KConnect | KStream | KSleep | KOneshot | KChannel handle

fun kind_of :: "Resource \<Rightarrow> res_kind" where
  "kind_of (Sleep _) = KSleep"
| "kind_of (ChannelRx h) = KChannel h"
| "kind_of (OneshotTx _) = KOneshot"
| "kind_of (TcpListener _ _) = KListener"
| "kind_of (TcpStream _) = KStream"
| "kind_of (TlsStream _) = KStream"
| "kind_of (TcpConnect _) = KConnect"
| "kind_of (TlsConnect _) = KConnect"
| "kind_of (DuplexStream _) = KStream"
| "kind_of (SniSubscription _) = KSni"

definition kinds :: "ResourceTable \<Rightarrow> i32 \<Rightarrow> res_kind option" where
  "kinds t rid = (case table_get rid t of Ok r \<Rightarrow> Some (kind_of r) | Err _ \<Rightarrow> None)"

text \<open>
  What an ocall may do to the table, beside keeping the rest of what the library relies on: nothing that changes
  a kind, or one new resource if it returns its id.
\<close>

definition chans :: "('r, 'c) WapoCtx \<Rightarrow> handle option \<times> handle option \<times> (handle \<times> guest_msg) list" where
  "chans ctx = (query_tx ctx, http_connect_tx ctx, pushed ctx)"

definition same_kinds :: "('r, 'c) WapoCtx \<Rightarrow> ('r, 'c) WapoCtx \<Rightarrow> bool" where
  "same_kinds ctx ctx' \<longleftrightarrow> chans ctx' = chans ctx \<and>
     (table_ok (resources ctx) \<longrightarrow> table_ok (resources ctx') \<and> kinds (resources ctx') = kinds (resources ctx))"

fun adds :: "res_kind \<Rightarrow> (i32, 'e) result \<Rightarrow> ('r, 'c) WapoCtx \<Rightarrow> ('r, 'c) WapoCtx \<Rightarrow> bool" where
  "adds k (Err _) ctx ctx' \<longleftrightarrow> same_kinds ctx ctx'"
| "adds k (Ok rid) ctx ctx' \<longleftrightarrow> chans ctx' = chans ctx \<and>
     (table_ok (resources ctx) \<longrightarrow> table_ok (resources ctx') \<and> kinds (resources ctx) rid = None \<and>
        kinds (resources ctx') = (kinds (resources ctx))(rid \<mapsto> k))"

definition removes :: "i32 \<Rightarrow> ('r, 'c) WapoCtx \<Rightarrow> ('r, 'c) WapoCtx \<Rightarrow> bool" where
  "removes rid ctx ctx' \<longleftrightarrow> chans ctx' = chans ctx \<and>
     (table_ok (resources ctx) \<longrightarrow> table_ok (resources ctx') \<and> kinds (resources ctx') = (kinds (resources ctx))(rid := None))"

lemma same_kinds_trans: "same_kinds a b \<Longrightarrow> same_kinds b c \<Longrightarrow> same_kinds a c"
  by (simp add: same_kinds_def)

lemma same_kinds_refl [simp]: "same_kinds ctx ctx"
  by (simp add: same_kinds_def)

lemma adds_same: "same_kinds a b \<Longrightarrow> adds k r b c \<Longrightarrow> adds k r a c"
  by (cases r) (auto simp: same_kinds_def)

lemma same_kinds_field:
  "resources ctx' = resources ctx \<Longrightarrow> chans ctx' = chans ctx \<Longrightarrow> same_kinds ctx ctx'"
  by (simp add: same_kinds_def)

lemma same_kinds_updates [simp]:
  "same_kinds ctx (charge g ctx)" "same_kinds ctx (update_meter f ctx)" "same_kinds ctx (update_tasks f' ctx)"
  "same_kinds ctx (end_poll_context b c ctx)" "same_kinds ctx (snd (make_poll_context env wid ctx))"
  by (simp_all add: same_kinds_field chans_def charge_def update_meter_def update_tasks_def end_poll_context_def
      make_poll_context_def Let_def split: prod.splits)

lemma adds_push: "ctx_push res ctx = (r, ctx') \<Longrightarrow> adds (kind_of res) r ctx ctx'"
  using ctx_push_lookup [of ctx res r ctx']
  by (cases r) (auto simp: kinds_def chans_def same_kinds_def fun_eq_iff ctx_push_def Let_def split: prod.splits)

lemma removes_close: "ctx_close rid ctx = (r, ctx') \<Longrightarrow> removes rid ctx ctx'"
  using ctx_close_lookup [of ctx rid r ctx']
  by (auto simp: removes_def kinds_def chans_def fun_eq_iff ctx_close_def Let_def split: prod.splits option.splits)

lemma kinds_set:
  assumes "table_ok t" "table_get rid t = Ok r" "kind_of r' = kind_of r"
  shows "table_ok (table_set rid r' t) \<and> kinds (table_set rid r' t) = kinds t"
  using table_set_lookup [OF assms(1,2), of r'] assms(2,3) table_set_ok [OF assms(1)]
  by (auto simp: kinds_def fun_eq_iff)

lemma same_kinds_set:
  assumes "table_get rid (resources ctx) = Ok r" "kind_of r' = kind_of r"
  shows "same_kinds ctx (ctx\<lparr>resources := table_set rid r' (resources ctx), meter := m\<rparr>)"
  using kinds_set [OF _ assms] by (simp add: same_kinds_def chans_def)

subsection \<open>Polling a resource keeps its kind\<close>

lemma poll_read_kind: "resource_poll_read io n res m = Some (r, res', m') \<Longrightarrow> kind_of res' = kind_of res"
  by (cases res) (auto split: prod.splits poll.splits)

lemma poll_write_kind: "resource_poll_write io d res m = Some (r, res', m') \<Longrightarrow> kind_of res' = kind_of res"
  by (cases res) (auto split: prod.splits poll.splits)

lemma poll_shutdown_kind: "resource_poll_shutdown io res m = (r, res', m') \<Longrightarrow> kind_of res' = kind_of res"
  by (cases res) (auto split: prod.splits poll.splits)

lemma poll_res_kind: "resource_poll_res io res m = (Ok new, m') \<Longrightarrow> kind_of new = KStream"
  by (cases res) (auto split: prod.splits poll.splits result.splits)

section \<open>What every ocall of the library does\<close>

text \<open>
  The waker cell of a poll: made for the id passed, dropped at the end of the call, and kept alive if the object
  polled took a clone. \<open>pend\<close> tells whether the call reported that it is pending.
\<close>

definition poll_heap :: "HostEnv \<Rightarrow> i32 \<Rightarrow> bool \<Rightarrow> WakerHeap \<Rightarrow> WakerHeap" where
  "poll_heap env wid kept h =
     (let (c, h1) = from_id wid (cur_task env) (cur_parent env) h
      in drop_waker c (if kept then clone_waker c h1 else h1))"

definition polled :: "HostEnv \<Rightarrow> i32 \<Rightarrow> ('a, OcallError) result \<Rightarrow> ('r, 'c) WapoCtx \<Rightarrow> ('r, 'c) WapoCtx \<Rightarrow> bool" where
  "polled env wid r ctx ctx' \<longleftrightarrow>
     (\<exists>kept. wakers_heap ctx' = poll_heap env wid kept (wakers_heap ctx) \<and> (r = Err Pending \<longrightarrow> kept = retains env))"

lemma table_get_pending: "table_get rid t \<noteq> Err Pending"
  by (simp add: table_get_def ok_or_def split: option.splits)

lemma ctx_push_pending: "ctx_push res ctx = (r, ctx') \<Longrightarrow> r \<noteq> Err Pending \<and> wakers_heap ctx' = wakers_heap ctx"
  by (auto simp: ctx_push_def table_push_def Let_def split: prod.splits option.splits if_splits)

lemma end_poll_heap [simp]:
  "wakers_heap (end_poll_context kept c ctx) =
     drop_waker c (if kept then clone_waker c (wakers_heap ctx) else wakers_heap ctx)"
  by (simp add: end_poll_context_def Let_def)

lemma polledI:
  assumes "make_poll_context env wid (charge g ctx) = (c, ctx1)"
    and "wakers_heap ctx' = drop_waker c (if kept then clone_waker c (wakers_heap ctx1) else wakers_heap ctx1)"
    and "r = Err Pending \<longrightarrow> kept = retains env"
  shows "polled env wid r ctx ctx'"
  using assms unfolding polled_def
  by (intro exI [of _ kept]) (auto simp: make_poll_context_def poll_heap_def charge_def Let_def split: prod.splits)

lemma make_poll_resources:
  "make_poll_context env wid (charge g ctx) = (c, ctx1) \<Longrightarrow> same_kinds ctx ctx1"
  using same_kinds_trans [OF same_kinds_updates(1) [of ctx g] same_kinds_updates(5) [of "charge g ctx" env wid]] by simp

lemma end_poll_same: "same_kinds ctx ctx1 \<Longrightarrow> same_kinds ctx (end_poll_context b c ctx1)"
  by (erule same_kinds_trans) (rule same_kinds_updates)

lemma ocall_poll_effect:
  assumes "ocall_poll env wid rid ctx = (r, ctx')"
  shows "same_kinds ctx ctx' \<and> polled env wid r ctx ctx'"
proof -
  obtain c ctx1 where m: "make_poll_context env wid (charge 200 ctx) = (c, ctx1)" by fastforce
  note k = make_poll_resources [OF m]
  show ?thesis
  proof (cases "table_get rid (resources ctx1)")
    case (Ok res)
    with assms m have "ctx' = end_poll_context (retains env) c ctx1" by (auto simp: ocall_poll_def)
    then show ?thesis using end_poll_same [OF k] polledI [OF m, of ctx' "retains env" r] by simp
  next
    case (Err e)
    with assms m have "ctx' = end_poll_context False c ctx1" "r = Err e" by (auto simp: ocall_poll_def)
    then show ?thesis using Err table_get_pending end_poll_same [OF k] polledI [OF m, of ctx' False r] by auto
  qed
qed

lemma set_poll_effect:
  assumes m: "make_poll_context env wid (charge g ctx) = (c, ctx1)"
    and "table_get rid (resources ctx1) = Ok res" "kind_of res' = kind_of res"
    and "ctx' = end_poll_context (retains env) c (ctx1\<lparr>resources := table_set rid res' (resources ctx1), meter := mt\<rparr>)"
  shows "same_kinds ctx ctx' \<and> polled env wid r ctx ctx'"
proof
  show "same_kinds ctx ctx'"
    using same_kinds_trans [OF make_poll_resources [OF m] same_kinds_set [OF assms(2,3)]] assms(4) end_poll_same by blast
  show "polled env wid r ctx ctx'"
    using assms(4) polledI [OF m, of ctx' "retains env" r] by simp
qed

lemma failed_poll_effect:
  assumes m: "make_poll_context env wid (charge g ctx) = (c, ctx1)" and "ctx' = end_poll_context False c ctx1" "r \<noteq> Err Pending"
  shows "same_kinds ctx ctx' \<and> polled env wid r ctx ctx'"
  using assms end_poll_same [OF make_poll_resources [OF m]] polledI [OF m, of ctx' False r] by auto

lemma ocall_poll_read_effect:
  assumes "ocall_poll_read env wid rid n ctx = Some (r, ctx')"
  shows "same_kinds ctx ctx' \<and> polled env wid r ctx ctx'"
proof -
  obtain c ctx1 where m: "make_poll_context env wid (charge 200 ctx) = (c, ctx1)" by fastforce
  show ?thesis
  proof (cases "table_get rid (resources ctx1)")
    case (Ok res)
    with assms m obtain res' mt where p: "resource_poll_read (IoEnv.truncate env) n res (meter ctx1) = Some (r, res', mt)"
      and "ctx' = end_poll_context (retains env) c (ctx1\<lparr>resources := table_set rid res' (resources ctx1), meter := mt\<rparr>)"
      by (auto simp: ocall_poll_read_def)
    then show ?thesis using set_poll_effect [OF m Ok poll_read_kind [OF p]] by blast
  next
    case (Err e)
    with assms m show ?thesis
      using failed_poll_effect [OF m] table_get_pending [of rid "resources ctx1"] by (auto simp: ocall_poll_read_def)
  qed
qed

lemma ocall_poll_write_effect:
  assumes "ocall_poll_write env wid rid d ctx = Some (r, ctx')"
  shows "same_kinds ctx ctx' \<and> polled env wid r ctx ctx'"
proof -
  obtain c ctx1 where m: "make_poll_context env wid (charge 200 ctx) = (c, ctx1)" by fastforce
  show ?thesis
  proof (cases "table_get rid (resources ctx1)")
    case (Ok res)
    with assms m obtain res' mt where p: "resource_poll_write (IoEnv.truncate env) d res (meter ctx1) = Some (r, res', mt)"
      and "ctx' = end_poll_context (retains env) c (ctx1\<lparr>resources := table_set rid res' (resources ctx1), meter := mt\<rparr>)"
      by (auto simp: ocall_poll_write_def)
    then show ?thesis using set_poll_effect [OF m Ok poll_write_kind [OF p]] by blast
  next
    case (Err e)
    with assms m show ?thesis
      using failed_poll_effect [OF m] table_get_pending [of rid "resources ctx1"] by (auto simp: ocall_poll_write_def)
  qed
qed

lemma ocall_poll_shutdown_effect:
  assumes "ocall_poll_shutdown env wid rid ctx = (r, ctx')"
  shows "same_kinds ctx ctx' \<and> polled env wid r ctx ctx'"
proof -
  obtain c ctx1 where m: "make_poll_context env wid (charge 200 ctx) = (c, ctx1)" by fastforce
  show ?thesis
  proof (cases "table_get rid (resources ctx1)")
    case (Ok res)
    obtain r' res' mt where p: "resource_poll_shutdown (IoEnv.truncate env) res (meter ctx1) = (r', res', mt)"
      by (metis prod_cases3)
    with assms m Ok have "ctx' = end_poll_context (retains env) c (ctx1\<lparr>resources := table_set rid res' (resources ctx1), meter := mt\<rparr>)"
      by (auto simp: ocall_poll_shutdown_def)
    then show ?thesis using set_poll_effect [OF m Ok poll_shutdown_kind [OF p]] by blast
  next
    case (Err e)
    with assms m show ?thesis
      using failed_poll_effect [OF m] table_get_pending [of rid "resources ctx1"] by (auto simp: ocall_poll_shutdown_def)
  qed
qed

lemma polled_push:
  assumes "polled env wid r1 ctx ctx1" "ctx_push res ctx1 = (r, ctx')" "r1 \<noteq> Err Pending"
  shows "polled env wid r ctx ctx'"
  using assms ctx_push_pending [OF assms(2)] by (auto simp: polled_def)

lemma ocall_poll_res_effect:
  assumes "ocall_poll_res env wid rid ctx = (r, ctx')"
  shows "adds KStream r ctx ctx' \<and> polled env wid r ctx ctx'"
proof -
  obtain c ctx1 where m: "make_poll_context env wid (charge 200 ctx) = (c, ctx1)" by fastforce
  note k = make_poll_resources [OF m]
  show ?thesis
  proof (cases "table_get rid (resources ctx1)")
    case (Err e)
    with assms m have "ctx' = end_poll_context False c ctx1" "r = Err e" by (auto simp: ocall_poll_res_def)
    then show ?thesis using failed_poll_effect [OF m, of ctx' r] Err table_get_pending [of rid "resources ctx1"] by auto
  next
    case (Ok res)
    obtain r' mt where p: "resource_poll_res (IoEnv.truncate env) res (meter ctx1) = (r', mt)" by fastforce
    define ctx2 where "ctx2 = end_poll_context (retains env) c (ctx1\<lparr>meter := mt\<rparr>)"
    have k1: "same_kinds ctx1 (ctx1\<lparr>meter := mt\<rparr>)" by (rule same_kinds_field) (simp_all add: chans_def)
    have k2: "same_kinds ctx ctx2" unfolding ctx2_def by (intro end_poll_same same_kinds_trans [OF k k1])
    have w2: "polled env wid x ctx ctx2" for x :: "(i32, OcallError) result"
      using polledI [OF m, of ctx2 "retains env" x] by (simp add: ctx2_def)
    show ?thesis
    proof (cases r')
      case (Err e)
      with assms m Ok p have "r = Err e" "ctx' = ctx2" by (auto simp: ocall_poll_res_def ctx2_def)
      then show ?thesis using k2 w2 by simp
    next
      case (Ok new_res)
      with assms m \<open>table_get rid (resources ctx1) = Ok res\<close> p have push: "ctx_push new_res ctx2 = (r, ctx')"
        by (auto simp: ocall_poll_res_def ctx2_def)
      have "kind_of new_res = KStream" using p Ok poll_res_kind by blast
      then show ?thesis
        using adds_same [OF k2 adds_push [OF push]] polled_push [OF w2 [of "Ok 0"] push] by simp
    qed
  qed
qed

lemma push_accepted_effect:
  assumes "same_kinds ctx ctx1" "polled env wid (Ok 0 :: (i32, OcallError) result) ctx ctx1" "push_accepted res addr ctx1 = (r, ctx')"
    and "kind_of res = KStream"
  shows "adds KStream (map_ok fst r) ctx ctx' \<and> polled env wid r ctx ctx'"
proof -
  obtain r1 where push: "ctx_push res ctx1 = (r1, ctx')" "r = map_ok (\<lambda>i. (i, addr)) r1"
    using assms(3) by (auto simp: push_accepted_def Let_def split: prod.splits)
  have "map_ok fst r = r1" by (cases r1) (simp_all add: push(2))
  moreover have "polled env wid r ctx ctx'"
    using polled_push [OF assms(2) push(1)] by (cases r1) (auto simp: push(2) polled_def)
  ultimately show ?thesis using adds_same [OF assms(1) adds_push [OF push(1)]] assms(4) by simp
qed

lemma polled_meter [simp]:
  "polled env wid r ctx (update_meter f ctx') \<longleftrightarrow> polled env wid r ctx ctx'"
  by (simp add: polled_def update_meter_def)

lemma same_kinds_meter [simp]: "same_kinds ctx (update_meter f ctx') \<longleftrightarrow> same_kinds ctx ctx'"
  by (simp add: same_kinds_def chans_def update_meter_def)

lemma ocall_tcp_accept_effect:
  assumes "ocall_tcp_accept env wid rid ctx = (r, ctx')"
  shows "adds KStream (map_ok fst r) ctx ctx' \<and> polled env wid r ctx ctx'"
proof -
  obtain c ctx1 where m: "make_poll_context env wid (charge 1000 ctx) = (c, ctx1)" by fastforce
  define ctx2 where "ctx2 = end_poll_context (retains env) c ctx1"
  have k2: "same_kinds ctx ctx2" unfolding ctx2_def by (intro end_poll_same make_poll_resources [OF m])
  have w2: "polled env wid r ctx ctx2" "polled env wid (Ok 0 :: (i32, OcallError) result) ctx ctx2"
    using polledI [OF m, of ctx2 "retains env"] by (simp_all add: ctx2_def)
  have failed: ?thesis if "ctx' = end_poll_context False c ctx1" "r = Err e" "e \<noteq> Pending" for e
    using failed_poll_effect [OF m that(1), of r] that by simp
  have waits: ?thesis if "ctx' = ctx2" "r = Err e" for e using that k2 w2 by simp
  have accepted: ?thesis if "push_accepted res addr ctx3 = (r, ctx')" "kind_of res = KStream"
      "same_kinds ctx ctx3" "polled env wid (Ok 0 :: (i32, OcallError) result) ctx ctx3" for res addr ctx3
    using push_accepted_effect [OF that(3,4,1,2)] .
  show ?thesis
  proof (cases "table_get rid (resources ctx1)")
    case (Err e)
    with assms m failed [of e] table_get_pending [of rid "resources ctx1"] show ?thesis by (auto simp: ocall_tcp_accept_def)
  next
    case (Ok res)
    show ?thesis
    proof (cases res)
      case (TcpListener listener tls)
      note r = assms [unfolded ocall_tcp_accept_def, simplified m Ok TcpListener prod.case result.case Resource.case ctx2_def [symmetric] Let_def]
      show ?thesis
      proof (cases "tcp_accepting env listener")
        case (Ready x)
        with r waits accepted k2 w2 show ?thesis by (cases x; cases tls) auto
      qed (use r waits in auto)
    next
      case (SniSubscription sub)
      note r = assms [unfolded ocall_tcp_accept_def, simplified m Ok SniSubscription prod.case result.case Resource.case ctx2_def [symmetric] Let_def]
      show ?thesis
      proof (cases "sni_next env sub")
        case (Ready x)
        with r waits accepted k2 w2 show ?thesis by (cases x) auto
      qed (use r waits in auto)
    qed (use assms m Ok failed in \<open>auto simp: ocall_tcp_accept_def\<close>)
  qed
qed

text \<open>An ocall that makes a resource and leaves the wakers alone.\<close>

definition creates :: "res_kind \<Rightarrow> (i32, OcallError) result \<Rightarrow> ('r, 'c) WapoCtx \<Rightarrow> ('r, 'c) WapoCtx \<Rightarrow> bool" where
  "creates k r ctx ctx' \<longleftrightarrow> adds k r ctx ctx' \<and> wakers_heap ctx' = wakers_heap ctx"

lemma creates_fail: "resources ctx' = resources ctx \<Longrightarrow> chans ctx' = chans ctx \<Longrightarrow> wakers_heap ctx' = wakers_heap ctx \<Longrightarrow> creates k (Err e) ctx ctx'"
  by (simp add: creates_def same_kinds_field)

lemma creates_push:
  assumes "ctx_push res ctx1 = (r, ctx')" "resources ctx1 = resources ctx" "chans ctx1 = chans ctx" "wakers_heap ctx1 = wakers_heap ctx"
    and "kind_of res = k"
  shows "creates k r ctx ctx'"
  using adds_same [OF same_kinds_field [OF assms(2,3)] adds_push [OF assms(1)]] ctx_push_pending [OF assms(1)] assms(4,5)
  by (simp add: creates_def)

lemma update_fields [simp]:
  "resources (charge g ctx) = resources ctx" "chans (charge g ctx) = chans ctx" "wakers_heap (charge g ctx) = wakers_heap ctx"
  "resources (update_meter f ctx) = resources ctx" "chans (update_meter f ctx) = chans ctx" "wakers_heap (update_meter f ctx) = wakers_heap ctx"
  "runtime (charge g ctx) = runtime ctx" "config (charge g ctx) = config ctx"
  by (simp_all add: charge_def update_meter_def chans_def)

lemma ocall_tcp_listen_effect: "ocall_tcp_listen env addr tls ctx = (r, ctx') \<Longrightarrow> creates KListener r ctx ctx'"
  by (auto simp: ocall_tcp_listen_def Let_def intro: creates_fail creates_push split: option.splits if_splits result.splits)

lemma ocall_tls_listen_sni_effect: "ocall_tls_listen_sni env sni conf ctx = (r, ctx') \<Longrightarrow> creates KSni r ctx ctx'"
  by (cases conf) (auto simp: Let_def intro: creates_fail creates_push split: option.splits)

lemma ocall_tcp_connect_effect: "ocall_tcp_connect RC env host port ctx = (r, ctx') \<Longrightarrow> creates KConnect r ctx ctx'"
  by (auto simp: ocall_tcp_connect_def Let_def intro: creates_fail creates_push split: if_splits)

lemma ocall_tcp_connect_tls_effect: "ocall_tcp_connect_tls RC env host port ctx = (r, ctx') \<Longrightarrow> creates KConnect r ctx ctx'"
  by (auto simp: ocall_tcp_connect_tls_def Let_def intro: creates_fail creates_push split: if_splits)

lemma ocall_create_timer_effect: "ocall_create_timer env ms ctx = (r, ctx') \<Longrightarrow> creates KSleep r ctx ctx'"
  by (auto simp: ocall_create_timer_def intro: creates_push)

lemma ocall_reset_timer_effect:
  "ocall_reset_timer env rid ms ctx = (r, ctx') \<Longrightarrow> same_kinds ctx ctx' \<and> wakers_heap ctx' = wakers_heap ctx"
  by (auto simp: ocall_reset_timer_def Let_def split: result.splits Resource.splits if_splits)

lemma ocall_log_effect:
  "ocall_log RC lvl msg ctx = (r, ctx') \<Longrightarrow> same_kinds ctx ctx' \<and> wakers_heap ctx' = wakers_heap ctx"
  by (auto simp: ocall_log_def Let_def intro!: same_kinds_field) (simp add: chans_def charge_def)

lemma ocall_close_effect:
  "ocall_close rid ctx = (r, ctx') \<Longrightarrow> removes rid ctx ctx' \<and> wakers_heap ctx' = wakers_heap ctx"
  using removes_close [of rid "charge 200 ctx" r ctx']
  by (auto simp: ocall_close_def removes_def ctx_close_def Let_def split: prod.splits option.splits)

lemma oneshot_reply_effect:
  assumes "oneshot_reply env rid msg ctx = (r, ctx')"
  shows "same_kinds ctx ctx' \<and> wakers_heap ctx' = wakers_heap ctx"
proof (cases "\<exists>h. table_get rid (resources ctx) = Ok (OneshotTx (Some h))")
  case True
  then obtain h where h: "table_get rid (resources ctx) = Ok (OneshotTx (Some h))" by blast
  have "resources ctx' = table_set rid (OneshotTx None) (resources ctx)" "chans ctx' = chans ctx" "wakers_heap ctx' = wakers_heap ctx"
    using assms h by (auto simp: oneshot_reply_def Let_def chans_def split: if_splits)
  then show ?thesis using kinds_set [OF _ h, of "OneshotTx None"] by (simp add: same_kinds_def)
next
  case False
  with assms have "ctx' = ctx" by (auto simp: oneshot_reply_def split: result.splits Resource.splits option.splits)
  then show ?thesis by simp
qed

lemma ocall_oneshot_effect:
  "ocall_oneshot_send env rid d ctx = (r, ctx') \<Longrightarrow> same_kinds ctx ctx' \<and> wakers_heap ctx' = wakers_heap ctx"
  "ocall_oneshot_send_error env rid e ctx = (r, ctx') \<Longrightarrow> same_kinds ctx ctx' \<and> wakers_heap ctx' = wakers_heap ctx"
  using oneshot_reply_effect same_kinds_trans [OF same_kinds_updates(1)]
  unfolding ocall_oneshot_send_def ocall_oneshot_send_error_def by (metis update_fields(3))+

text \<open>The operations that change the channels: creating one, and the host's messages.\<close>

lemma ocall_create_input_channel_effect:
  assumes "ocall_create_input_channel RC env ch ctx = (Ok rid, ctx')"
  shows "wakers_heap ctx' = wakers_heap ctx \<and> pushed ctx' = pushed ctx \<and>
    (case ch of
       ChQuery \<Rightarrow> query_tx ctx = None \<and> query_tx ctx' = Some (new_handle env) \<and> http_connect_tx ctx' = http_connect_tx ctx
     | ChHttpRequest \<Rightarrow> http_connect_tx ctx = None \<and> http_connect_tx ctx' = Some (new_handle env) \<and> query_tx ctx' = query_tx ctx) \<and>
    (table_ok (resources ctx) \<longrightarrow> table_ok (resources ctx') \<and> kinds (resources ctx) rid = None \<and>
       kinds (resources ctx') = (kinds (resources ctx))(rid \<mapsto> KChannel (new_handle env)))"
proof -
  obtain r1 ctx1 where push: "ctx_push (ChannelRx (new_handle env)) (charge 1000 ctx) = (r1, ctx1)" by fastforce
  note c = creates_push [OF push update_fields(1,2,3) kind_of.simps(2)]
  show ?thesis
    using assms push c by (cases ch) (auto simp: Let_def creates_def chans_def charge_def split: result.splits if_splits)
qed

definition tells :: "guest_msg \<Rightarrow> (i32 \<times> res_kind) list" where
  "tells m = (case m of QueryRequest _ _ _ reply_tx \<Rightarrow> [(reply_tx, KOneshot)]
     | HttpRequest _ response_tx io_stream \<Rightarrow> [(response_tx, KOneshot), (io_stream, KStream)])"

definition chan_for :: "handle option \<Rightarrow> handle option \<Rightarrow> guest_msg \<Rightarrow> handle option" where
  "chan_for query_ch http_ch m = (case m of QueryRequest _ _ _ _ \<Rightarrow> query_ch | HttpRequest _ _ _ \<Rightarrow> http_ch)"

text \<open>A message of the host: nothing, or a message on its channel with the new resources it tells of.\<close>

definition delivers :: "('r, 'c) WapoCtx \<Rightarrow> ('r, 'c) WapoCtx \<Rightarrow> bool" where
  "delivers ctx ctx' \<longleftrightarrow> wakers_heap ctx' = wakers_heap ctx \<and> query_tx ctx' = query_tx ctx \<and> http_connect_tx ctx' = http_connect_tx ctx \<and>
     (same_kinds ctx ctx' \<or>
      (\<exists>tx m. pushed ctx' = pushed ctx @ [(tx, m)] \<and> chan_for (query_tx ctx) (http_connect_tx ctx) m = Some tx \<and>
         (table_ok (resources ctx) \<longrightarrow> table_ok (resources ctx') \<and> distinct (map fst (tells m)) \<and>
            (\<forall>rid \<in> fst ` set (tells m). kinds (resources ctx) rid = None) \<and>
            kinds (resources ctx') = kinds (resources ctx) ++ map_of (tells m))))"

lemma push_query_effect:
  assumes "push_query env acc path d reply ctx = (r, ctx')"
  shows "delivers ctx ctx'"
proof (cases "query_tx ctx")
  case (Some tx)
  obtain r1 ctx1 where push: "ctx_push (OneshotTx (Some reply)) ctx = (r1, ctx1)" by fastforce
  note a = adds_push [OF push] and w = ctx_push_pending [OF push]
  show ?thesis
  proof (cases r1)
    case (Err e)
    with assms Some push a w show ?thesis by (auto simp: push_query_def delivers_def same_kinds_def chans_def)
  next
    case (Ok rid)
    obtain r2 ctx2 where close: "ctx_close rid ctx1 = (r2, ctx2)" by fastforce
    have w2: "wakers_heap ctx2 = wakers_heap ctx1" using close by (auto simp: ctx_close_def Let_def split: prod.splits option.splits)
    note rm = removes_close [OF close]
    show ?thesis
    proof (cases "chan_room env tx")
      case True
      with assms Some push Ok have ctx': "ctx' = ctx1\<lparr>pushed := pushed ctx1 @ [(tx, QueryRequest acc path d rid)]\<rparr>"
        by (auto simp: push_query_def)
      show ?thesis unfolding delivers_def
        using a w Ok Some
        by (auto simp: ctx' chans_def chan_for_def tells_def map_add_def fun_eq_iff
            intro!: disjI2 exI [of _ tx] exI [of _ "QueryRequest acc path d rid"])
    next
      case False
      with assms Some push Ok close have "ctx' = ctx2" by (auto simp: push_query_def)
      with a w w2 rm Ok show ?thesis
        by (auto simp: delivers_def same_kinds_def removes_def chans_def fun_upd_idem)
    qed
  qed
qed (use assms in \<open>simp add: push_query_def delivers_def\<close>)

lemma push_http_effect:
  assumes "push_http_request env head body ctx = (r, ctx')"
  shows "delivers ctx ctx'"
proof (cases "http_connect_tx ctx")
  case (Some tx)
  obtain r1 ctx1 where push: "ctx_push (OneshotTx (Some (new_handle env))) ctx = (r1, ctx1)" by fastforce
  note a = adds_push [OF push] and w = ctx_push_pending [OF push]
  show ?thesis
  proof (cases r1)
    case (Err e)
    with assms Some push a w show ?thesis by (auto simp: push_http_request_def delivers_def same_kinds_def chans_def)
  next
    case (Ok rid)
    obtain r2 ctx2 where push2: "ctx_push (DuplexStream body) ctx1 = (r2, ctx2)" by fastforce
    note a2 = adds_push [OF push2] and w2 = ctx_push_pending [OF push2]
    obtain r3 ctx3 where close: "ctx_close rid ctx2 = (r3, ctx3)" by fastforce
    have w3: "wakers_heap ctx3 = wakers_heap ctx2" using close by (auto simp: ctx_close_def Let_def split: prod.splits option.splits)
    note rm = removes_close [OF close]
    show ?thesis
    proof (cases r2)
      case (Err e)
      with assms Some push Ok push2 close have "ctx' = ctx3" by (auto simp: push_http_request_def)
      with a w a2 w2 w3 rm Ok Err show ?thesis
        by (auto simp: delivers_def same_kinds_def removes_def chans_def fun_upd_idem)
    next
      case (Ok sid)
      obtain r4 ctx4 where close4: "ctx_close sid ctx3 = (r4, ctx4)" by fastforce
      have w4: "wakers_heap ctx4 = wakers_heap ctx3" using close4 by (auto simp: ctx_close_def Let_def split: prod.splits option.splits)
      note rm4 = removes_close [OF close4]
      have ne: "table_ok (resources ctx) \<Longrightarrow> sid \<noteq> rid" using a a2 \<open>r1 = Ok rid\<close> Ok by auto
      show ?thesis
      proof (cases "chan_room env tx")
        case True
        let ?m = "HttpRequest head rid sid"
        from True assms Some push \<open>r1 = Ok rid\<close> push2 Ok have ctx': "ctx' = ctx2\<lparr>pushed := pushed ctx2 @ [(tx, ?m)]\<rparr>"
          by (auto simp: push_http_request_def)
        have k: "table_ok (resources ctx) \<longrightarrow> table_ok (resources ctx') \<and> distinct (map fst (tells ?m)) \<and>
            (\<forall>rid \<in> fst ` set (tells ?m). kinds (resources ctx) rid = None) \<and>
            kinds (resources ctx') = kinds (resources ctx) ++ map_of (tells ?m)"
          using a a2 ne \<open>r1 = Ok rid\<close> Ok by (auto simp: ctx' tells_def map_add_def fun_eq_iff split: if_splits)
        have "pushed ctx' = pushed ctx @ [(tx, ?m)]" "chan_for (query_tx ctx) (http_connect_tx ctx) ?m = Some tx" "wakers_heap ctx' = wakers_heap ctx"
          "query_tx ctx' = query_tx ctx" "http_connect_tx ctx' = http_connect_tx ctx"
          using a a2 w w2 Some \<open>r1 = Ok rid\<close> Ok by (simp_all add: ctx' chans_def chan_for_def)
        with k show ?thesis unfolding delivers_def by blast
      next
        case False
        with assms Some push \<open>r1 = Ok rid\<close> push2 Ok close close4 have "ctx' = ctx4" by (auto simp: push_http_request_def)
        with a w a2 w2 w3 w4 rm rm4 ne \<open>r1 = Ok rid\<close> Ok show ?thesis
          by (auto simp: delivers_def same_kinds_def removes_def chans_def fun_eq_iff)
      qed
    qed
  qed
qed (use assms in \<open>simp add: push_http_request_def delivers_def\<close>)

section \<open>What every poll of the library does\<close>

text \<open>
  A poll interns the task's waker, makes one call with its id, and changes nothing of the guest's state beside.
  \<open>pend\<close> tells whether it ended pending.
\<close>

definition guest_polls :: "HostEnv \<Rightarrow> 'w \<Rightarrow> bool \<Rightarrow> ('w, 'r, 'c) Lib \<Rightarrow> ('w, 'r, 'c) Lib \<Rightarrow> bool" where
  "guest_polls env w pend l l' \<longleftrightarrow>
     (\<exists>wid t ctx' kept. intern_waker w (lb_wakers l) = Some (wid, t) \<and>
        l' = l\<lparr>lb_wakers := t, lb_origin := (lb_origin l)(next_cell (wakers_heap (lb_ctx l)) \<mapsto> w), lb_ctx := ctx'\<rparr> \<and>
        wakers_heap ctx' = poll_heap env wid kept (wakers_heap (lb_ctx l)) \<and> (pend \<longrightarrow> kept = retains env))"

lemma with_wakerE:
  assumes "with_waker w f l = Ok (x, l')"
  obtains wid t where "intern_waker w (lb_wakers l) = Some (wid, t)"
    "f wid (l\<lparr>lb_wakers := t, lb_origin := (lb_origin l)(next_cell (wakers_heap (lb_ctx l)) \<mapsto> w)\<rparr>) = Ok (x, l')"
  using assms by (auto simp: with_waker_def split: option.splits)

lemma guest_pollsI:
  assumes "intern_waker w (lb_wakers l) = Some (wid, t)" "polled env wid r (lb_ctx l) ctx'" "pend \<Longrightarrow> r = Err Pending"
    and "l' = l\<lparr>lb_wakers := t, lb_origin := (lb_origin l)(next_cell (wakers_heap (lb_ctx l)) \<mapsto> w), lb_ctx := ctx'\<rparr>"
  shows "guest_polls env w pend l l'"
  using assms unfolding polled_def guest_polls_def by blast

lemma poll_of_Pend: "poll_of r = Pend \<longleftrightarrow> r = Err Pending"
  by (cases r) auto

lemma into_poll_Pend: "into_poll r = Pend \<longleftrightarrow> r = Err Pending"
  by (cases r) auto

text \<open>The id a poll hands to the program, if it is ready and succeeded.\<close>

fun handed :: "(i32, 'e) result poll \<Rightarrow> (i32, OcallError) result" where
  "handed (Ready (Ok rid)) = Ok rid"
| "handed _ = Err OcallOk"

lemma poll_tcp_accept_effect:
  assumes "poll_tcp_accept libs env w rid l = Ok (p, l')"
  shows "guest_polls env w (p = Pend) l l' \<and> adds KStream (handed (map_poll (map_ok fst) p)) (lb_ctx l) (lb_ctx l')"
  using assms [unfolded poll_tcp_accept_def]
proof (rule with_wakerE)
  fix wid t
  assume i: "intern_waker w (lb_wakers l) = Some (wid, t)"
  let ?l = "l\<lparr>lb_wakers := t, lb_origin := (lb_origin l)(next_cell (wakers_heap (lb_ctx l)) \<mapsto> w)\<rparr>"
  assume f: "(case on_host (ocall_tcp_accept env wid rid) ?l of
         (Ok (stream, remote_addr), s') \<Rightarrow>
           (case lc_parse_addr libs remote_addr of None \<Rightarrow> Err Panicked | Some addr \<Rightarrow> Ok (Ready (Ok (stream, addr)), s'))
       | (Err e, s') \<Rightarrow> Ok (poll_of (Err e), s')) = Ok (p, l')"
  obtain r ctx' where c: "ocall_tcp_accept env wid rid (lb_ctx l) = (r, ctx')" by fastforce
  note e = ocall_tcp_accept_effect [OF c]
  have h: "on_host (ocall_tcp_accept env wid rid) ?l = (r, ?l\<lparr>lb_ctx := ctx'\<rparr>)" using c by (simp add: on_host_def)
  from f h have l': "l' = ?l\<lparr>lb_ctx := ctx'\<rparr>" by (auto split: result.splits option.splits prod.splits)
  show ?thesis
  proof (cases r)
    case (Ok x)
    with f h obtain a where "p = Ready (Ok (fst x, a))" by (auto split: prod.splits option.splits)
    with e i l' Ok guest_pollsI [OF i conjunct2 [OF e]] show ?thesis by auto
  next
    case (Err err)
    with f h have "p = poll_of (Err err)" by auto
    with e i l' Err guest_pollsI [OF i conjunct2 [OF e]] show ?thesis by (auto split: if_splits)
  qed
qed

lemma connector_poll_effect:
  assumes "connector_poll env w (Ok rid) l = Ok (p, l')"
  shows "guest_polls env w (p = Pend) l l' \<and> adds KStream (handed p) (lb_ctx l) (lb_ctx l')"
  using assms [unfolded connector_poll_def result.case]
proof (rule with_wakerE)
  fix wid t
  assume i: "intern_waker w (lb_wakers l) = Some (wid, t)"
  let ?l = "l\<lparr>lb_wakers := t, lb_origin := (lb_origin l)(next_cell (wakers_heap (lb_ctx l)) \<mapsto> w)\<rparr>"
  assume f: "(let (r, s') = on_host (ocall_poll_res env wid rid) ?l in Ok (poll_of r, s')) = (Ok (p, l') :: (_, trap) result)"
  obtain r ctx' where c: "ocall_poll_res env wid rid (lb_ctx l) = (r, ctx')" by fastforce
  note e = ocall_poll_res_effect [OF c]
  from f c have l': "l' = ?l\<lparr>lb_ctx := ctx'\<rparr>" and p: "p = poll_of r" by (auto simp: on_host_def)
  have "adds KStream (handed p) (lb_ctx l) ctx'" using e by (cases r) (auto simp: p)
  then show ?thesis using guest_pollsI [OF i conjunct2 [OF e], of "p = Pend" l'] by (simp add: l' p poll_of_Pend)
qed

text \<open>The polls that create nothing.\<close>

definition quiet_poll :: "HostEnv \<Rightarrow> 'w \<Rightarrow> bool \<Rightarrow> ('w, 'r, 'c) Lib \<Rightarrow> ('w, 'r, 'c) Lib \<Rightarrow> bool" where
  "quiet_poll env w pend l l' \<longleftrightarrow> guest_polls env w pend l l' \<and> same_kinds (lb_ctx l) (lb_ctx l')"

lemma quiet_pollI:
  assumes "intern_waker w (lb_wakers l) = Some (wid, t)" "same_kinds (lb_ctx l) ctx' \<and> polled env wid r (lb_ctx l) ctx'"
    and "pend \<Longrightarrow> r = Err Pending"
    and "l' = l\<lparr>lb_wakers := t, lb_origin := (lb_origin l)(next_cell (wakers_heap (lb_ctx l)) \<mapsto> w), lb_ctx := ctx'\<rparr>"
  shows "quiet_poll env w pend l l'"
  using guest_pollsI [OF assms(1) conjunct2 [OF assms(2)] assms(3,4)] assms(2,4) by (simp add: quiet_poll_def)

lemma map_ok_Pending [simp]: "map_ok f r = Err Pending \<longleftrightarrow> r = Err Pending"
  by (cases r) auto

lemma futures_poll_read_effect:
  assumes "futures_poll_read env w rid n l = Ok (p, l')"
  shows "quiet_poll env w (p = Pend) l l'"
  using assms [unfolded futures_poll_read_def]
  by (elim with_wakerE)
    (auto simp: into_poll_Pend intro: quiet_pollI [OF _ ocall_poll_read_effect] split: option.splits)

lemma guest_poll_write_effect:
  assumes "guest_poll_write env w rid d l = Ok (p, l')"
  shows "quiet_poll env w (p = Pend) l l'"
  using assms [unfolded guest_poll_write_def]
  by (elim with_wakerE)
    (auto simp: into_poll_Pend intro: quiet_pollI [OF _ ocall_poll_write_effect] split: option.splits)

lemma guest_poll_shutdown_effect:
  assumes "guest_poll_shutdown env w rid l = Ok (p, l')"
  shows "quiet_poll env w (p = Pend) l l'"
  using assms [unfolded guest_poll_shutdown_def]
  by (elim with_wakerE)
    (auto simp: on_host_def into_poll_Pend intro: quiet_pollI [OF _ ocall_poll_shutdown_effect] split: prod.splits)

lemma tokio_poll_read_effect:
  assumes "tokio_poll_read env w rid b l = Ok (p, b', l')"
  shows "quiet_poll env w (p = Pend) l l'"
proof -
  obtain wid t where i: "intern_waker w (lb_wakers l) = Some (wid, t)"
    using assms by (auto simp: tokio_poll_read_def with_waker_def Let_def split: option.splits)
  let ?l = "l\<lparr>lb_wakers := t, lb_origin := (lb_origin l)(next_cell (wakers_heap (lb_ctx l)) \<mapsto> w)\<rparr>"
  obtain r ctx' where c: "ocall_poll_read env wid rid (rb_remaining b) (lb_ctx l) = Some (r, ctx')"
    using assms i by (auto simp: tokio_poll_read_def with_waker_def Let_def split: option.splits)
  have "l' = ?l\<lparr>lb_ctx := ctx'\<rparr>" "p = Pend \<Longrightarrow> r = Err Pending"
    using assms i c by (auto simp: tokio_poll_read_def with_waker_def Let_def split: result.splits if_splits)
  then show ?thesis using quiet_pollI [OF i ocall_poll_read_effect [OF c]] by simp
qed

lemma sleep_future_poll_effect:
  assumes "sleep_future_poll env w rid l = Ok (p, l')"
  shows "quiet_poll env w (p = Pend) l l'"
  using assms [unfolded sleep_future_poll_def]
  by (elim with_wakerE)
    (auto intro: quiet_pollI [OF _ ocall_poll_read_effect] split: option.splits result.splits if_splits)

lemma query_next_effect:
  assumes "query_next libs env w rid l = Ok (p, l')"
  shows "quiet_poll env w (p = Pend) l l'"
  using assms [unfolded query_next_def]
  by (elim with_wakerE)
    (auto simp: on_host_def intro: quiet_pollI [OF _ ocall_poll_effect]
      split: option.splits result.splits if_splits prod.splits)

lemma http_next_effect:
  assumes "http_next libs env w rid l = Ok (p, l')"
  shows "quiet_poll env w (p = Pend) l l'"
  using assms [unfolded http_next_def]
  by (elim with_wakerE)
    (auto simp: on_host_def intro: quiet_pollI [OF _ ocall_poll_effect]
      split: option.splits result.splits if_splits prod.splits)

section \<open>The world of a guest program\<close>

text \<open>
  \<open>wl_held\<close> are the handles the program holds, by the id in them and the kind their Rust type stands for;
  \<open>wl_inbox\<close> the messages sent to its channels and not yet received, in order.
\<close>

record ('w, 'r, 'c) World =
  wl_lib :: "('w, 'r, 'c) Lib"
  wl_held :: "(i32 \<times> res_kind) list"
  wl_inbox :: "(handle \<times> guest_msg) list"

abbreviation wl_ctx :: "('w, 'r, 'c) World \<Rightarrow> ('r, 'c) WapoCtx" where
  "wl_ctx s \<equiv> lb_ctx (wl_lib s)"

text \<open>The two static receivers and everything that refers to a resource.\<close>

definition receiver :: "i32 option \<Rightarrow> handle option \<Rightarrow> (i32 \<times> res_kind) list" where
  "receiver rx tx = (case (rx, tx) of (Some rid, Some h) \<Rightarrow> [(rid, KChannel h)] | _ \<Rightarrow> [])"

definition told :: "(handle \<times> guest_msg) list \<Rightarrow> (i32 \<times> res_kind) list" where
  "told inbox = concat (map (\<lambda>(h, m). tells m) inbox)"

definition references :: "('w, 'r, 'c) World \<Rightarrow> (i32 \<times> res_kind) list" where
  "references s =
     wl_held s @ receiver (lb_query_rx (wl_lib s)) (query_tx (wl_ctx s)) @
     receiver (lb_http_rx (wl_lib s)) (http_connect_tx (wl_ctx s)) @ told (wl_inbox s)"

text \<open>A channel delivers its messages in order, each as its encoding.\<close>

fun take_msg :: "handle \<Rightarrow> (handle \<times> guest_msg) list \<Rightarrow> (guest_msg \<times> (handle \<times> guest_msg) list) option" where
  "take_msg h [] = None"
| "take_msg h ((h', m) # q) = (if h' = h then Some (m, q) else map_option (\<lambda>(m', q'). (m', (h', m) # q')) (take_msg h q))"

definition in_order :: "(guest_msg \<Rightarrow> bytes) \<Rightarrow> HostEnv \<Rightarrow> (handle \<times> guest_msg) list \<Rightarrow> bool" where
  "in_order enc env inbox \<longleftrightarrow>
     (\<forall>h data. chan_recv env h = Ready (Some data) \<longrightarrow> (\<exists>m q. take_msg h inbox = Some (m, q) \<and> data = enc m))"

definition codec_ok :: "'a GuestLibs \<Rightarrow> (guest_msg \<Rightarrow> bytes) \<Rightarrow> bool" where
  "codec_ok libs enc \<longleftrightarrow>
     (\<forall>orig path d tx. lc_dec_query libs (enc (QueryRequest orig path d tx)) = Some (orig, path, d, tx)) \<and>
     (\<forall>head tx io. lc_dec_http libs (enc (HttpRequest head tx io)) = Some (head, tx, io))"

fun holding :: "res_kind \<Rightarrow> (i32, OcallError) result \<Rightarrow> (i32 \<times> res_kind) list" where
  "holding k (Ok rid) = [(rid, k)]"
| "holding k (Err _) = []"

definition received :: "handle option \<Rightarrow> (handle \<times> guest_msg) list \<Rightarrow> (handle \<times> guest_msg) list" where
  "received tx inbox = (case tx of None \<Rightarrow> inbox | Some h \<Rightarrow> (case take_msg h inbox of None \<Rightarrow> inbox | Some (_, q) \<Rightarrow> q))"

inductive world_step ::
  "'r RuntimeCalls \<Rightarrow> 'a GuestLibs \<Rightarrow> (guest_msg \<Rightarrow> bytes) \<Rightarrow> ('w \<Rightarrow> TaskSet \<Rightarrow> TaskSet) \<Rightarrow>
   ('w, 'r, 'c) World \<Rightarrow> ('w, 'r, 'c) World \<Rightarrow> bool"
  for RC :: "'r RuntimeCalls" and libs :: "'a GuestLibs" and enc :: "guest_msg \<Rightarrow> bytes"
    and wake :: "'w \<Rightarrow> TaskSet \<Rightarrow> TaskSet" where
  w_bind: "tcp_bind env addr (wl_lib s) = (r, l) \<Longrightarrow>
    world_step RC libs enc wake s (s\<lparr>wl_lib := l, wl_held := holding KListener r @ wl_held s\<rparr>)"
| w_bind_tls: "tcp_bind_tls env addr conf (wl_lib s) = (r, l) \<Longrightarrow>
    world_step RC libs enc wake s (s\<lparr>wl_lib := l, wl_held := holding KListener r @ wl_held s\<rparr>)"
| w_sni: "guest_sni_bind env sni conf (wl_lib s) = (r, l) \<Longrightarrow>
    world_step RC libs enc wake s (s\<lparr>wl_lib := l, wl_held := holding KSni r @ wl_held s\<rparr>)"
| w_connect: "connect_with_components RC env scheme host port (wl_lib s) = (r, l) \<Longrightarrow>
    world_step RC libs enc wake s (s\<lparr>wl_lib := l, wl_held := holding KConnect r @ wl_held s\<rparr>)"
| w_accept: "(rid, KListener) \<in> set (wl_held s) \<or> (rid, KSni) \<in> set (wl_held s) \<Longrightarrow>
    poll_tcp_accept libs env w rid (wl_lib s) = Ok (p, l) \<Longrightarrow>
    world_step RC libs enc wake s (s\<lparr>wl_lib := l, wl_held := holding KStream (handed (map_poll (map_ok fst) p)) @ wl_held s\<rparr>)"
| w_connector: "(rid, KConnect) \<in> set (wl_held s) \<Longrightarrow> connector_poll env w (Ok rid) (wl_lib s) = Ok (p', l) \<Longrightarrow>
    world_step RC libs enc wake s (s\<lparr>wl_lib := l, wl_held := holding KStream (handed p') @ wl_held s\<rparr>)"
| w_read: "(rid, KStream) \<in> set (wl_held s) \<Longrightarrow> tokio_poll_read env w rid b (wl_lib s) = Ok (pu, b', l) \<Longrightarrow>
    world_step RC libs enc wake s (s\<lparr>wl_lib := l\<rparr>)"
| w_futures_read: "(rid, KStream) \<in> set (wl_held s) \<Longrightarrow> futures_poll_read env w rid n (wl_lib s) = Ok (pr, l) \<Longrightarrow>
    world_step RC libs enc wake s (s\<lparr>wl_lib := l\<rparr>)"
| w_write: "(rid, KStream) \<in> set (wl_held s) \<Longrightarrow> guest_poll_write env w rid d (wl_lib s) = Ok (pw, l) \<Longrightarrow>
    world_step RC libs enc wake s (s\<lparr>wl_lib := l\<rparr>)"
| w_shutdown: "(rid, KStream) \<in> set (wl_held s) \<Longrightarrow> guest_poll_shutdown env w rid (wl_lib s) = Ok (ps, l) \<Longrightarrow>
    world_step RC libs enc wake s (s\<lparr>wl_lib := l\<rparr>)"
| w_send: "(rid, KOneshot) \<in> set (wl_held s) \<Longrightarrow> oneshot_sender_send env rid d (wl_lib s) = (ru, l) \<Longrightarrow>
    world_step RC libs enc wake s (s\<lparr>wl_lib := l, wl_held := remove1 (rid, KOneshot) (wl_held s)\<rparr>)"
| w_send_error: "(rid, KOneshot) \<in> set (wl_held s) \<Longrightarrow> oneshot_sender_send_error env rid e (wl_lib s) = (ru, l) \<Longrightarrow>
    world_step RC libs enc wake s (s\<lparr>wl_lib := l, wl_held := remove1 (rid, KOneshot) (wl_held s)\<rparr>)"
| w_queries: "Some (new_handle env) \<noteq> http_connect_tx (wl_ctx s) \<Longrightarrow> incoming_queries RC env (wl_lib s) = Ok (rid, l) \<Longrightarrow>
    world_step RC libs enc wake s (s\<lparr>wl_lib := l\<rparr>)"
| w_http_requests: "Some (new_handle env) \<noteq> query_tx (wl_ctx s) \<Longrightarrow> incoming_http_requests RC env (wl_lib s) = Ok (rid, l) \<Longrightarrow>
    world_step RC libs enc wake s (s\<lparr>wl_lib := l\<rparr>)"
| w_next_query: "lb_query_rx (wl_lib s) = Some rid \<Longrightarrow> in_order enc env (wl_inbox s) \<Longrightarrow>
    query_next libs env w rid (wl_lib s) = Ok (Ready (Some q), l) \<Longrightarrow>
    world_step RC libs enc wake s
      (s\<lparr>wl_lib := l, wl_held := (gq_reply_tx q, KOneshot) # wl_held s, wl_inbox := received (query_tx (wl_ctx s)) (wl_inbox s)\<rparr>)"
| w_no_query: "query_next libs env w rid (wl_lib s) = Ok (pq, l) \<Longrightarrow> pq = Pend \<or> pq = Ready None \<Longrightarrow>
    world_step RC libs enc wake s (s\<lparr>wl_lib := l\<rparr>)"
| w_next_http: "lb_http_rx (wl_lib s) = Some rid \<Longrightarrow> in_order enc env (wl_inbox s) \<Longrightarrow>
    http_next libs env w rid (wl_lib s) = Ok (Ready (Some h), l) \<Longrightarrow>
    world_step RC libs enc wake s
      (s\<lparr>wl_lib := l, wl_held := (gh_response_tx h, KOneshot) # (gh_io_stream h, KStream) # wl_held s,
         wl_inbox := received (http_connect_tx (wl_ctx s)) (wl_inbox s)\<rparr>)"
| w_no_http: "http_next libs env w rid (wl_lib s) = Ok (ph, l) \<Longrightarrow> ph = Pend \<or> ph = Ready None \<Longrightarrow>
    world_step RC libs enc wake s (s\<lparr>wl_lib := l\<rparr>)"
| w_sleep: "sleep env ms (wl_lib s) = Ok (rid, l) \<Longrightarrow>
    world_step RC libs enc wake s (s\<lparr>wl_lib := l, wl_held := (rid, KSleep) # wl_held s\<rparr>)"
| w_reset: "(rid, KSleep) \<in> set (wl_held s) \<Longrightarrow> sleep_reset env rid now instant (wl_lib s) = Ok (u, l) \<Longrightarrow>
    world_step RC libs enc wake s (s\<lparr>wl_lib := l\<rparr>)"
| w_sleeping: "(rid, KSleep) \<in> set (wl_held s) \<Longrightarrow> sleep_future_poll env w rid (wl_lib s) = Ok (pt, l) \<Longrightarrow>
    world_step RC libs enc wake s (s\<lparr>wl_lib := l\<rparr>)"
| w_breath: "breath_poll wake w pending (wl_lib s) = (pb, pending', l) \<Longrightarrow> world_step RC libs enc wake s (s\<lparr>wl_lib := l\<rparr>)"
| w_log: "world_step RC libs enc wake s (s\<lparr>wl_lib := logger_log RC enabled lvl target args (wl_lib s)\<rparr>)"
| w_drop: "(rid, k) \<in> set (wl_held s) \<Longrightarrow>
    world_step RC libs enc wake s (s\<lparr>wl_lib := drop_res rid (wl_lib s), wl_held := remove1 (rid, k) (wl_held s)\<rparr>)"
| w_push_query: "push_query env acc path d reply (wl_ctx s) = (rp, ctx) \<Longrightarrow>
    world_step RC libs enc wake s
      (s\<lparr>wl_lib := (wl_lib s)\<lparr>lb_ctx := ctx\<rparr>, wl_inbox := wl_inbox s @ drop (length (pushed (wl_ctx s))) (pushed ctx)\<rparr>)"
| w_push_http: "push_http_request env head body (wl_ctx s) = (rp, ctx) \<Longrightarrow>
    world_step RC libs enc wake s
      (s\<lparr>wl_lib := (wl_lib s)\<lparr>lb_ctx := ctx\<rparr>, wl_inbox := wl_inbox s @ drop (length (pushed (wl_ctx s))) (pushed ctx)\<rparr>)"
| w_waker: "f \<in> {clone_waker c, wake_by_ref_waker c, wake_waker c, drop_waker c} \<Longrightarrow>
    world_step RC libs enc wake s
      (s\<lparr>wl_lib := (wl_lib s)\<lparr>lb_ctx := (wl_ctx s)\<lparr>wakers_heap := f (wakers_heap (wl_ctx s))\<rparr>\<rparr>\<rparr>)"
| w_drain: "waker_tasks (wakers_heap (wl_ctx s)) = Some ts \<Longrightarrow> drain_awake_wakers ts = (ids, ts1) \<Longrightarrow>
    process_awake wake ids (lb_wakers (wl_lib s)) ts1 = (t', ts2) \<Longrightarrow>
    world_step RC libs enc wake s
      (s\<lparr>wl_lib := (wl_lib s)\<lparr>lb_wakers := t',
          lb_ctx := charge 500 ((wl_ctx s)\<lparr>wakers_heap := (wakers_heap (wl_ctx s))\<lparr>waker_tasks := Some ts2\<rparr>\<rparr>)\<rparr>\<rparr>)"

text \<open>A program starts with an empty waker table on a new context.\<close>

definition world_start :: "bytes \<Rightarrow> 'r \<Rightarrow> Store \<Rightarrow> 'c \<Rightarrow> Meter \<Rightarrow> VmConfig \<Rightarrow> ('w, 'r, 'c) World" where
  "world_start vid calls blobs cache m conf =
     \<lparr> wl_lib = \<lparr> lb_wakers = \<lparr> wakers = [], cached_waker_ids = [] \<rparr>, lb_ctx = ctx_new vid calls blobs cache m conf,
         lb_query_rx = None, lb_http_rx = None, lb_origin = Map.empty \<rparr>,
       wl_held = [], wl_inbox = [] \<rparr>"

section \<open>The invariant of the world\<close>

definition refs_ok :: "(i32 \<times> res_kind) list \<Rightarrow> (i32 \<Rightarrow> res_kind option) \<Rightarrow> bool" where
  "refs_ok R K \<longleftrightarrow> distinct (map fst R) \<and> K = map_of R"

lemma refs_ok_perm: "mset R = mset R' \<Longrightarrow> refs_ok R K \<longleftrightarrow> refs_ok R' K"
proof -
  assume m: "mset R = mset R'"
  then have "mset (map fst R) = mset (map fst R')" by simp
  then have "distinct (map fst R) \<longleftrightarrow> distinct (map fst R')" by (rule mset_eq_imp_distinct_iff)
  moreover have "map_of R = map_of R'" if "distinct (map fst R)" "distinct (map fst R')"
    using that map_of_inject_set mset_eq_setD [OF m] by blast
  ultimately show ?thesis by (auto simp: refs_ok_def)
qed

lemma refs_ok_add: "refs_ok R K \<Longrightarrow> K rid = None \<Longrightarrow> refs_ok ((rid, k) # R) (K(rid \<mapsto> k))"
  by (auto simp: refs_ok_def map_of_eq_None_iff)

lemma refs_ok_adds:
  assumes "refs_ok R K" "distinct (map fst N)" "\<forall>rid \<in> fst ` set N. K rid = None"
  shows "refs_ok (N @ R) (K ++ map_of N)"
  using assms by (auto simp: refs_ok_def map_of_eq_None_iff)

lemma refs_ok_remove:
  assumes "refs_ok (A @ B) K" "(rid, k) \<in> set A"
  shows "refs_ok (remove1 (rid, k) A @ B) (K(rid := None))"
proof -
  let ?R = "remove1 (rid, k) A @ B"
  have "mset (A @ B) = mset ((rid, k) # ?R)" using assms(2) by simp
  then have ok: "refs_ok ((rid, k) # ?R) K" using assms(1) refs_ok_perm by blast
  then have "map_of ?R rid = None" by (auto simp: refs_ok_def map_of_eq_None_iff)
  then have "(map_of ?R)(rid := None) = map_of ?R" by (rule fun_upd_idem)
  with ok show ?thesis by (simp add: refs_ok_def del: map_of_append)
qed

definition link_of :: "('w, 'r, 'c) Lib \<Rightarrow> 'w WakerLink" where
  "link_of l = \<lparr> link_table = lb_wakers l, link_heap = wakers_heap (lb_ctx l), origin = lb_origin l \<rparr>"

definition chans_good :: "i32 option \<Rightarrow> i32 option \<Rightarrow> handle option \<Rightarrow> handle option \<Rightarrow> (handle \<times> guest_msg) list \<Rightarrow> bool" where
  "chans_good query_rx http_rx query_ch http_ch inbox \<longleftrightarrow>
     (query_rx = None \<longleftrightarrow> query_ch = None) \<and> (http_rx = None \<longleftrightarrow> http_ch = None) \<and>
     (query_ch \<noteq> None \<longrightarrow> query_ch \<noteq> http_ch) \<and> (\<forall>(h, m) \<in> set inbox. chan_for query_ch http_ch m = Some h)"

definition chans_ok :: "('w, 'r, 'c) World \<Rightarrow> bool" where
  "chans_ok s \<longleftrightarrow>
     chans_good (lb_query_rx (wl_lib s)) (lb_http_rx (wl_lib s)) (query_tx (wl_ctx s)) (http_connect_tx (wl_ctx s)) (wl_inbox s)"

lemma chans_good_subset: "chans_good a b c d q \<Longrightarrow> set q' \<subseteq> set q \<Longrightarrow> chans_good a b c d q'"
  unfolding chans_good_def by blast

lemma chans_good_add: "chans_good a b c d q \<Longrightarrow> chan_for c d m = Some h \<Longrightarrow> chans_good a b c d (q @ [(h, m)])"
  by (auto simp: chans_good_def)

definition world_inv :: "('w, 'r, 'c) World \<Rightarrow> bool" where
  "world_inv s \<longleftrightarrow> table_ok (resources (wl_ctx s)) \<and> refs_ok (references s) (kinds (resources (wl_ctx s))) \<and>
     chans_ok s \<and> link_inv (link_of (wl_lib s))"

definition same_rx :: "('w, 'r, 'c) Lib \<Rightarrow> ('w, 'r, 'c) Lib \<Rightarrow> bool" where
  "same_rx l l' \<longleftrightarrow> lb_query_rx l' = lb_query_rx l \<and> lb_http_rx l' = lb_http_rx l"

lemma chans_ok_frame:
  assumes "chans_ok s" "chans (lb_ctx l') = chans (wl_ctx s)" "same_rx (wl_lib s) l'"
  shows "chans_ok (s\<lparr>wl_lib := l', wl_held := held\<rparr>)"
  using assms by (simp add: chans_ok_def chans_def same_rx_def)

lemma references_frame:
  assumes "chans (lb_ctx l') = chans (wl_ctx s)" "same_rx (wl_lib s) l'"
  shows "references (s\<lparr>wl_lib := l', wl_held := held\<rparr>) = held @ drop (length (wl_held s)) (references s)"
  using assms by (simp add: references_def chans_def same_rx_def)

lemma references_split: "references s = wl_held s @ drop (length (wl_held s)) (references s)"
  by (simp add: references_def)

lemma world_inv_adds:
  assumes "world_inv s" "adds k r (wl_ctx s) (lb_ctx l')" "same_rx (wl_lib s) l'" "link_inv (link_of l')"
  shows "world_inv (s\<lparr>wl_lib := l', wl_held := holding k r @ wl_held s\<rparr>)"
proof -
  have c: "chans (lb_ctx l') = chans (wl_ctx s)" using assms(2) by (cases r) (auto simp: same_kinds_def)
  have t: "table_ok (resources (wl_ctx s))" and R: "refs_ok (references s) (kinds (resources (wl_ctx s)))" "chans_ok s"
    using assms(1) by (simp_all add: world_inv_def)
  have "table_ok (resources (lb_ctx l')) \<and> refs_ok (holding k r @ references s) (kinds (resources (lb_ctx l')))"
    using assms(2) t R(1) refs_ok_add by (cases r) (auto simp: same_kinds_def)
  then show ?thesis
    using chans_ok_frame [OF R(2) c assms(3), of "holding k r @ wl_held s"] assms(4) references_split [of s]
    by (simp add: world_inv_def references_frame [OF c assms(3)])
qed

lemma world_inv_same:
  assumes "world_inv s" "same_kinds (wl_ctx s) (lb_ctx l')" "same_rx (wl_lib s) l'" "link_inv (link_of l')"
  shows "world_inv (s\<lparr>wl_lib := l'\<rparr>)"
  using world_inv_adds [OF assms(1) _ assms(3,4), of undefined "Err OcallOk"] assms(2) by simp

lemma world_inv_removes:
  assumes "world_inv s" "removes rid (wl_ctx s) (lb_ctx l')" "same_rx (wl_lib s) l'" "link_inv (link_of l')" "(rid, k) \<in> set (wl_held s)"
  shows "world_inv (s\<lparr>wl_lib := l', wl_held := remove1 (rid, k) (wl_held s)\<rparr>)"
proof -
  have c: "chans (lb_ctx l') = chans (wl_ctx s)" using assms(2) by (simp add: removes_def)
  have t: "table_ok (resources (wl_ctx s))" and R: "refs_ok (references s) (kinds (resources (wl_ctx s)))" "chans_ok s"
    using assms(1) by (simp_all add: world_inv_def)
  from R(1) have "refs_ok (wl_held s @ drop (length (wl_held s)) (references s)) (kinds (resources (wl_ctx s)))"
    using references_split [of s] by simp
  from refs_ok_remove [OF this assms(5)] assms(2) t
  show ?thesis
    using chans_ok_frame [OF R(2) c assms(3), of "remove1 (rid, k) (wl_held s)"] assms(4)
    by (simp add: world_inv_def removes_def references_frame [OF c assms(3)])
qed

subsection \<open>Wakers\<close>

lemma link_poll:
  assumes "guest_polls env w pend l l'" "link_inv (link_of l)"
  shows "link_inv (link_of l') \<and> same_rx l l'"
proof -
  obtain wid t ctx' kept where g: "intern_waker w (lb_wakers l) = Some (wid, t)"
    "l' = l\<lparr>lb_wakers := t, lb_origin := (lb_origin l)(next_cell (wakers_heap (lb_ctx l)) \<mapsto> w), lb_ctx := ctx'\<rparr>"
    "wakers_heap ctx' = poll_heap env wid kept (wakers_heap (lb_ctx l))"
    using assms(1) by (auto simp: guest_polls_def)
  obtain c h where f: "from_id wid (cur_task env) (cur_parent env) (wakers_heap (lb_ctx l)) = (c, h)" by fastforce
  have c: "c = next_cell (wakers_heap (lb_ctx l))" using f by (simp add: from_id_def Let_def)
  have ok: "wakers_ok (lb_wakers l)" "heap_inv (lb_wakers l) (lb_origin l) (wakers_heap (lb_ctx l))"
    using assms(2) by (simp_all add: link_inv_def link_of_def)
  have "heap_inv t ((lb_origin l)(c \<mapsto> w)) h" by (rule heap_inv_poll [OF ok g(1) f])
  then have "heap_inv t ((lb_origin l)(c \<mapsto> w)) (wakers_heap ctx')"
    by (simp add: g(3) poll_heap_def f heap_inv_drop heap_inv_clone)
  moreover have "wakers_ok t" using intern_waker_cases [OF ok(1) g(1)] by simp
  ultimately show ?thesis by (simp add: link_inv_def link_of_def g(2) c same_rx_def)
qed

lemma link_same:
  "wakers_heap (lb_ctx l') = wakers_heap (lb_ctx l) \<Longrightarrow> lb_wakers l' = lb_wakers l \<Longrightarrow> lb_origin l' = lb_origin l \<Longrightarrow>
   link_inv (link_of l) \<Longrightarrow> link_inv (link_of l')"
  by (simp add: link_of_def)

lemma link_waker:
  assumes "link_inv (link_of l)" "f \<in> {clone_waker c, wake_by_ref_waker c, wake_waker c, drop_waker c}"
  shows "link_inv (link_of (l\<lparr>lb_ctx := (lb_ctx l)\<lparr>wakers_heap := f (wakers_heap (lb_ctx l))\<rparr>\<rparr>))"
  using assms by (auto simp: link_inv_def link_of_def heap_inv_clone heap_inv_wake_ref heap_inv_drop wake_waker_def)

lemma link_update_tasks:
  assumes "link_inv (link_of l)" "\<And>ts. awake_wakers (f ts) = awake_wakers ts"
  shows "link_inv (link_of (l\<lparr>lb_ctx := update_tasks f (lb_ctx l)\<rparr>))"
  using assms by (auto simp: link_inv_def link_of_def heap_inv_def update_tasks_def cell_ids_def)

subsection \<open>Messages\<close>

lemma take_msg_told:
  "take_msg h q = Some (m, q') \<Longrightarrow> (h, m) \<in> set q \<and> set q' \<subseteq> set q \<and> mset (told q) = mset (tells m @ told q')"
proof (induction h q arbitrary: q' rule: take_msg.induct)
  case (2 h h' m' q)
  show ?case
  proof (cases "h' = h")
    case False
    with 2(2) obtain q1 where q1: "take_msg h q = Some (m, q1)" "q' = (h', m') # q1" by auto
    with 2(1) [OF False q1(1)] show ?thesis by (auto simp: told_def)
  qed (use 2 in \<open>auto simp: told_def\<close>)
qed simp

lemma references_mset:
  "mset (references s) = mset (wl_held s) + mset (receiver (lb_query_rx (wl_lib s)) (query_tx (wl_ctx s))) +
     mset (receiver (lb_http_rx (wl_lib s)) (http_connect_tx (wl_ctx s))) + mset (told (wl_inbox s))"
  by (simp add: references_def add.assoc)

lemma world_inv_receive:
  assumes inv: "world_inv s" and k: "same_kinds (wl_ctx s) (lb_ctx l')" and rx: "same_rx (wl_lib s) l'" and li: "link_inv (link_of l')"
    and tk: "take_msg h (wl_inbox s) = Some (m, q)" and new: "mset new = mset (tells m)"
  shows "world_inv (s\<lparr>wl_lib := l', wl_held := new @ wl_held s, wl_inbox := q\<rparr>)" (is "world_inv ?s")
proof -
  note t = take_msg_told [OF tk]
  have c: "query_tx (lb_ctx l') = query_tx (wl_ctx s)" "http_connect_tx (lb_ctx l') = http_connect_tx (wl_ctx s)"
    using k by (auto simp: same_kinds_def chans_def)
  have "mset (references ?s) = mset (references s)"
    using t new rx by (simp add: references_mset c same_rx_def)
  then have "refs_ok (references ?s) K \<longleftrightarrow> refs_ok (references s) K" for K by (rule refs_ok_perm)
  then have "refs_ok (references ?s) (kinds (resources (wl_ctx ?s)))" "table_ok (resources (wl_ctx ?s))"
    using inv k by (simp_all add: world_inv_def same_kinds_def)
  moreover have "chans_ok ?s"
    using inv t rx by (auto simp: world_inv_def chans_ok_def c same_rx_def intro: chans_good_subset)
  ultimately show ?thesis using li by (simp add: world_inv_def)
qed

lemma world_inv_deliver:
  assumes inv: "world_inv s" and d: "delivers (wl_ctx s) ctx"
  shows "world_inv (s\<lparr>wl_lib := (wl_lib s)\<lparr>lb_ctx := ctx\<rparr>, wl_inbox := wl_inbox s @ drop (length (pushed (wl_ctx s))) (pushed ctx)\<rparr>)"
    (is "world_inv ?s")
proof -
  have li: "link_inv (link_of ((wl_lib s)\<lparr>lb_ctx := ctx\<rparr>))"
    using inv d by (auto simp: world_inv_def delivers_def intro: link_same)
  from d consider "same_kinds (wl_ctx s) ctx" | tx m where "pushed ctx = pushed (wl_ctx s) @ [(tx, m)]" "chan_for (query_tx (wl_ctx s)) (http_connect_tx (wl_ctx s)) m = Some tx"
      "table_ok (resources ctx)" "distinct (map fst (tells m))" "\<forall>rid \<in> fst ` set (tells m). kinds (resources (wl_ctx s)) rid = None"
      "kinds (resources ctx) = kinds (resources (wl_ctx s)) ++ map_of (tells m)"
    using inv unfolding delivers_def world_inv_def by blast
  then show ?thesis
  proof cases
    case 1
    then have "pushed ctx = pushed (wl_ctx s)" by (simp add: same_kinds_def chans_def)
    then have "?s = s\<lparr>wl_lib := (wl_lib s)\<lparr>lb_ctx := ctx\<rparr>\<rparr>" by simp
    then show ?thesis using world_inv_same [OF inv, of "(wl_lib s)\<lparr>lb_ctx := ctx\<rparr>"] 1 li by (simp add: same_rx_def)
  next
    case 2
    have c: "query_tx ctx = query_tx (wl_ctx s)" "http_connect_tx ctx = http_connect_tx (wl_ctx s)"
      using d by (simp_all add: delivers_def)
    have "mset (references ?s) = mset (tells m @ references s)"
      by (simp add: references_mset 2(1) c told_def)
    moreover have "refs_ok (tells m @ references s) (kinds (resources ctx))"
      using refs_ok_adds [OF _ 2(4,5)] inv 2(6) by (simp add: world_inv_def)
    ultimately have "refs_ok (references ?s) (kinds (resources ctx))" using refs_ok_perm [THEN iffD2] by blast
    moreover have "chans_ok ?s"
      using inv 2(1,2) chans_good_add by (simp add: world_inv_def chans_ok_def c)
    ultimately show ?thesis using li 2(3) by (simp add: world_inv_def)
  qed
qed

lemma held_kind:
  assumes "world_inv s" "(rid, k) \<in> set (references s)"
  shows "\<exists>res. table_get rid (resources (wl_ctx s)) = Ok res \<and> kind_of res = k"
proof -
  have "kinds (resources (wl_ctx s)) rid = Some k"
    using assms by (simp add: world_inv_def refs_ok_def)
  then show ?thesis by (auto simp: kinds_def split: result.splits)
qed

lemma query_receiver:
  assumes "world_inv s" "lb_query_rx (wl_lib s) = Some rid"
  obtains h where "query_tx (wl_ctx s) = Some h" "table_get rid (resources (wl_ctx s)) = Ok (ChannelRx h)"
proof -
  obtain h where h: "query_tx (wl_ctx s) = Some h" using assms by (auto simp: world_inv_def chans_ok_def chans_good_def)
  have "(rid, KChannel h) \<in> set (references s)" using assms(2) h by (simp add: references_def receiver_def)
  from held_kind [OF assms(1) this] obtain res where "table_get rid (resources (wl_ctx s)) = Ok res" "kind_of res = KChannel h" by blast
  with h that show ?thesis by (cases res) auto
qed

lemma http_receiver:
  assumes "world_inv s" "lb_http_rx (wl_lib s) = Some rid"
  obtains h where "http_connect_tx (wl_ctx s) = Some h" "table_get rid (resources (wl_ctx s)) = Ok (ChannelRx h)"
proof -
  obtain h where h: "http_connect_tx (wl_ctx s) = Some h" using assms by (auto simp: world_inv_def chans_ok_def chans_good_def)
  have "(rid, KChannel h) \<in> set (references s)" using assms(2) h by (simp add: references_def receiver_def)
  from held_kind [OF assms(1) this] obtain res where "table_get rid (resources (wl_ctx s)) = Ok res" "kind_of res = KChannel h" by blast
  with h that show ?thesis by (cases res) auto
qed

lemma with_waker_table:
  "with_waker w f l = Ok (x, l') \<Longrightarrow> intern_waker w (lb_wakers l) \<noteq> None"
  by (auto simp: with_waker_def split: option.splits)

lemma ocall_poll_channel:
  assumes "table_get rid (resources ctx) = Ok (ChannelRx h)"
  shows "fst (ocall_poll env wid rid ctx) = (case chan_recv env h of Ready (Some data) \<Rightarrow> Ok data | Ready None \<Rightarrow> Err EndOfFile | Pend \<Rightarrow> Err Pending)"
  using assms
  by (auto simp: ocall_poll_def Let_def make_poll_context_def charge_def IoEnv.defs split: prod.splits poll.splits option.splits)

text \<open>What a poll of a receiver returns is decided by the channel.\<close>

lemma query_next_channel:
  assumes "table_get rid (resources (lb_ctx l)) = Ok (ChannelRx h)" "intern_waker w (lb_wakers l) = Some x"
  shows "map_ok fst (query_next libs env w rid l) =
    (case chan_recv env h of
       Pend \<Rightarrow> Ok Pend
     | Ready None \<Rightarrow> Ok (Ready None)
     | Ready (Some msg) \<Rightarrow>
         (case lc_dec_query libs msg of
            None \<Rightarrow> Err Panicked
          | Some (orig, path, payload, reply_tx) \<Rightarrow>
              Ok (Ready (Some \<lparr> gq_origin = orig, gq_path = path, gq_payload = payload, gq_reply_tx = reply_tx \<rparr>))))"
proof -
  obtain wid t where x: "x = (wid, t)" by fastforce
  obtain r ctx' where c: "ocall_poll env wid rid (lb_ctx l) = (r, ctx')" by fastforce
  have "r = (case chan_recv env h of Ready (Some data) \<Rightarrow> Ok data | Ready None \<Rightarrow> Err EndOfFile | Pend \<Rightarrow> Err Pending)"
    using ocall_poll_channel [OF assms(1), of env wid] c by simp
  then show ?thesis
    using assms(2) c by (auto simp: query_next_def with_waker_def x on_host_def split: poll.splits option.splits)
qed

lemma http_next_channel:
  assumes "table_get rid (resources (lb_ctx l)) = Ok (ChannelRx h)" "intern_waker w (lb_wakers l) = Some x"
  shows "map_ok fst (http_next libs env w rid l) =
    (case chan_recv env h of
       Pend \<Rightarrow> Ok Pend
     | Ready None \<Rightarrow> Ok (Ready None)
     | Ready (Some msg) \<Rightarrow>
         (case lc_dec_http libs msg of
            None \<Rightarrow> Err Panicked
          | Some (head, response_tx, io_stream) \<Rightarrow>
              Ok (Ready (Some \<lparr> gh_head = head, gh_io_stream = io_stream, gh_response_tx = response_tx \<rparr>))))"
proof -
  obtain wid t where x: "x = (wid, t)" by fastforce
  obtain r ctx' where c: "ocall_poll env wid rid (lb_ctx l) = (r, ctx')" by fastforce
  have "r = (case chan_recv env h of Ready (Some data) \<Rightarrow> Ok data | Ready None \<Rightarrow> Err EndOfFile | Pend \<Rightarrow> Err Pending)"
    using ocall_poll_channel [OF assms(1), of env wid] c by simp
  then show ?thesis
    using assms(2) c by (auto simp: http_next_def with_waker_def x on_host_def split: poll.splits option.splits)
qed

text \<open>The message a channel holds is of the channel's type.\<close>

lemma chan_message:
  assumes "chans_good qrx hrx qc hc inbox" "take_msg h inbox = Some (m, q)"
  shows "qc = Some h \<Longrightarrow> \<exists>orig path d tx. m = QueryRequest orig path d tx"
    and "hc = Some h \<Longrightarrow> \<exists>head tx io. m = HttpRequest head tx io"
  using assms(1) take_msg_told [OF assms(2)]
  by (cases m; auto simp: chans_good_def chan_for_def)+

subsection \<open>Every step keeps the invariant\<close>

lemma world_inv_link: "world_inv s \<Longrightarrow> link_inv (link_of (wl_lib s))"
  by (simp add: world_inv_def)

lemma on_host_frame:
  "on_host f l = (r, l') \<Longrightarrow> f (lb_ctx l) = (r, lb_ctx l') \<and> l' = l\<lparr>lb_ctx := lb_ctx l'\<rparr> \<and> same_rx l l' \<and>
   (wakers_heap (lb_ctx l') = wakers_heap (lb_ctx l) \<longrightarrow> link_inv (link_of l) \<longrightarrow> link_inv (link_of l'))"
  by (auto simp: on_host_def same_rx_def link_of_def split: prod.splits)

lemma world_inv_creates:
  assumes "world_inv s" "on_host f (wl_lib s) = (r, l)" "\<And>ctx'. f (wl_ctx s) = (r, ctx') \<Longrightarrow> creates k r (wl_ctx s) ctx'"
  shows "world_inv (s\<lparr>wl_lib := l, wl_held := holding k r @ wl_held s\<rparr>)"
proof -
  note o = on_host_frame [OF assms(2)]
  then have "creates k r (wl_ctx s) (lb_ctx l)" using assms(3) by blast
  then show ?thesis using o world_inv_link [OF assms(1)] by (intro world_inv_adds [OF assms(1)]) (simp_all add: creates_def)
qed

lemma world_inv_on_host:
  assumes "world_inv s" "on_host f (wl_lib s) = (r, l)"
    and "\<And>ctx'. f (wl_ctx s) = (r, ctx') \<Longrightarrow> same_kinds (wl_ctx s) ctx' \<and> wakers_heap ctx' = wakers_heap (wl_ctx s)"
  shows "world_inv (s\<lparr>wl_lib := l\<rparr>)"
proof -
  note o = on_host_frame [OF assms(2)]
  then have "same_kinds (wl_ctx s) (lb_ctx l) \<and> wakers_heap (lb_ctx l) = wakers_heap (wl_ctx s)" using assms(3) by blast
  then show ?thesis using o world_inv_link [OF assms(1)] by (intro world_inv_same [OF assms(1)]) simp_all
qed

lemma world_inv_drop:
  assumes "world_inv s" "(rid, k) \<in> set (wl_held s)"
  shows "world_inv (s\<lparr>wl_lib := drop_res rid (wl_lib s), wl_held := remove1 (rid, k) (wl_held s)\<rparr>)"
proof -
  obtain r l where o: "on_host (ocall_close rid) (wl_lib s) = (r, l)" by fastforce
  note f = on_host_frame [OF o]
  have "removes rid (wl_ctx s) (lb_ctx l) \<and> wakers_heap (lb_ctx l) = wakers_heap (wl_ctx s)"
    using ocall_close_effect f by blast
  then show ?thesis
    using world_inv_removes [OF assms(1) _ _ _ assms(2), of l] f world_inv_link [OF assms(1)] by (simp add: drop_res_def o)
qed

lemma quiet_link:
  assumes "world_inv s" "quiet_poll env w pend (wl_lib s) l"
  shows "same_kinds (wl_ctx s) (lb_ctx l)" "same_rx (wl_lib s) l" "link_inv (link_of l)"
proof -
  have g: "guest_polls env w pend (wl_lib s) l" and k: "same_kinds (wl_ctx s) (lb_ctx l)"
    using assms(2) by (simp_all add: quiet_poll_def)
  show "same_kinds (wl_ctx s) (lb_ctx l)" by (rule k)
  show "same_rx (wl_lib s) l" "link_inv (link_of l)" using link_poll [OF g world_inv_link [OF assms(1)]] by simp_all
qed

lemma world_inv_quiet:
  assumes "world_inv s" "quiet_poll env w pend (wl_lib s) l"
  shows "world_inv (s\<lparr>wl_lib := l\<rparr>)"
  by (rule world_inv_same [OF assms(1) quiet_link [OF assms]])

lemma world_inv_send:
  assumes inv: "world_inv s" and "(rid, KOneshot) \<in> set (wl_held s)" and o: "on_host f (wl_lib s) = (r, l1)"
    and "\<And>ctx'. f (wl_ctx s) = (r, ctx') \<Longrightarrow> same_kinds (wl_ctx s) ctx' \<and> wakers_heap ctx' = wakers_heap (wl_ctx s)"
  shows "world_inv (s\<lparr>wl_lib := drop_res rid l1, wl_held := remove1 (rid, KOneshot) (wl_held s)\<rparr>)"
  using world_inv_drop [OF world_inv_on_host [OF inv o assms(4)], of rid KOneshot] assms(2) by simp

lemma world_inv_queries:
  assumes inv: "world_inv s" and new: "Some (new_handle env) \<noteq> http_connect_tx (wl_ctx s)"
    and q: "incoming_queries RC env (wl_lib s) = Ok (rid, l)"
  shows "world_inv (s\<lparr>wl_lib := l\<rparr>)"
proof (cases "lb_query_rx (wl_lib s)")
  case None
  obtain r l1 where o: "on_host (ocall_create_input_channel RC env ChQuery) (wl_lib s) = (r, l1)" by fastforce
  with q None have l: "l = l1\<lparr>lb_query_rx := Some rid\<rparr>" and r: "r = Ok rid"
    by (auto simp: incoming_queries_def split: result.splits)
  note f = on_host_frame [OF o]
  note e = ocall_create_input_channel_effect [OF conjunct1 [OF f, unfolded r], unfolded InputChannel.case]
  have t: "table_ok (resources (wl_ctx s))" using inv by (simp add: world_inv_def)
  have l1: "lb_query_rx l1 = None" "lb_http_rx l1 = lb_http_rx (wl_lib s)" using f None by (simp_all add: same_rx_def)
  let ?s = "s\<lparr>wl_lib := l\<rparr>"
  have "mset (references ?s) = mset ((rid, KChannel (new_handle env)) # references s)"
    using e l1 None by (simp add: references_mset l receiver_def)
  moreover have "refs_ok ((rid, KChannel (new_handle env)) # references s) (kinds (resources (lb_ctx l1)))"
    using refs_ok_add e t inv by (simp add: world_inv_def)
  ultimately have "refs_ok (references ?s) (kinds (resources (lb_ctx l1)))" using refs_ok_perm [THEN iffD2] by blast
  moreover have "chans_ok ?s"
    using inv e l1 new None by (auto simp: world_inv_def chans_ok_def chans_good_def l chan_for_def split: guest_message.splits)
  ultimately show ?thesis using f e t inv by (auto simp: world_inv_def l link_of_def)
next
  case (Some x)
  with q have "l = wl_lib s" by (simp add: incoming_queries_def)
  then show ?thesis using world_inv_same [OF inv, of l] world_inv_link [OF inv] by (simp add: same_rx_def)
qed

lemma world_inv_http_requests:
  assumes inv: "world_inv s" and new: "Some (new_handle env) \<noteq> query_tx (wl_ctx s)"
    and q: "incoming_http_requests RC env (wl_lib s) = Ok (rid, l)"
  shows "world_inv (s\<lparr>wl_lib := l\<rparr>)"
proof (cases "lb_http_rx (wl_lib s)")
  case None
  obtain r l1 where o: "on_host (ocall_create_input_channel RC env ChHttpRequest) (wl_lib s) = (r, l1)" by fastforce
  with q None have l: "l = l1\<lparr>lb_http_rx := Some rid\<rparr>" and r: "r = Ok rid"
    by (auto simp: incoming_http_requests_def split: result.splits)
  note f = on_host_frame [OF o]
  note e = ocall_create_input_channel_effect [OF conjunct1 [OF f, unfolded r], unfolded InputChannel.case]
  have t: "table_ok (resources (wl_ctx s))" using inv by (simp add: world_inv_def)
  have l1: "lb_http_rx l1 = None" "lb_query_rx l1 = lb_query_rx (wl_lib s)" using f None by (simp_all add: same_rx_def)
  let ?s = "s\<lparr>wl_lib := l\<rparr>"
  have "mset (references ?s) = mset ((rid, KChannel (new_handle env)) # references s)"
    using e l1 None by (simp add: references_mset l receiver_def)
  moreover have "refs_ok ((rid, KChannel (new_handle env)) # references s) (kinds (resources (lb_ctx l1)))"
    using refs_ok_add e t inv by (simp add: world_inv_def)
  ultimately have "refs_ok (references ?s) (kinds (resources (lb_ctx l1)))" using refs_ok_perm [THEN iffD2] by blast
  moreover have "chans_ok ?s"
    using inv e l1 new None by (auto simp: world_inv_def chans_ok_def chans_good_def l chan_for_def split: guest_message.splits)
  ultimately show ?thesis using f e t inv by (auto simp: world_inv_def l link_of_def)
next
  case (Some x)
  with q have "l = wl_lib s" by (simp add: incoming_http_requests_def)
  then show ?thesis using world_inv_same [OF inv, of l] world_inv_link [OF inv] by (simp add: same_rx_def)
qed

lemma world_inv_next_query:
  assumes inv: "world_inv s" and cd: "codec_ok libs enc" and rx: "lb_query_rx (wl_lib s) = Some rid" and ord: "in_order enc env (wl_inbox s)"
    and n: "query_next libs env w rid (wl_lib s) = Ok (Ready (Some q), l)"
  shows "world_inv (s\<lparr>wl_lib := l, wl_held := (gq_reply_tx q, KOneshot) # wl_held s,
    wl_inbox := received (query_tx (wl_ctx s)) (wl_inbox s)\<rparr>)"
proof -
  obtain h where h: "query_tx (wl_ctx s) = Some h" "table_get rid (resources (wl_ctx s)) = Ok (ChannelRx h)"
    by (rule query_receiver [OF inv rx])
  obtain x where x: "intern_waker w (lb_wakers (wl_lib s)) = Some x"
    using with_waker_table [OF n [unfolded query_next_def]] by blast
  obtain msg where msg: "chan_recv env h = Ready (Some msg)" "lc_dec_query libs msg = Some (gq_origin q, gq_path q, gq_payload q, gq_reply_tx q)"
    using query_next_channel [OF h(2) x, of libs env] n by (auto split: poll.splits option.splits prod.splits)
  obtain m q' where m: "take_msg h (wl_inbox s) = Some (m, q')" "msg = enc m"
    using ord msg(1) unfolding in_order_def by blast
  have "chans_good (lb_query_rx (wl_lib s)) (lb_http_rx (wl_lib s)) (query_tx (wl_ctx s)) (http_connect_tx (wl_ctx s)) (wl_inbox s)"
    using inv by (simp add: world_inv_def chans_ok_def)
  from chan_message(1) [OF this m(1) h(1)] obtain orig path d tx where "m = QueryRequest orig path d tx" by blast
  with msg(2) m(2) cd have "tells m = [(gq_reply_tx q, KOneshot)]" by (simp add: codec_ok_def tells_def)
  moreover have "received (query_tx (wl_ctx s)) (wl_inbox s) = q'" by (simp add: received_def h(1) m(1))
  ultimately show ?thesis
    using world_inv_receive [OF inv quiet_link [OF inv query_next_effect [OF n]] m(1), of "[(gq_reply_tx q, KOneshot)]"] by simp
qed

lemma world_inv_next_http:
  assumes inv: "world_inv s" and cd: "codec_ok libs enc" and rx: "lb_http_rx (wl_lib s) = Some rid" and ord: "in_order enc env (wl_inbox s)"
    and n: "http_next libs env w rid (wl_lib s) = Ok (Ready (Some r), l)"
  shows "world_inv (s\<lparr>wl_lib := l, wl_held := (gh_response_tx r, KOneshot) # (gh_io_stream r, KStream) # wl_held s,
    wl_inbox := received (http_connect_tx (wl_ctx s)) (wl_inbox s)\<rparr>)"
proof -
  obtain h where h: "http_connect_tx (wl_ctx s) = Some h" "table_get rid (resources (wl_ctx s)) = Ok (ChannelRx h)"
    by (rule http_receiver [OF inv rx])
  obtain x where x: "intern_waker w (lb_wakers (wl_lib s)) = Some x"
    using with_waker_table [OF n [unfolded http_next_def]] by blast
  obtain msg where msg: "chan_recv env h = Ready (Some msg)" "lc_dec_http libs msg = Some (gh_head r, gh_response_tx r, gh_io_stream r)"
    using http_next_channel [OF h(2) x, of libs env] n by (auto split: poll.splits option.splits prod.splits)
  obtain m q' where m: "take_msg h (wl_inbox s) = Some (m, q')" "msg = enc m"
    using ord msg(1) unfolding in_order_def by blast
  have "chans_good (lb_query_rx (wl_lib s)) (lb_http_rx (wl_lib s)) (query_tx (wl_ctx s)) (http_connect_tx (wl_ctx s)) (wl_inbox s)"
    using inv by (simp add: world_inv_def chans_ok_def)
  from chan_message(2) [OF this m(1) h(1)] obtain head tx io where "m = HttpRequest head tx io" by blast
  with msg(2) m(2) cd have "tells m = [(gh_response_tx r, KOneshot), (gh_io_stream r, KStream)]" by (simp add: codec_ok_def tells_def)
  moreover have "received (http_connect_tx (wl_ctx s)) (wl_inbox s) = q'" by (simp add: received_def h(1) m(1))
  ultimately show ?thesis
    using world_inv_receive [OF inv quiet_link [OF inv http_next_effect [OF n]] m(1), of "[(gh_response_tx r, KOneshot), (gh_io_stream r, KStream)]"] by simp
qed

lemma world_inv_step:
  assumes "codec_ok libs enc" "\<And>w ts. awake_wakers (wake w ts) = awake_wakers ts"
    and "world_step RC libs enc wake s s'" "world_inv s"
  shows "world_inv s'"
  using assms(3,4)
proof (cases rule: world_step.cases)
  case (w_bind env addr r l)
  from world_inv_creates [OF assms(4) w_bind(2) [unfolded tcp_bind_def] ocall_tcp_listen_effect] show ?thesis by (simp add: w_bind(1))
next
  case (w_bind_tls env addr conf r l)
  from world_inv_creates [OF assms(4) w_bind_tls(2) [unfolded tcp_bind_tls_def] ocall_tcp_listen_effect] show ?thesis by (simp add: w_bind_tls(1))
next
  case (w_sni env sni conf r l)
  from world_inv_creates [OF assms(4) w_sni(2) [unfolded guest_sni_bind_def] ocall_tls_listen_sni_effect] show ?thesis by (simp add: w_sni(1))
next
  case (w_connect env scheme host port r l)
  then consider p h where "on_host (ocall_tcp_connect RC env h p) (wl_lib s) = (r, l)"
    | p h where "on_host (ocall_tcp_connect_tls RC env h p) (wl_lib s) = (r, l)"
    by (auto simp: connect_with_components_def tcp_stream_connect_def Let_def split: if_splits)
  then show ?thesis unfolding w_connect(1)
    by cases (rule world_inv_creates [OF assms(4)], assumption, erule ocall_tcp_connect_effect ocall_tcp_connect_tls_effect)+
next
  case (w_accept rid env w p l)
  from poll_tcp_accept_effect [OF w_accept(3)] link_poll [OF _ world_inv_link [OF assms(4)]] show ?thesis
    unfolding w_accept(1) by (intro world_inv_adds [OF assms(4)]) auto
next
  case (w_connector rid env w p' l)
  from connector_poll_effect [OF w_connector(3)] link_poll [OF _ world_inv_link [OF assms(4)]] show ?thesis
    unfolding w_connector(1) by (intro world_inv_adds [OF assms(4)]) auto
next
  case (w_send rid env d ru l)
  then obtain r1 l1 where o: "on_host (ocall_oneshot_send env rid d) (wl_lib s) = (r1, l1)" "l = drop_res rid l1"
    by (auto simp: oneshot_sender_send_def Let_def split: prod.splits)
  from world_inv_send [OF assms(4) w_send(2) o(1) ocall_oneshot_effect(1)] show ?thesis by (simp add: w_send(1) o(2))
next
  case (w_send_error rid env e ru l)
  then obtain r1 l1 where o: "on_host (ocall_oneshot_send_error env rid e) (wl_lib s) = (r1, l1)" "l = drop_res rid l1"
    by (auto simp: oneshot_sender_send_error_def Let_def split: prod.splits)
  from world_inv_send [OF assms(4) w_send_error(2) o(1) ocall_oneshot_effect(2)] show ?thesis by (simp add: w_send_error(1) o(2))
next
  case (w_sleep env ms rid l)
  then have "on_host (ocall_create_timer env (millis_as_i32 ms)) (wl_lib s) = (Ok rid, l)"
    by (auto simp: sleep_def split: result.splits prod.splits)
  from world_inv_creates [OF assms(4) this ocall_create_timer_effect] show ?thesis by (simp add: w_sleep(1))
next
  case (w_reset rid env now instant u l)
  then obtain r where "on_host (ocall_reset_timer env rid (millis_as_i32 (millis_until now instant))) (wl_lib s) = (r, l)"
    by (auto simp: sleep_reset_def split: result.splits prod.splits)
  from world_inv_on_host [OF assms(4) this ocall_reset_timer_effect] show ?thesis by (simp add: w_reset(1))
next
  case (w_breath w pending pb pending' l)
  then have "l = wl_lib s \<or> l = (wl_lib s)\<lparr>lb_ctx := update_tasks (wake w) (wl_ctx s)\<rparr>" by (auto simp: breath_poll_def split: if_splits)
  then have "same_kinds (wl_ctx s) (lb_ctx l) \<and> same_rx (wl_lib s) l \<and> link_inv (link_of l)"
    using world_inv_link [OF assms(4)] link_update_tasks [OF _ assms(2)] by (auto simp: same_rx_def)
  then show ?thesis unfolding w_breath(1) by (intro world_inv_same [OF assms(4)]) auto
next
  case (w_log enabled lvl target args)
  obtain r l where o: "on_host (ocall_log RC lvl (target @ '': '' @ args)) (wl_lib s) = (r, l)" by fastforce
  have "logger_log RC enabled lvl target args (wl_lib s) = (if enabled then l else wl_lib s)"
    using o by (simp only: logger_log_def snd_conv)
  then show ?thesis
    using world_inv_on_host [OF assms(4) o ocall_log_effect] assms(4)
      world_inv_same [OF assms(4), of "wl_lib s"] world_inv_link [OF assms(4)]
    by (simp add: w_log same_rx_def)
next
  case (w_waker f c)
  then show ?thesis using world_inv_same [OF assms(4)] link_waker [OF world_inv_link [OF assms(4)] w_waker(2)]
    by (simp add: same_rx_def same_kinds_def chans_def)
next
  case (w_drain ts ids ts1 t' ts2)
  let ?l = "(wl_lib s)\<lparr>lb_wakers := t', lb_ctx := charge 500 ((wl_ctx s)\<lparr>wakers_heap := (wakers_heap (wl_ctx s))\<lparr>waker_tasks := Some ts2\<rparr>\<rparr>)\<rparr>"
  have "link_inv ((link_of (wl_lib s))\<lparr>link_table := t', link_heap := (link_heap (link_of (wl_lib s)))\<lparr>waker_tasks := Some ts2\<rparr>\<rparr>)"
    by (rule link_inv_drain [OF assms(2) world_inv_link [OF assms(4)]]) (use w_drain in \<open>simp_all add: link_of_def\<close>)
  then have "link_inv (link_of ?l)" by (simp add: link_of_def)
  moreover have "same_kinds (wl_ctx s) (lb_ctx ?l)" by (rule same_kinds_field) (simp_all add: chans_def charge_def)
  ultimately show ?thesis using world_inv_same [OF assms(4), of ?l] by (simp add: w_drain(1) same_rx_def)
next
  case (w_read rid env w b pu b' l)
  from world_inv_quiet [OF assms(4) tokio_poll_read_effect [OF w_read(3)]] show ?thesis unfolding w_read(1) .
next
  case (w_futures_read rid env w n pr l)
  from world_inv_quiet [OF assms(4) futures_poll_read_effect [OF w_futures_read(3)]] show ?thesis unfolding w_futures_read(1) .
next
  case (w_write rid env w d pw l)
  from world_inv_quiet [OF assms(4) guest_poll_write_effect [OF w_write(3)]] show ?thesis unfolding w_write(1) .
next
  case (w_shutdown rid env w ps l)
  from world_inv_quiet [OF assms(4) guest_poll_shutdown_effect [OF w_shutdown(3)]] show ?thesis unfolding w_shutdown(1) .
next
  case (w_no_query env w rid pq l)
  from world_inv_quiet [OF assms(4) query_next_effect [OF w_no_query(2)]] show ?thesis unfolding w_no_query(1) .
next
  case (w_no_http env w rid ph l)
  from world_inv_quiet [OF assms(4) http_next_effect [OF w_no_http(2)]] show ?thesis unfolding w_no_http(1) .
next
  case (w_sleeping rid env w pt l)
  from world_inv_quiet [OF assms(4) sleep_future_poll_effect [OF w_sleeping(3)]] show ?thesis unfolding w_sleeping(1) .
next
  case (w_queries env rid l)
  from world_inv_queries [OF assms(4) w_queries(2,3)] show ?thesis unfolding w_queries(1) .
next
  case (w_http_requests env rid l)
  from world_inv_http_requests [OF assms(4) w_http_requests(2,3)] show ?thesis unfolding w_http_requests(1) .
next
  case (w_next_query rid env w q l)
  from world_inv_next_query [OF assms(4,1) w_next_query(2-4)] show ?thesis unfolding w_next_query(1) .
next
  case (w_next_http rid env w h l)
  from world_inv_next_http [OF assms(4,1) w_next_http(2-4)] show ?thesis unfolding w_next_http(1) .
next
  case (w_drop rid k)
  from world_inv_drop [OF assms(4) w_drop(2)] show ?thesis unfolding w_drop(1) .
next
  case (w_push_query env acc path d reply rp ctx)
  from world_inv_deliver [OF assms(4) push_query_effect [OF w_push_query(2)]] show ?thesis unfolding w_push_query(1) .
next
  case (w_push_http env head body rp ctx)
  from world_inv_deliver [OF assms(4) push_http_effect [OF w_push_http(2)]] show ?thesis unfolding w_push_http(1) .
qed

section \<open>Reachable worlds\<close>

abbreviation reachable ::
  "'r RuntimeCalls \<Rightarrow> 'a GuestLibs \<Rightarrow> (guest_msg \<Rightarrow> bytes) \<Rightarrow> ('w \<Rightarrow> TaskSet \<Rightarrow> TaskSet) \<Rightarrow> ('w, 'r, 'c) World \<Rightarrow> bool" where
  "reachable RC libs enc wake s \<equiv>
     (\<exists>vid calls blobs cache m conf. (world_step RC libs enc wake)\<^sup>*\<^sup>* (world_start vid calls blobs cache m conf) s)"

lemma world_inv_start: "world_inv (world_start vid calls blobs cache m conf)"
proof -
  have "kinds [] = Map.empty" by (auto simp: kinds_def table_get_def slot_get_def ok_or_def)
  then show ?thesis
    by (simp add: world_inv_def world_start_def ctx_new_def table_ok_def refs_ok_def references_def receiver_def told_def
        chans_ok_def chans_good_def link_inv_def link_of_def wakers_ok_def heap_inv_def cell_map_def cell_ids_def
        slots_live_def slot_get_def dom_def ran_def with_task0_def)
qed

lemma world_inv_reachable:
  assumes "codec_ok libs enc" "\<And>w ts. awake_wakers (wake w ts) = awake_wakers ts" "reachable RC libs enc wake s"
  shows "world_inv s"
proof -
  from assms(3) obtain vid calls blobs cache m conf where
    "(world_step RC libs enc wake)\<^sup>*\<^sup>* (world_start vid calls blobs cache m conf) s" by blast
  then show ?thesis
    by (induction rule: rtranclp_induct) (auto intro: world_inv_start world_inv_step [OF assms(1,2)])
qed

section \<open>An example\<close>

text \<open>A codec of messages: bytes behind a mark each, everything else as bytes.\<close>

fun demo_enc_bytes :: "bytes \<Rightarrow> bytes" where
  "demo_enc_bytes [] = [0]"
| "demo_enc_bytes (b # bs) = 1 # b # demo_enc_bytes bs"

fun demo_dec_bytes :: "bytes \<Rightarrow> bytes \<times> bytes" where
  "demo_dec_bytes [] = ([], [])"
| "demo_dec_bytes [x] = ([], [])"
| "demo_dec_bytes (x # y # rest) =
     (if x = 0 then ([], y # rest) else (let (bs, r) = demo_dec_bytes rest in (y # bs, r)))"

lemma demo_dec_enc [simp]: "demo_dec_bytes (demo_enc_bytes bs @ rest) = (bs, rest)"
proof (induction bs)
  case Nil
  show ?case by (cases rest) simp_all
qed simp

fun demo_enc :: "guest_msg \<Rightarrow> bytes" where
  "demo_enc (QueryRequest orig path d tx) =
     demo_enc_bytes (case orig of None \<Rightarrow> [] | Some a \<Rightarrow> 1 # a) @ demo_enc_bytes (map (\<lambda>c. of_nat (of_char c)) path) @
     demo_enc_bytes d @ demo_enc_bytes (replicate (unat tx) 0)"
| "demo_enc (HttpRequest head tx io) =
     demo_enc_bytes (map (\<lambda>c. of_nat (of_char c)) head) @ demo_enc_bytes (replicate (unat tx) 0) @
     demo_enc_bytes (replicate (unat io) 0)"

definition demo_guest_libs :: "string GuestLibs" where
  "demo_guest_libs =
     \<lparr> lc_dec_query = (\<lambda>data.
          let (orig, d1) = demo_dec_bytes data; (path, d2) = demo_dec_bytes d1; (payload, d3) = demo_dec_bytes d2; (tx, _) = demo_dec_bytes d3
          in Some (if orig = [] then None else Some (tl orig), map (\<lambda>b. char_of (unat b)) path, payload, of_nat (length tx))),
       lc_dec_http = (\<lambda>data.
          let (head, d1) = demo_dec_bytes data; (tx, d2) = demo_dec_bytes d1; (io, _) = demo_dec_bytes d2
          in Some (map (\<lambda>b. char_of (unat b)) head, of_nat (length tx), of_nat (length io))),
       lc_enc_head = (\<lambda>status headers. []), lc_parse_addr = Some \<rparr>"

lemma demo_char [simp]: "char_of (unat (of_nat (of_char c) :: u8)) = c"
  by (simp add: unsigned_of_nat take_bit_nat_eq_self)

lemma demo_codec: "codec_ok demo_guest_libs demo_enc"
proof -
  have last: "demo_dec_bytes (demo_enc_bytes bs) = (bs, [])" for bs using demo_dec_enc [of bs "[]"] by simp
  show ?thesis
    by (auto simp: codec_ok_def demo_guest_libs_def last comp_def split: option.splits)
qed

definition demo_polling :: HostEnv where
  "demo_polling = demo_env\<lparr>retains := True\<rparr>"

definition demo_world_start :: "(i32, unit, string \<Rightarrow> bytes option) World" where
  "demo_world_start = world_start [1, 2] () \<lparr> files = Map.empty, tmp_files = Map.empty \<rparr> Map.empty (meter_default 0)
     \<lparr> tcp_listen_port_range = (8000, 9000), sni_tls_listener = None \<rparr>"

text \<open>A world in which a timer is held.\<close>

definition demo_world :: "(i32, unit, string \<Rightarrow> bytes option) World" where
  "demo_world =
     (case sleep demo_polling 1000 (wl_lib demo_world_start) of
        Ok (rid, l) \<Rightarrow> demo_world_start\<lparr>wl_lib := l, wl_held := (rid, KSleep) # wl_held demo_world_start\<rparr>
      | Err _ \<Rightarrow> demo_world_start)"

lemma demo_sleep:
  "\<exists>l. sleep demo_polling 1000 (wl_lib demo_world_start) = Ok (0, l) \<and> resources (lb_ctx l) = [Some (Sleep 11)] \<and>
     lb_wakers l = \<lparr> wakers = [], cached_waker_ids = [] \<rparr> \<and> lb_query_rx l = None \<and> lb_http_rx l = None \<and>
     wakers_heap (lb_ctx l) = \<lparr> waker_tasks = Some with_task0, cells = [], next_cell = 0, parents_woken = [] \<rparr>"
proof -
  have "new_handle demo_polling = 11" by (simp add: demo_polling_def demo_env_def HostEnv.fields_def IoEnv.extend_def)
  then show ?thesis
    by (auto simp: sleep_def on_host_def ocall_create_timer_def ctx_push_def charge_def demo_world_start_def world_start_def
        ctx_new_def table_push_def usize_try_into_i32_def RESOURCE_ID_MAX_def Let_def)
qed

lemma demo_world_reachable:
  "reachable unit_runtime_calls demo_guest_libs demo_enc push_task demo_world"
proof -
  obtain l where l: "sleep demo_polling 1000 (wl_lib demo_world_start) = Ok (0, l)" using demo_sleep by blast
  have "world_step unit_runtime_calls demo_guest_libs demo_enc push_task demo_world_start demo_world"
    using world_step.w_sleep [OF l, of unit_runtime_calls demo_guest_libs demo_enc push_task] by (simp add: demo_world_def l)
  then show ?thesis unfolding demo_world_start_def by (meson r_into_rtranclp)
qed

lemma demo_world_fields:
  "wl_held demo_world = [(0, KSleep)]" "wl_inbox demo_world = []" "resources (wl_ctx demo_world) = [Some (Sleep 11)]"
  "lb_wakers (wl_lib demo_world) = \<lparr> wakers = [], cached_waker_ids = [] \<rparr>"
  "lb_query_rx (wl_lib demo_world) = None" "lb_http_rx (wl_lib demo_world) = None"
  using demo_sleep by (auto simp: demo_world_def demo_world_start_def world_start_def)

section \<open>Handles are typed\<close>

text \<open>
  C13: the Rust types of handles are sound on the host's table of numbered resources. In every world a program can reach with the
  library, whatever the host answers and whenever it sends messages, the ids in the handles the program holds, in its
  receivers and in messages on their way are all different, each names a resource of the kind its type stands for, and
  every resource the host keeps for the program is named by one of them: nothing dangles and nothing leaks.
\<close>

theorem library_handles_typed:
  assumes "codec_ok libs enc" "\<And>w ts. awake_wakers (wake w ts) = awake_wakers ts" "reachable RC libs enc wake s"
  shows "distinct (map fst (references s)) \<and>
    (\<forall>rid k. (rid, k) \<in> set (references s) \<longleftrightarrow>
       (\<exists>res. table_get rid (resources (wl_ctx s)) = Ok res \<and> kind_of res = k))"
proof -
  have inv: "refs_ok (references s) (kinds (resources (wl_ctx s)))"
    using world_inv_reachable [OF assms] by (simp add: world_inv_def)
  have "(rid, k) \<in> set (references s) \<longleftrightarrow> kinds (resources (wl_ctx s)) rid = Some k" for rid k
    using inv by (simp add: refs_ok_def)
  then show ?thesis using inv by (auto simp: refs_ok_def kinds_def split: result.splits)
qed

theorem library_handles_typed_witness:
  "references demo_world = [(0, KSleep)] \<and> (\<exists>res. table_get 0 (resources (wl_ctx demo_world)) = Ok res \<and> kind_of res = KSleep)"
proof -
  have "references demo_world = [(0, KSleep)]" by (simp add: references_def demo_world_fields receiver_def told_def)
  with library_handles_typed [OF demo_codec push_task_wakers demo_world_reachable] show ?thesis by auto
qed

section \<open>Polls never panic\<close>

lemma sleep_poll_value:
  assumes "table_get rid (resources (lb_ctx l)) = Ok (Sleep h)" "intern_waker w (lb_wakers l) \<noteq> None"
  shows "\<exists>l'. sleep_future_poll env w rid l = Ok (sleep_poll env h, l')"
  using assms
  by (auto simp: sleep_future_poll_def with_waker_def ocall_poll_read_def make_poll_context_def charge_def Let_def IoEnv.defs
      split: prod.splits option.splits poll.splits)

lemma kind_SleepD: "kind_of res = KSleep \<Longrightarrow> \<exists>h. res = Sleep h"
  by (cases res) auto

lemma stream_read_errors:
  assumes "kind_of res = KStream" "resource_poll_read io n res m = Some (Err e, res', m')"
  shows "e = IoError \<or> e = Pending"
proof (cases res)
  case (TcpStream h)
  with assms(2) obtain k where "(Err e, m') = read_outcome (tcp_try_read io h n k) (tcp_read_ready io h k) m"
    by (auto dest: tcp_poll_read_SomeD)
  then show ?thesis by (auto simp: read_outcome_def split: result.splits poll.splits if_splits)
next
  case (TlsStream t)
  with assms(2) show ?thesis by (auto simp: stream_poll_read_def Let_def split: prod.splits poll.splits result.splits)
next
  case (DuplexStream h)
  with assms(2) show ?thesis by (auto simp: stream_poll_read_def Let_def split: prod.splits poll.splits result.splits)
qed (use assms in auto)

lemma ocall_stream_read_errors:
  assumes "table_get rid (resources ctx) = Ok res" "kind_of res = KStream" "ocall_poll_read env wid rid n ctx = Some (Err e, ctx')"
  shows "e = IoError \<or> e = Pending"
  using assms
  by (auto simp: ocall_poll_read_def make_poll_context_def charge_def Let_def split: prod.splits dest: stream_read_errors [OF assms(2)])

lemma poll_res_errors:
  assumes "kind_of res = KConnect" "resource_poll_res io res m = (Err e, m')"
  shows "e = IoError \<or> e = Pending"
  using assms by (cases res) (auto split: poll.splits result.splits)

lemma ctx_push_errors: "ctx_push res ctx = (Err e, ctx') \<Longrightarrow> e = ResourceLimited"
  by (auto simp: ctx_push_def table_push_def Let_def split: prod.splits option.splits if_splits)

lemma ocall_poll_res_errors:
  assumes "table_get rid (resources ctx) = Ok res" "kind_of res = KConnect" "ocall_poll_res env wid rid ctx = (Err e, ctx')"
  shows "e \<in> {IoError, Pending, ResourceLimited}"
proof -
  obtain c ctx1 where m: "make_poll_context env wid (charge 200 ctx) = (c, ctx1)" by fastforce
  have r: "resources ctx1 = resources ctx" using m by (auto simp: make_poll_context_def charge_def Let_def split: prod.splits)
  obtain r1 m1 where p: "resource_poll_res (IoEnv.truncate env) res (meter ctx1) = (r1, m1)" by fastforce
  show ?thesis
  proof (cases r1)
    case (Err e1)
    with assms(1,3) m r p have "e = e1" by (auto simp: ocall_poll_res_def)
    then show ?thesis using poll_res_errors [OF assms(2)] p Err by auto
  next
    case (Ok new_res)
    with assms(1,3) m r p have "ctx_push new_res (end_poll_context (retains env) c (ctx1\<lparr>meter := m1\<rparr>)) = (Err e, ctx')"
      by (auto simp: ocall_poll_res_def)
    then show ?thesis using ctx_push_errors by blast
  qed
qed

lemma query_next_works:
  assumes inv: "world_inv s" and cd: "codec_ok libs enc" and ord: "in_order enc env (wl_inbox s)"
    and x: "intern_waker w (lb_wakers (wl_lib s)) \<noteq> None" and rx: "lb_query_rx (wl_lib s) = Some rid"
  shows "\<exists>p l. query_next libs env w rid (wl_lib s) = Ok (p, l)"
proof -
  obtain h where h: "query_tx (wl_ctx s) = Some h" "table_get rid (resources (wl_ctx s)) = Ok (ChannelRx h)"
    by (rule query_receiver [OF inv rx])
  have "lc_dec_query libs msg \<noteq> None" if msg: "chan_recv env h = Ready (Some msg)" for msg
  proof -
    obtain m q' where m: "take_msg h (wl_inbox s) = Some (m, q')" "msg = enc m" using ord msg unfolding in_order_def by blast
    from inv have "chans_good (lb_query_rx (wl_lib s)) (lb_http_rx (wl_lib s)) (query_tx (wl_ctx s)) (http_connect_tx (wl_ctx s)) (wl_inbox s)"
      by (simp add: world_inv_def chans_ok_def)
    from chan_message(1) [OF this m(1) h(1)] m(2) cd show ?thesis by (auto simp: codec_ok_def)
  qed
  moreover obtain y where "intern_waker w (lb_wakers (wl_lib s)) = Some y" using x by blast
  ultimately have "\<exists>p. map_ok fst (query_next libs env w rid (wl_lib s)) = Ok p"
    by (auto simp: query_next_channel [OF h(2)] split: poll.splits option.splits)
  then show ?thesis by (cases "query_next libs env w rid (wl_lib s)") auto
qed

lemma http_next_works:
  assumes inv: "world_inv s" and cd: "codec_ok libs enc" and ord: "in_order enc env (wl_inbox s)"
    and x: "intern_waker w (lb_wakers (wl_lib s)) \<noteq> None" and rx: "lb_http_rx (wl_lib s) = Some rid"
  shows "\<exists>p l. http_next libs env w rid (wl_lib s) = Ok (p, l)"
proof -
  obtain h where h: "http_connect_tx (wl_ctx s) = Some h" "table_get rid (resources (wl_ctx s)) = Ok (ChannelRx h)"
    by (rule http_receiver [OF inv rx])
  have "lc_dec_http libs msg \<noteq> None" if msg: "chan_recv env h = Ready (Some msg)" for msg
  proof -
    obtain m q' where m: "take_msg h (wl_inbox s) = Some (m, q')" "msg = enc m" using ord msg unfolding in_order_def by blast
    from inv have "chans_good (lb_query_rx (wl_lib s)) (lb_http_rx (wl_lib s)) (query_tx (wl_ctx s)) (http_connect_tx (wl_ctx s)) (wl_inbox s)"
      by (simp add: world_inv_def chans_ok_def)
    from chan_message(2) [OF this m(1) h(1)] m(2) cd show ?thesis by (auto simp: codec_ok_def)
  qed
  moreover obtain y where "intern_waker w (lb_wakers (wl_lib s)) = Some y" using x by blast
  ultimately have "\<exists>p. map_ok fst (http_next libs env w rid (wl_lib s)) = Ok p"
    by (auto simp: http_next_channel [OF h(2)] split: poll.splits option.splits)
  then show ?thesis by (cases "http_next libs env w rid (wl_lib s)") auto
qed

lemma connector_errors:
  assumes "table_get rid (resources (lb_ctx l)) = Ok res" "kind_of res = KConnect" "connector_poll env w (Ok rid) l = Ok (Ready (Err e), l')"
  shows "e \<in> {IoError, ResourceLimited}"
proof -
  obtain wid t where x: "intern_waker w (lb_wakers l) = Some (wid, t)"
    using assms(3) by (auto simp: connector_poll_def with_waker_def split: option.splits)
  obtain r ctx' where o: "ocall_poll_res env wid rid (lb_ctx l) = (r, ctx')" by fastforce
  have "poll_of r = Ready (Err e)" using assms(3) x o by (auto simp: connector_poll_def with_waker_def on_host_def)
  then have "r = Err e \<and> e \<noteq> Pending" by (cases r) (auto split: if_splits)
  then show ?thesis using ocall_poll_res_errors [OF assms(1,2)] o by blast
qed

lemma futures_read_errors:
  assumes "table_get rid (resources (lb_ctx l)) = Ok res" "kind_of res = KStream" "futures_poll_read env w rid n l = Ok (Ready (Err e), l')"
  shows "e = error_to_i32 IoError"
proof -
  obtain wid r ctx' where o: "ocall_poll_read env wid rid n (lb_ctx l) = Some (r, ctx')"
    and "into_poll (map_ok (\<lambda>(len, data). (unat len, data)) r) = Ready (Err e)"
    using assms(3) by (auto simp: futures_poll_read_def with_waker_def split: option.splits)
  then obtain e' where "r = Err e'" "e' \<noteq> Pending" "e = error_to_i32 e'" by (cases r) (auto split: if_splits)
  then show ?thesis using ocall_stream_read_errors [OF assms(1,2)] o by blast
qed

text \<open>
  C15: in every world a program can reach, polling a handle it holds works: as long as the waker table has room, waiting for a timer
  and receiving a query or an HTTP request return a value, where the library would panic on any other error of
  the host; and polling a connection that is being made or reading a stream fails only for reasons of the network or for want
  of a free id, never because the id is unknown or of another kind.
\<close>

theorem held_handles_work:
  assumes "codec_ok libs enc" "\<And>w ts. awake_wakers (wake w ts) = awake_wakers ts" "reachable RC libs enc wake s"
    and "in_order enc env (wl_inbox s)" "intern_waker w (lb_wakers (wl_lib s)) \<noteq> None"
  shows "((rid, KSleep) \<in> set (wl_held s) \<longrightarrow> (\<exists>p l. sleep_future_poll env w rid (wl_lib s) = Ok (p, l))) \<and>
    (lb_query_rx (wl_lib s) = Some rid \<longrightarrow> (\<exists>p l. query_next libs env w rid (wl_lib s) = Ok (p, l))) \<and>
    (lb_http_rx (wl_lib s) = Some rid \<longrightarrow> (\<exists>p l. http_next libs env w rid (wl_lib s) = Ok (p, l))) \<and>
    ((rid, KConnect) \<in> set (wl_held s) \<longrightarrow>
       (\<forall>e l. connector_poll env w (Ok rid) (wl_lib s) = Ok (Ready (Err e), l) \<longrightarrow> e \<in> {IoError, ResourceLimited})) \<and>
    ((rid, KStream) \<in> set (wl_held s) \<longrightarrow>
       (\<forall>e l. futures_poll_read env w rid n (wl_lib s) = Ok (Ready (Err e), l) \<longrightarrow> e = error_to_i32 IoError))"
proof -
  have inv: "world_inv s" by (rule world_inv_reachable [OF assms(1-3)])
  have held: "\<exists>res. table_get rid (resources (wl_ctx s)) = Ok res \<and> kind_of res = k" if "(rid, k) \<in> set (wl_held s)" for k
    by (rule held_kind [OF inv]) (use that in \<open>simp add: references_def\<close>)
  have "\<exists>p l. sleep_future_poll env w rid (wl_lib s) = Ok (p, l)" if "(rid, KSleep) \<in> set (wl_held s)"
    using held [OF that] sleep_poll_value assms(5) kind_SleepD by metis
  moreover have "e \<in> {IoError, ResourceLimited}"
    if "(rid, KConnect) \<in> set (wl_held s)" "connector_poll env w (Ok rid) (wl_lib s) = Ok (Ready (Err e), l)" for e l
    using held [OF that(1)] connector_errors [OF _ _ that(2)] by metis
  moreover have "e = error_to_i32 IoError"
    if "(rid, KStream) \<in> set (wl_held s)" "futures_poll_read env w rid n (wl_lib s) = Ok (Ready (Err e), l)" for e l
    using held [OF that(1)] futures_read_errors [OF _ _ that(2)] by metis
  ultimately show ?thesis
    using query_next_works [OF inv assms(1,4,5)] http_next_works [OF inv assms(1,4,5)] by blast
qed

theorem held_handles_work_witness:
  "\<exists>p l. sleep_future_poll demo_polling 4 0 (wl_lib demo_world) = Ok (p, l)"
proof -
  have "in_order demo_enc demo_polling (wl_inbox demo_world)"
    by (simp add: in_order_def demo_polling_def demo_env_def HostEnv.fields_def IoEnv.extend_def io_idle_def)
  moreover have "intern_waker 4 (lb_wakers (wl_lib demo_world)) \<noteq> None"
    by (simp add: demo_world_fields intern_waker_def get_free_waker_id_def MAX_N_WAKERS_def)
  ultimately show ?thesis
    using held_handles_work [OF demo_codec push_task_wakers demo_world_reachable, of demo_polling 4 0] by (simp add: demo_world_fields)
qed

section \<open>A pending poll is woken\<close>

text \<open>The polls of the library that end pending, with the waker of the task that made them.\<close>

definition polls_pending ::
  "'a GuestLibs \<Rightarrow> HostEnv \<Rightarrow> 'w \<Rightarrow> ('w, 'r, 'c) Lib \<Rightarrow> ('w, 'r, 'c) Lib \<Rightarrow> bool" where
  "polls_pending libs env w l l' \<longleftrightarrow>
     (\<exists>rid. poll_tcp_accept libs env w rid l = Ok (Pend, l') \<or> connector_poll env w (Ok rid) l = Ok (Pend, l') \<or>
        query_next libs env w rid l = Ok (Pend, l') \<or> http_next libs env w rid l = Ok (Pend, l') \<or>
        sleep_future_poll env w rid l = Ok (Pend, l') \<or> guest_poll_shutdown env w rid l = Ok (Pend, l') \<or>
        (\<exists>n. futures_poll_read env w rid n l = Ok (Pend, l')) \<or> (\<exists>d. guest_poll_write env w rid d l = Ok (Pend, l')) \<or>
        (\<exists>b b'. tokio_poll_read env w rid b l = Ok (Pend, b', l')))"

lemma polls_pending_polls: "polls_pending libs env w l l' \<Longrightarrow> guest_polls env w True l l'"
  unfolding polls_pending_def
  by (auto dest!: poll_tcp_accept_effect connector_poll_effect query_next_effect http_next_effect sleep_future_poll_effect
      guest_poll_shutdown_effect futures_poll_read_effect guest_poll_write_effect tokio_poll_read_effect simp: quiet_poll_def)

lemma poll_heap_kept:
  assumes "map_of (cells h) (next_cell h) = None"
  shows "map_of (cells (poll_heap env wid True h)) (next_cell h) =
      Some \<lparr> waker_id = wid, this_task = cur_task env, parent = cur_parent env, refs = 1 \<rparr> \<and>
    waker_tasks (poll_heap env wid True h) = waker_tasks h"
  by (simp add: poll_heap_def from_id_def Let_def clone_waker_def drop_waker_def hash.lookup_insert)

text \<open>
  C14: no wake-up is lost between guest and host. Whenever, in a world a program can reach, a poll of the library ends pending and the object
  polled keeps the waker, as the contract of pending polls demands, the host holds a handle to it with these effects: waking it
  marks the polling task ready and queues an id, and when the guest processes that id it wakes the very
  waker that was polled with.
\<close>

theorem pending_poll_is_woken:
  assumes "codec_ok libs enc" "\<And>w ts. awake_wakers (wake w ts) = awake_wakers ts" "reachable RC libs enc wake s"
    and "polls_pending libs env w (wl_lib s) l" "retains env"
  shows "\<exists>c wid ts. waker_tasks (wake_by_ref_waker c (wakers_heap (lb_ctx l))) = Some ts \<and>
    cur_task env \<in> set (awake_tasks ts) \<and> wid \<in> set (awake_wakers ts) \<and> 0 \<le> sint wid \<and>
    guest_wake_waker wake wid (lb_wakers l) = wake w"
proof -
  have inv: "world_inv s" by (rule world_inv_reachable [OF assms(1-3)])
  let ?h = "wakers_heap (wl_ctx s)"
  have link: "wakers_ok (lb_wakers (wl_lib s))" "heap_inv (lb_wakers (wl_lib s)) (lb_origin (wl_lib s)) ?h"
    using world_inv_link [OF inv] by (simp_all add: link_inv_def link_of_def)
  obtain ts0 where ts0: "waker_tasks ?h = Some ts0" using link(2) by (auto simp: heap_inv_def)
  have fresh: "map_of (cells ?h) (next_cell ?h) = None"
  proof -
    have "next_cell ?h \<notin> dom (cell_map ?h)" using link(2) by (auto simp: heap_inv_def)
    then show ?thesis by (auto simp: cell_map_def)
  qed
  obtain wid t ctx' where g: "intern_waker w (lb_wakers (wl_lib s)) = Some (wid, t)"
    "l = (wl_lib s)\<lparr>lb_wakers := t, lb_origin := (lb_origin (wl_lib s))(next_cell ?h \<mapsto> w), lb_ctx := ctx'\<rparr>"
    "wakers_heap ctx' = poll_heap env wid True ?h"
    using polls_pending_polls [OF assms(4)] assms(5) by (auto simp: guest_polls_def)
  note cell = poll_heap_kept [OF fresh, of env wid]
  let ?ts = "push_waker wid (push_task (cur_task env) ts0)"
  have "waker_tasks (wake_by_ref_waker (next_cell ?h) (wakers_heap (lb_ctx l))) = Some ?ts"
    using cell ts0 by (simp add: g(2,3) wake_by_ref_waker_def guest_wake_by_ref_def)
  moreover have "wid \<in> set (awake_wakers ?ts)" "cur_task env \<in> set (awake_tasks ?ts)"
    using push_task_mem by (simp_all add: push_waker_def)
  moreover have "guest_wake_waker wake wid (lb_wakers l) = wake w"
  proof -
    note c = intern_waker_cases [OF link(1) g(1)]
    then have "slot_get (wakers t) (unat wid) = Some w"
      by (auto simp: slot_get_def free_id_def nth_append)
    then show ?thesis by (simp add: guest_wake_waker_def g(2) fun_eq_iff)
  qed
  moreover have "0 \<le> sint wid" using intern_waker_cases [OF link(1) g(1)] small_id_sign by blast
  ultimately show ?thesis by blast
qed

theorem pending_poll_is_woken_witness:
  "\<exists>l c wid ts. sleep_future_poll demo_polling 4 0 (wl_lib demo_world) = Ok (Pend, l) \<and>
     waker_tasks (wake_by_ref_waker c (wakers_heap (lb_ctx l))) = Some ts \<and> wid \<in> set (awake_wakers ts) \<and>
     guest_wake_waker push_task wid (lb_wakers l) = push_task 4"
proof -
  have "intern_waker (4 :: i32) (lb_wakers (wl_lib demo_world)) \<noteq> None"
    by (simp add: demo_world_fields intern_waker_def get_free_waker_id_def MAX_N_WAKERS_def)
  moreover have "sleep_poll demo_polling 11 = Pend"
    by (simp add: demo_polling_def demo_env_def HostEnv.fields_def IoEnv.extend_def io_idle_def)
  moreover have "table_get 0 (resources (wl_ctx demo_world)) = Ok (Sleep 11)"
    by (simp add: demo_world_fields table_get_def slot_get_def ok_or_def i32_as_usize_def)
  ultimately obtain l where l: "sleep_future_poll demo_polling 4 0 (wl_lib demo_world) = Ok (Pend, l)"
    using sleep_poll_value [of 0 "wl_lib demo_world" 11 4 demo_polling] by auto
  then have "polls_pending demo_guest_libs demo_polling 4 (wl_lib demo_world) l" unfolding polls_pending_def by blast
  moreover have "retains demo_polling" by (simp add: demo_polling_def)
  ultimately show ?thesis
    using pending_poll_is_woken [OF demo_codec push_task_wakers demo_world_reachable] l by blast
qed

section \<open>Ways to read a stream\<close>

lemma poll_read_sizes:
  assumes io: "io_contract io" and len: "n < 2 ^ 32" and res: "resource_poll_read io n res m = Some (Ok (k, data), res', m')"
  shows "unat k = length data \<and> length data \<le> n"
proof -
  have fits: "unat (of_nat (length d) :: u32) = length d" if "length d \<le> n" for d :: bytes
    using that len by (simp add: unsigned_of_nat take_bit_nat_eq_self)
  show ?thesis
  proof (cases res)
    case (TcpStream h)
    with res obtain i where "(Ok (k, data), m') = read_outcome (tcp_try_read io h n i) (tcp_read_ready io h i) m"
      by (auto dest: tcp_poll_read_SomeD)
    with io fits show ?thesis by (auto simp: read_outcome_def io_contract_def split: result.splits poll.splits if_splits)
  next
    case (TlsStream t)
    with res io fits show ?thesis
      by (cases t) (auto simp: stream_poll_read_def tls_macro_defs io_contract_def split: poll.splits result.splits prod.splits)
  next
    case (DuplexStream h)
    with res io fits show ?thesis by (auto simp: stream_poll_read_def io_contract_def Let_def split: poll.splits result.splits)
  qed (use res in \<open>auto split: poll.splits\<close>)
qed

lemma ocall_poll_read_sizes:
  assumes "io_contract (IoEnv.truncate env)" "n < 2 ^ 32" "ocall_poll_read env wid rid n ctx = Some (Ok (k, data), ctx')"
  shows "unat k = length data \<and> length data \<le> n"
  using assms(3) poll_read_sizes [OF assms(1,2)]
  by (auto simp: ocall_poll_read_def Let_def split: prod.splits result.splits)

text \<open>What a read through the interface of tokio makes of the answer of a read through the one of the futures crate.\<close>

fun as_tokio :: "ReadBuf \<Rightarrow> (nat \<times> bytes, i32) result poll \<times> 's \<Rightarrow> (unit, i32) result poll \<times> ReadBuf \<times> 's" where
  "as_tokio b (Pend, l) = (Pend, b, l)"
| "as_tokio b (Ready (Err e), l) = (Ready (Err e), b, l)"
| "as_tokio b (Ready (Ok (n, data)), l) = (Ready (Ok ()), b\<lparr>rb_filled := rb_filled b @ data\<rparr>, l)"

lemma rb_empty [simp]: "rb_remaining \<lparr> rb_filled = [], rb_capacity = n \<rparr> = n"
  by (simp add: rb_remaining_def)

lemma as_tokio_nested:
  "(case as_tokio \<lparr> rb_filled = [], rb_capacity = n \<rparr> x of
      (p, tbuf, s') \<Rightarrow>
        (case p of
           Ready (Ok _) \<Rightarrow> (Ready (Ok ()), b\<lparr>rb_filled := rb_filled b @ rb_filled tbuf\<rparr>, s')
         | other \<Rightarrow> (other, b, s'))) = as_tokio b x"
  by (cases "(b, x)" rule: as_tokio.cases) auto

lemma as_tokio_nested_take:
  "(case as_tokio \<lparr> rb_filled = [], rb_capacity = n \<rparr> x of
      (p, buf, s') \<Rightarrow>
        (case p of
           Ready (Ok _) \<Rightarrow>
             (let filled = length (rb_filled b); sub_filled = length (rb_filled buf); n_filled = filled + sub_filled
              in (Ready (Ok ()), b\<lparr>rb_filled := take n_filled (rb_filled b @ rb_filled buf)\<rparr>, s'))
         | other \<Rightarrow> (other, b, s'))) = as_tokio b x"
  by (cases "(b, x)" rule: as_tokio.cases) auto

lemma tokio_reads:
  assumes "io_contract (IoEnv.truncate env)" "rb_remaining b < 2 ^ 32"
  shows "tokio_poll_read env w rid b l = map_ok (as_tokio b) (futures_poll_read env w rid (rb_remaining b) l)"
proof (cases "intern_waker w (lb_wakers l)")
  case (Some x)
  obtain wid t where x: "x = (wid, t)" by fastforce
  show ?thesis
  proof (cases "ocall_poll_read env wid rid (rb_remaining b) (lb_ctx l)")
    case (Some y)
    obtain r ctx where y: "y = (r, ctx)" by fastforce
    have "unat k = length data \<and> length data \<le> rb_remaining b" if "r = Ok (k, data)" for k data
      using ocall_poll_read_sizes [OF assms] Some y that by blast
    then show ?thesis
      using \<open>intern_waker w (lb_wakers l) = Some x\<close> x Some y
      by (cases r) (auto simp: tokio_poll_read_def futures_poll_read_def with_waker_def Let_def not_less)
  qed (use \<open>intern_waker w (lb_wakers l) = Some x\<close> x in \<open>simp add: tokio_poll_read_def futures_poll_read_def with_waker_def Let_def\<close>)
qed (simp add: tokio_poll_read_def futures_poll_read_def with_waker_def Let_def)

lemma hyper_reads:
  assumes "io_contract (IoEnv.truncate env)" "rb_remaining b < 2 ^ 32"
  shows "hyper_read_from_tokio (tokio_poll_read env w rid) b l = map_ok (as_tokio b) (futures_poll_read env w rid (rb_remaining b) l)"
  using tokio_reads [OF assms(1), of "\<lparr> rb_filled = [], rb_capacity = rb_remaining b \<rparr>" w rid l] assms(2)
  by (cases "futures_poll_read env w rid (rb_remaining b) l") (simp_all add: hyper_read_from_tokio_def as_tokio_nested)

text \<open>
  C40: it makes no difference through which interface a program reads a stream. Reading into a buffer of tokio appends exactly the bytes that a read through
  the interface of the futures crate returns for a buffer of the room left, leaves the buffer alone if that is
  pending or fails, and never takes the branch for a count that exceeds the buffer; and the adapters to hyper's buffers and back
  read the same.
\<close>

theorem reads_agree:
  assumes "io_contract (IoEnv.truncate env)" "rb_remaining b < 2 ^ 32"
  shows "tokio_poll_read env w rid b l = map_ok (as_tokio b) (futures_poll_read env w rid (rb_remaining b) l) \<and>
    hyper_read_from_tokio (tokio_poll_read env w rid) b l = tokio_poll_read env w rid b l \<and>
    tokio_read_from_hyper (hyper_read_from_tokio (tokio_poll_read env w rid)) b l = tokio_poll_read env w rid b l"
proof -
  let ?e = "\<lparr> rb_filled = [], rb_capacity = rb_remaining b \<rparr>"
  have "tokio_read_from_hyper (hyper_read_from_tokio (tokio_poll_read env w rid)) b l =
      map_ok (as_tokio b) (futures_poll_read env w rid (rb_remaining b) l)"
    using hyper_reads [OF assms(1), of ?e w rid l] assms(2)
    by (cases "futures_poll_read env w rid (rb_remaining b) l") (simp_all add: tokio_read_from_hyper_def as_tokio_nested_take)
  then show ?thesis using tokio_reads [OF assms, of w rid l] hyper_reads [OF assms, of w rid l] by simp
qed

theorem reads_agree_witness:
  "rb_remaining \<lparr> rb_filled = [7], rb_capacity = 3 \<rparr> = 2 \<and>
   tokio_poll_read demo_polling 4 0 \<lparr> rb_filled = [7], rb_capacity = 3 \<rparr> (wl_lib demo_world) =
     map_ok (as_tokio \<lparr> rb_filled = [7], rb_capacity = 3 \<rparr>) (futures_poll_read demo_polling 4 0 2 (wl_lib demo_world))"
proof -
  have "io_contract (IoEnv.truncate demo_polling)"
    by (simp add: io_contract_def demo_polling_def demo_env_def HostEnv.fields_def IoEnv.extend_def IoEnv.truncate_def io_idle_def)
  moreover have "rb_remaining \<lparr> rb_filled = [7], rb_capacity = 3 \<rparr> = 2" by (simp add: rb_remaining_def)
  ultimately show ?thesis using reads_agree [of demo_polling "\<lparr> rb_filled = [7], rb_capacity = 3 \<rparr>" 4 0 "wl_lib demo_world"] by simp
qed

section \<open>Timers\<close>

text \<open>
  The number of milliseconds is cut to 32 bits on its way to the host: a timer for about 49.7 days more is the same timer.
\<close>

lemma sleep_wraps: "sleep env (ms + 2 ^ 32) l = sleep env ms l"
proof -
  have "millis_as_i32 (ms + 2 ^ 32) = millis_as_i32 ms"
    unfolding millis_as_i32_def word_of_nat_eq_iff by (simp add: take_bit_eq_mod)
  then show ?thesis unfolding sleep_def by simp
qed

end
