(* ===== verification/Spec2Isabelle.thy ===== *)
theory Spec2Isabelle
  imports Ocall_Dispatch Guest_Tasks Worker_Usage Module_Loader Linear_Memory Sni_Listener Bridge_Properties Guest_Properties
begin

text \<open>
  Verification of wapo, a runtime for WebAssembly apps in a trusted worker, and of wapod, the worker
  that deploys, meters and answers for these apps on behalf of a chain.

  \<^bold>\<open>The program and how its parts interact.\<close> A guest program is compiled against the library
  \<open>wapo\<close>, whose operations end in ocalls: functions of the host, generated on both sides by the macros
  of \<open>wapo-macro\<close> from one trait in \<open>wapo-env\<close>. The host (\<open>wapo-host\<close>) runs each instance in its own
  context with a table of resources, polls the guest, and wakes it through numbered wakers. The worker
  (\<open>wapod\<close>) keeps the deployed apps, gives out a limited number of slots to their instances, accounts
  for their usage, and offers two RPC services; apps can share a TLS port through \<open>sni-tls-listener\<close>.
  The bridge (\<open>wapod-pherry\<close>) follows the chain, chooses the apps a worker should run, fetches their
  manifests and blobs, deploys and removes them through the RPC client, and reports metrics.

  \<^bold>\<open>What the theories hold.\<close> Each opens with the source file it models; definitions keep the names
  of the code, with a prefix where a name is taken.

  \<^item> \<open>Wapo_Prelude\<close>, \<open>Rust_Collections\<close>, \<open>Transition_Systems\<close>: machine integers as words,
    \<open>Result\<close>, byte strings; \<open>BTreeMap\<close>, \<open>HashMap\<close> and slot vectors with the interfaces \<open>map_iface\<close>
    and \<open>slot_alloc\<close>; the interfaces \<open>invariant_system\<close> and \<open>refinement\<close> of the state machines.
  \<^item> \<open>Ocall_Abi\<close> and \<open>Ocall_Dispatch\<close> (\<open>wapo-env/src\<close>, \<open>wapo-macro/src/macro_ocall.rs\<close>): error codes,
    conversions of arguments and results (interfaces \<open>i32_convertible\<close>, \<open>ret_codec\<close>), the argument
    stack, the macro's checks, the generated stubs and the dispatcher. Arguments and results survive the
    crossing, in order, and a stub reaches the handler of its own ocall; a 64-bit argument does not
    survive.
  \<^item> \<open>Meter_Metrics\<close>, \<open>Tls_Stream\<close>, \<open>Resource_Table\<close>, \<open>Task_Set\<close>, \<open>Blob_Store\<close>, \<open>Vm_Context\<close>
    (\<open>wapo-host/src/runtime\<close>): the parts of an instance's context and every ocall handler. Resource ids
    are fresh and exact, bytes read are bytes accounted, a ready task is served, what was stored is
    fetched, and \<open>Vm_Properties\<close> shows that any sequence of ocalls keeps the context well formed.
  \<^item> \<open>Module_Loader\<close>, \<open>Linear_Memory\<close>, \<open>Vm_Service\<close> (\<open>wapo-host/src\<close>): compilation shared between
    requests, memories from a pool, and the life of an instance with its restarts. No request is lost,
    a memory starts zeroed, restarts are limited, a stop request is honoured.
  \<^item> \<open>Guest_Tasks\<close> and \<open>Guest_Library\<close> (\<open>wapo-env/src/tasks.rs\<close>, \<open>wapo/src\<close>): the guest's wakers and
    tasks, its sockets, channels, timers and adapters. \<open>Guest_Properties\<close> composes them with the host:
    in every interleaving the handles a program holds are live and of their kind, and waking what a
    pending poll left behind wakes the very waker it was polled with.
  \<^item> \<open>Worker_Types\<close>, \<open>Worker_State\<close> (\<open>wapod-types/src\<close>, \<open>wapod/src/state.rs\<close>): manifests, signed
    messages, prices; apps, instances, slots, queries, sessions. \<open>Worker_Properties\<close> interleaves the
    locked sections of all operations and shows that the worker refines a plain manager of slots and
    stays within its capacity; \<open>Worker_Usage\<close> that usage survives resizes, and when it is lost.
  \<^item> \<open>Query_Auth\<close>, \<open>Rpc_Service\<close>, \<open>Sni_Listener\<close> (\<open>wapod-crypto/src\<close>, \<open>wapod/src/prpc_service.rs\<close>,
    \<open>wapod/src/bin/web_api/auth.rs\<close>, \<open>sni-tls-listener/src\<close>): who signs a query, both RPC services on
    the worker's state, and the owners of server names. A name has one owner, connections follow their
    name, and agents without reuse, one for each instance, receive no connection.
  \<^item> \<open>Ipfs_Downloader\<close>, \<open>Bridge\<close>, \<open>Bridge_Properties\<close> (\<open>wapod-pherry/src\<close>): downloads as interleaved
    tasks, and the bridge's event loop against any worker that keeps the contract \<open>worker_api\<close>, which
    is discharged for the model of the RPC service. A plan is carried out or its failure logged,
    a settlement claims only tickets the chain lists for this worker and that were resolved to a manifest with the
    app's address, downloads are parts of one response and, in runs where time passes, come to an end.

  \<^bold>\<open>How code becomes definitions.\<close> Structs are records, enums datatypes, integers words of their
  width. Stateful code passes its state explicitly; a function that awaits is split where another task
  may run, and the pieces are the rules of an inductive step relation. Fallible code returns
  \<open>Ok\<close> or \<open>Err\<close>, a poll \<open>Pend\<close> or \<open>Ready\<close>. Panics that the code can reach are error values.

  \<^bold>\<open>Parameters.\<close> Code outside the sources is an argument: hash functions, ciphers, signature
  schemes, codecs, the wasm engine, TLS, the disk, the clock, the node. What is relied on is a named
  predicate, such as \<open>libs_ok\<close> or \<open>lru_ok\<close>, and every theorem with hypotheses has an instance in which
  they hold.

  \<^bold>\<open>Bounds and fuel.\<close> Recursion is structural or has a measure. The loops that wait for other tasks
  (\<open>await_download\<close>, the loop of an instance, the bridge's event loop) run over the list of
  observations or events they are given, one per iteration, so a finite list is an execution prefix and
  the theorems quantify over all of them. That downloads end is proved for infinite runs of timed steps:
  a step may receive any number of empty chunks, and only the timeout of an attempt bounds them; a measure
  on the work left bounds everything else. The limits of the code (download slots, file sizes, table sizes) are kept as written.

  \<^bold>\<open>Not modelled.\<close> The connection to the node and the decoding of its storage (\<open>phaxt\<close>, the monitor in
  \<open>chain_state.rs\<close>): generated code and remote calls. The routes and streaming of the web server
  (\<open>web_api/mod.rs\<close>, \<open>rocket_stream.rs\<close>) and the bridge's commands \<open>deploy.rs\<close> and \<open>endpoints.rs\<close>: input and
  output around the modelled operations. Process set-up, command lines, configuration and
  logging (\<open>wapod/src/bin\<close>, \<open>wapod/src/config.rs\<close>, \<open>wapo-run\<close>, \<open>wapod-pherry/src/main.rs\<close>): they
  only read their environment and call the modelled operations. The allocator and the raw memory of
  the engine: below the level of the model. The parsing of Rust syntax by the macros, \<open>macro_main\<close>
  included: a compile-time transformation of tokens. The host filter \<open>tcp_acl.rs\<close> and \<open>httptime\<close>: they
  rest on address ranges, name resolution and HTTP of libraries. Examples, end-to-end and unit tests.
\<close>

end
